(* ===== verification/Prelude.thy ===== *)
theory Prelude
  imports Main "HOL-Library.Word"
begin

text \<open>
  Shared vocabulary of the development: results of fallible Python code as sums with their
  sequencing combinator, the list operations that stand for SQL statements over a table
  (\<open>WHERE\<close>, \<open>UPDATE ... WHERE\<close>, \<open>DELETE ... WHERE\<close>), and the generic lemmas about them that every
  component uses. The collections \<open>repo_defs\<close> (repository operations) and \<open>tx_defs\<close> (service
  transactions) are filled by the component theories.
\<close>

named_theorems repo_defs \<open>definitions of repository operations\<close>
named_theorems tx_defs \<open>definitions of service transactions\<close>
named_theorems model_defs \<open>definitions of small pure helpers, unfolded by most proofs\<close>

section \<open>Results of fallible code\<close>

text \<open>\<open>Inl e\<close> is an exception \<open>e\<close> that has been raised, \<open>Inr a\<close> a value that was returned.\<close>

type_synonym ('e, 'a) result = "'e + 'a"

definition bind_result :: "('e, 'a) result \<Rightarrow> ('a \<Rightarrow> ('e, 'b) result) \<Rightarrow> ('e, 'b) result" where
  "bind_result r k = (case r of Inl e \<Rightarrow> Inl e | Inr a \<Rightarrow> k a)"

lemma bind_result_simps [simp]:
  "bind_result (Inl e) k = Inl e"
  "bind_result (Inr a) k = k a"
  by (simp_all add: bind_result_def)

lemma bind_result_eq_Inr [simp]:
  "bind_result r k = Inr b \<longleftrightarrow> (\<exists>a. r = Inr a \<and> k a = Inr b)"
  by (cases r) auto

lemma bind_result_eq_Inl:
  "bind_result r k = Inl e \<longleftrightarrow> r = Inl e \<or> (\<exists>a. r = Inr a \<and> k a = Inl e)"
  by (cases r) auto

definition assert_that :: "bool \<Rightarrow> 'e \<Rightarrow> ('e, unit) result" where
  "assert_that b e = (if b then Inr () else Inl e)"

lemma assert_that_simps [simp]:
  "assert_that True e = Inr ()"
  "assert_that False e = Inl e"
  "assert_that b e = Inr u \<longleftrightarrow> b"
  by (simp_all add: assert_that_def)

text \<open>A comprehension whose element expression may raise.\<close>

primrec map_result :: "('a \<Rightarrow> ('e, 'b) result) \<Rightarrow> 'a list \<Rightarrow> ('e, 'b list) result" where
  "map_result f [] = Inr []"
| "map_result f (x # xs) = bind_result (f x) (\<lambda>y. bind_result (map_result f xs) (\<lambda>ys. Inr (y # ys)))"

lemma map_result_Inr: "map_result f xs = Inr ys \<Longrightarrow> list_all2 (\<lambda>x y. f x = Inr y) xs ys"
  by (induction xs arbitrary: ys) auto

lemma map_result_total: "(\<And>x. x \<in> set xs \<Longrightarrow> f x = Inr (g x)) \<Longrightarrow> map_result f xs = Inr (map g xs)"
  by (induction xs) auto

section \<open>Statements over a table\<close>

text \<open>A table is the list of its rows, in no meaningful order.\<close>

definition select_where :: "('r \<Rightarrow> bool) \<Rightarrow> 'r list \<Rightarrow> 'r list" where
  "select_where p rows = filter p rows"

definition update_where :: "('r \<Rightarrow> bool) \<Rightarrow> ('r \<Rightarrow> 'r) \<Rightarrow> 'r list \<Rightarrow> 'r list" where
  "update_where p f rows = map (\<lambda>r. if p r then f r else r) rows"

definition delete_where :: "('r \<Rightarrow> bool) \<Rightarrow> 'r list \<Rightarrow> 'r list" where
  "delete_where p rows = filter (\<lambda>r. \<not> p r) rows"

definition rowcount :: "('r \<Rightarrow> bool) \<Rightarrow> 'r list \<Rightarrow> nat" where
  "rowcount p rows = length (filter p rows)"

lemma set_select_where [simp]: "set (select_where p rows) = {r \<in> set rows. p r}"
  by (auto simp: select_where_def)

lemma set_update_where: "set (update_where p f rows) = (\<lambda>r. if p r then f r else r) ` set rows"
  by (simp add: update_where_def)

lemma in_update_whereE:
  assumes "r \<in> set (update_where p f rows)"
  obtains (same) "r \<in> set rows" "\<not> p r"
    | (changed) r0 where "r0 \<in> set rows" "p r0" "r = f r0"
  using assms by (auto simp: set_update_where split: if_splits)

lemma update_where_keeps [intro]: "r \<in> set rows \<Longrightarrow> \<not> p r \<Longrightarrow> r \<in> set (update_where p f rows)"
  by (force simp: set_update_where)

lemma update_where_changes [intro]: "r \<in> set rows \<Longrightarrow> p r \<Longrightarrow> f r \<in> set (update_where p f rows)"
  by (force simp: set_update_where)

lemma map_update_where_key:
  "(\<And>r. key (f r) = key r) \<Longrightarrow> map key (update_where p f rows) = map key rows"
  by (simp add: update_where_def)

lemma update_where_none: "\<forall>r \<in> set rows. \<not> p r \<Longrightarrow> update_where p f rows = rows"
  by (induction rows) (auto simp: update_where_def)

lemma set_delete_where [simp]: "set (delete_where p rows) = {r \<in> set rows. \<not> p r}"
  by (auto simp: delete_where_def)

lemma distinct_map_delete_where:
  "distinct (map key rows) \<Longrightarrow> distinct (map key (delete_where p rows))"
  by (simp add: delete_where_def distinct_map_filter)

lemma rowcount_zero_iff [simp]: "rowcount p rows = 0 \<longleftrightarrow> (\<forall>r \<in> set rows. \<not> p r)"
  by (auto simp: rowcount_def filter_empty_conv)

lemma rowcount_pos_iff [simp]: "0 < rowcount p rows \<longleftrightarrow> (\<exists>r \<in> set rows. p r)"
  using rowcount_zero_iff [of p rows] by (metis gr_zeroI less_numeral_extra(3))

lemma distinct_key_eq:
  "distinct (map key rows) \<Longrightarrow> r \<in> set rows \<Longrightarrow> r' \<in> set rows \<Longrightarrow> key r = key r' \<Longrightarrow> r = r'"
  by (simp add: distinct_map inj_on_def)

lemma distinct_mapD: "distinct (map f xs) \<Longrightarrow> distinct xs"
  by (simp add: distinct_map)

lemma distinct_filter_eq: "distinct xs \<Longrightarrow> r \<in> set xs \<Longrightarrow> filter (\<lambda>x. x = r) xs = [r]"
  by (induction xs) (auto simp: filter_empty_conv)

lemma filter_unique_key:
  assumes "distinct (map key rows)" and "r \<in> set rows" and "p r"
    and "\<And>x. p x \<Longrightarrow> key x = key r"
  shows "filter p rows = [r]"
proof -
  have "\<forall>x \<in> set rows. p x \<longleftrightarrow> x = r"
    using assms distinct_key_eq by metis
  then have "filter p rows = filter (\<lambda>x. x = r) rows"
    by (simp cong: filter_cong)
  also have "\<dots> = [r]"
    using distinct_mapD [OF assms(1)] assms(2) by (simp add: distinct_filter_eq)
  finally show ?thesis .
qed

section \<open>Lists\<close>

lemma map_filter_eq_filter_map:
  "(\<And>x. q (f x) = p x) \<Longrightarrow> map f (filter p xs) = filter q (map f xs)"
  by (induction xs) auto

lemma sort_key_Nil_iff [simp]: "sort_key f xs = [] \<longleftrightarrow> xs = []"
  by (metis length_0_conv length_sort)

end
