(* ===== verification/PyText.thy ===== *)
theory PyText
  imports Prelude
begin

text \<open>
  Python's \<open>str\<close> and the string methods the program calls. A \<open>str\<close> is the list of its code points
  (so \<open>length\<close> is Python's \<open>len\<close>, and a lone surrogate is a value like any other). The whitespace
  set is CPython's own and is written out. What needs the Unicode character database (normal forms,
  general categories, decimal digits, word characters, lower case) is a parameter, the record \<open>unicode\<close>.
\<close>

type_synonym ustr = "nat list"
type_synonym bytes = "8 word list"

section \<open>Literals\<close>

definition py_str :: "string \<Rightarrow> ustr" where
  "py_str s = map of_char s"

lemma py_str_simps [simp]:
  "py_str [] = []"
  "py_str (c # s) = of_char c # py_str s"
  by (simp_all add: py_str_def)

lemma inj_of_char_nat: "(of_char c :: nat) = of_char d \<longleftrightarrow> c = d"
  by (metis char_of_char)

lemma py_str_inject: "py_str s = py_str t \<longleftrightarrow> s = t"
  by (auto simp: py_str_def inj_of_char_nat inj_map_eq_map inj_def)

section \<open>Whitespace, strip, split, join, replace\<close>

text \<open>\<open>str.isspace\<close>, also what \<open>\s\<close> matches in a \<open>str\<close> pattern.\<close>

definition py_isspace :: "nat \<Rightarrow> bool" where
  "py_isspace c \<longleftrightarrow> (9 \<le> c \<and> c \<le> 13) \<or> (28 \<le> c \<and> c \<le> 32) \<or> c = 133 \<or> c = 160 \<or> c = 5760
     \<or> (8192 \<le> c \<and> c \<le> 8202) \<or> c = 8232 \<or> c = 8233 \<or> c = 8239 \<or> c = 8287 \<or> c = 12288"

definition py_lstrip :: "ustr \<Rightarrow> ustr" where
  "py_lstrip s = dropWhile py_isspace s"

definition py_strip_by :: "(nat \<Rightarrow> bool) \<Rightarrow> ustr \<Rightarrow> ustr" where
  "py_strip_by p s = rev (dropWhile p (rev (dropWhile p s)))"

definition py_strip :: "ustr \<Rightarrow> ustr" where
  "py_strip s = py_strip_by py_isspace s"

text \<open>\<open>split_by\<close> cuts at every separator; \<open>str.split()\<close> drops the empty pieces.\<close>

fun split_by :: "(nat \<Rightarrow> bool) \<Rightarrow> ustr \<Rightarrow> ustr list" where
  "split_by p [] = [[]]"
| "split_by p (c # s) =
     (if p c then [] # split_by p s
      else (case split_by p s of [] \<Rightarrow> [[c]] | w # ws \<Rightarrow> (c # w) # ws))"

definition py_split :: "ustr \<Rightarrow> ustr list" where
  "py_split s = filter (\<lambda>w. w \<noteq> []) (split_by py_isspace s)"

fun py_join :: "ustr \<Rightarrow> ustr list \<Rightarrow> ustr" where
  "py_join sep [] = []"
| "py_join sep [w] = w"
| "py_join sep (w # v # ws) = w @ sep @ py_join sep (v # ws)"

text \<open>\<open>s.replace(pat, "")\<close>: non-overlapping occurrences, from the left.\<close>

function remove_all :: "ustr \<Rightarrow> ustr \<Rightarrow> ustr" where
  "remove_all pat s =
     (case s of [] \<Rightarrow> []
      | c # s' \<Rightarrow> (if pat \<noteq> [] \<and> take (length pat) s = pat then remove_all pat (drop (length pat) s)
                  else c # remove_all pat s'))"
  by pat_completeness auto
termination
  by (relation "measure (\<lambda>(pat, s). length s)") (auto simp: Suc_le_eq)

declare remove_all.simps [simp del]

definition starts_with :: "'a list \<Rightarrow> 'a list \<Rightarrow> bool" where
  "starts_with pre s \<longleftrightarrow> take (length pre) s = pre"

section \<open>UTF-8\<close>

text \<open>
  \<open>str.encode("utf-8")\<close>. A lone surrogate cannot be encoded: \<open>UnicodeEncodeError\<close>, here \<open>None\<close>.
\<close>

definition is_surrogate :: "nat \<Rightarrow> bool" where
  "is_surrogate c \<longleftrightarrow> 55296 \<le> c \<and> c \<le> 57343"

definition utf8_char :: "nat \<Rightarrow> bytes" where
  "utf8_char c =
     (if c < 128 then [of_nat c]
      else if c < 2048 then [of_nat (192 + c div 64), of_nat (128 + c mod 64)]
      else if c < 65536 then
        [of_nat (224 + c div 4096), of_nat (128 + c div 64 mod 64), of_nat (128 + c mod 64)]
      else [of_nat (240 + c div 262144), of_nat (128 + c div 4096 mod 64),
            of_nat (128 + c div 64 mod 64), of_nat (128 + c mod 64)])"

definition utf8_encode :: "ustr \<Rightarrow> bytes option" where
  "utf8_encode s = (if list_ex is_surrogate s then None else Some (concat (map utf8_char s)))"

lemma utf8_encode_length_ge: "utf8_encode s = Some b \<Longrightarrow> length s \<le> length b"
proof -
  have one: "1 \<le> length (utf8_char c)" for c
    by (simp add: utf8_char_def)
  have "length s \<le> length (concat (map utf8_char s))"
    by (induction s) (auto simp: le_diff_conv intro: order_trans [OF _ add_mono [OF one]])
  then show "utf8_encode s = Some b \<Longrightarrow> length s \<le> length b"
    by (auto simp: utf8_encode_def split: if_splits)
qed

section \<open>The Unicode character database, as a parameter\<close>

record unicode =
  u_nfc :: "ustr \<Rightarrow> ustr"
  u_nfkc :: "ustr \<Rightarrow> ustr"
  u_category :: "nat \<Rightarrow> string"
  u_decimal :: "nat \<Rightarrow> nat option"
  u_isword :: "nat \<Rightarrow> bool"
  u_lower :: "ustr \<Rightarrow> ustr"

text \<open>
  The restriction of the database to ASCII text, on which normalisation is the identity: the
  instance that concrete examples are evaluated with.
\<close>

definition ascii_category :: "nat \<Rightarrow> string" where
  "ascii_category c =
     (if c < 32 \<or> c = 127 then ''Cc'' else if 48 \<le> c \<and> c \<le> 57 then ''Nd''
      else if 65 \<le> c \<and> c \<le> 90 then ''Lu'' else if 97 \<le> c \<and> c \<le> 122 then ''Ll''
      else if c = 32 then ''Zs'' else ''Po'')"

definition ascii_unicode :: unicode where
  "ascii_unicode = \<lparr>u_nfc = id, u_nfkc = id, u_category = ascii_category,
     u_decimal = (\<lambda>c. if 48 \<le> c \<and> c \<le> 57 then Some (c - 48) else None),
     u_isword = (\<lambda>c. (48 \<le> c \<and> c \<le> 57) \<or> (65 \<le> c \<and> c \<le> 90) \<or> c = 95 \<or> (97 \<le> c \<and> c \<le> 122)),
     u_lower = map (\<lambda>c. if 65 \<le> c \<and> c \<le> 90 then c + 32 else c)\<rparr>"

section \<open>Laws of the string methods\<close>

lemma split_by_not_Nil [simp]: "split_by p s \<noteq> []"
  by (cases s) (auto split: list.splits)

lemma split_by_pieces: "w \<in> set (split_by p s) \<Longrightarrow> c \<in> set w \<Longrightarrow> \<not> p c \<and> c \<in> set s"
proof (induction s arbitrary: w)
  case (Cons d s)
  obtain v vs where v: "split_by p s = v # vs" by (cases "split_by p s") simp_all
  with Cons.prems consider "w \<in> set (split_by p s)" | "w = []" | "\<not> p d" "w = d # v"
    by (auto split: if_splits)
  then show ?case
  proof cases
    case 3
    with Cons.prems Cons.IH [of v] v show ?thesis by auto
  qed (use Cons in auto)
qed simp

lemma py_split_words: "w \<in> set (py_split s) \<Longrightarrow> w \<noteq> [] \<and> (\<forall>c \<in> set w. \<not> py_isspace c \<and> c \<in> set s)"
  using split_by_pieces by (auto simp: py_split_def)

lemma split_by_sep_free: "\<forall>c \<in> set w. \<not> p c \<Longrightarrow> split_by p w = [w]"
  by (induction w) auto

lemma split_by_append_sep:
  "\<forall>c \<in> set w. \<not> p c \<Longrightarrow> p d \<Longrightarrow> split_by p (w @ d # s) = w # split_by p s"
  by (induction w) auto

lemma py_split_join:
  assumes "\<forall>w \<in> set ws. w \<noteq> [] \<and> (\<forall>c \<in> set w. \<not> py_isspace c)"
  shows "py_split (py_join [32] ws) = ws"
  using assms
proof (induction "[32::nat]" ws rule: py_join.induct)
  case (3 w v ws)
  have "split_by py_isspace (w @ [32] @ py_join [32] (v # ws)) = w # split_by py_isspace (py_join [32] (v # ws))"
    using 3 by (simp add: split_by_append_sep py_isspace_def)
  with 3 show ?case by (simp add: py_split_def)
qed (auto simp: py_split_def split_by_sep_free)

lemma py_split_no_space: "s \<noteq> [] \<Longrightarrow> \<forall>c \<in> set s. \<not> py_isspace c \<Longrightarrow> py_split s = [s]"
  by (simp add: py_split_def split_by_sep_free)

lemma set_strip_by: "set (py_strip_by p s) \<subseteq> set s"
  by (auto simp: py_strip_by_def dest!: set_dropWhileD)

lemma py_strip_Nil_iff: "py_strip s = [] \<longleftrightarrow> (\<forall>c \<in> set s. py_isspace c)"
proof
  assume "py_strip s = []"
  then have "\<forall>c \<in> set (dropWhile py_isspace s). py_isspace c"
    by (simp add: py_strip_def py_strip_by_def)
  then show "\<forall>c \<in> set s. py_isspace c"
    by (metis dropWhile_eq_Nil_conv hd_dropWhile hd_in_set)
next
  assume "\<forall>c \<in> set s. py_isspace c"
  then show "py_strip s = []"
    by (auto simp: py_strip_def py_strip_by_def dest: set_dropWhileD)
qed

lemma length_strip_le: "length (py_strip s) \<le> length s"
proof -
  have "length (py_strip s) \<le> length (dropWhile py_isspace s)"
    by (metis length_dropWhile_le length_rev py_strip_by_def py_strip_def)
  also have "\<dots> \<le> length s" by (rule length_dropWhile_le)
  finally show ?thesis .
qed

end
