(* ===== verification/Uuid.thy ===== *)
theory Uuid
  imports PyText
begin

text \<open>
  Identifiers. \<open>uuid.UUID(text)\<close> accepts many spellings of one identifier (a \<open>urn:uuid:\<close> prefix,
  braces, misplaced hyphens, a \<open>0x\<close> prefix, single underscores, non-ASCII digits), because it hands
  32 characters to \<open>int(text, 16)\<close>; \<open>str\<close> of the result is the one canonical spelling.
  \<open>parse_id\<close> of \<open>backend/db/repositories/_identifiers.py\<close> is the boundary every repository uses.
\<close>

type_synonym uuid = "128 word"

section \<open>\<open>int(text, 16)\<close>\<close>

definition hex_value :: "nat \<Rightarrow> nat option" where
  "hex_value c =
     (if 48 \<le> c \<and> c \<le> 57 then Some (c - 48)
      else if 97 \<le> c \<and> c \<le> 102 then Some (c - 87)
      else if 65 \<le> c \<and> c \<le> 70 then Some (c - 55) else None)"

definition c_isspace :: "nat \<Rightarrow> bool" where
  "c_isspace c \<longleftrightarrow> (9 \<le> c \<and> c \<le> 13) \<or> c = 32"

text \<open>Non-ASCII white space becomes a space and a non-ASCII decimal digit its ASCII digit.\<close>

definition int_transform :: "unicode \<Rightarrow> nat \<Rightarrow> nat" where
  "int_transform U c =
     (if c < 127 then c else if py_isspace c then 32
      else case u_decimal U c of Some d \<Rightarrow> 48 + d | None \<Rightarrow> 63)"

fun hex_run :: "bool \<Rightarrow> nat \<Rightarrow> ustr \<Rightarrow> (nat \<times> ustr) option" where
  "hex_run prev acc [] = (if prev then None else Some (acc, []))"
| "hex_run prev acc (c # s) =
     (if c = 95 then (if prev then None else hex_run True acc s)
      else case hex_value c of
        Some d \<Rightarrow> hex_run False (16 * acc + d) s
      | None \<Rightarrow> (if prev then None else Some (acc, c # s)))"

definition take_sign :: "ustr \<Rightarrow> bool \<times> ustr" where
  "take_sign s = (case s of [] \<Rightarrow> (False, [])
     | c # r \<Rightarrow> (if c = 43 then (False, r) else if c = 45 then (True, r) else (False, c # r)))"

definition drop_0x :: "ustr \<Rightarrow> ustr" where
  "drop_0x s =
     (case s of
        c # x # r \<Rightarrow>
          (if c = 48 \<and> (x = 120 \<or> x = 88)
           then (case r of [] \<Rightarrow> [] | y # r' \<Rightarrow> (if y = 95 then r' else r))
           else s)
      | _ \<Rightarrow> s)"

definition py_int16 :: "unicode \<Rightarrow> ustr \<Rightarrow> int option" where
  "py_int16 U s =
     (let (neg, s2) = take_sign (dropWhile c_isspace (map (int_transform U) s)); s3 = drop_0x s2 in
      case s3 of [] \<Rightarrow> None
      | c # _ \<Rightarrow>
        (if hex_value c = None then None
         else case hex_run False 0 s3 of
           None \<Rightarrow> None
         | Some (v, rest) \<Rightarrow>
             (if list_all c_isspace rest then Some (if neg then - int v else int v) else None)))"

section \<open>\<open>uuid.UUID\<close> and \<open>str(uuid)\<close>\<close>

definition uuid_of_text :: "unicode \<Rightarrow> ustr \<Rightarrow> uuid option" where
  "uuid_of_text U s =
     (let h = remove_all (py_str ''uuid:'') (remove_all (py_str ''urn:'') s);
          h' = remove_all [45] (py_strip_by (\<lambda>c. c = 123 \<or> c = 125) h) in
      if length h' \<noteq> 32 then None
      else case py_int16 U h' of
        None \<Rightarrow> None
      | Some i \<Rightarrow> (if 0 \<le> i \<and> i < 2 ^ 128 then Some (of_int i) else None))"

definition hex_char :: "nat \<Rightarrow> nat" where
  "hex_char d = (if d < 10 then 48 + d else 87 + d)"

fun hex_digits :: "nat \<Rightarrow> nat \<Rightarrow> ustr" where
  "hex_digits 0 n = []"
| "hex_digits (Suc k) n = hex_digits k (n div 16) @ [hex_char (n mod 16)]"

definition hyphenate :: "ustr \<Rightarrow> ustr" where
  "hyphenate h = take 8 h @ [45] @ take 4 (drop 8 h) @ [45] @ take 4 (drop 12 h) @ [45]
     @ take 4 (drop 16 h) @ [45] @ drop 20 h"

definition uuid_str :: "uuid \<Rightarrow> ustr" where
  "uuid_str w = hyphenate (hex_digits 32 (unat w))"

section \<open>\<open>parse_id\<close>\<close>

datatype id_value = IdNone | IdUuid uuid | IdText ustr

fun parse_id :: "unicode \<Rightarrow> id_value \<Rightarrow> uuid option" where
  "parse_id U IdNone = None"
| "parse_id U (IdUuid u) = Some u"
| "parse_id U (IdText s) = uuid_of_text U s"

abbreviation parse_text :: "unicode \<Rightarrow> ustr \<Rightarrow> uuid option" where
  "parse_text U s \<equiv> parse_id U (IdText s)"

section \<open>Printing then parsing is the identity\<close>

definition is_lower_hex :: "nat \<Rightarrow> bool" where
  "is_lower_hex c \<longleftrightarrow> (48 \<le> c \<and> c \<le> 57) \<or> (97 \<le> c \<and> c \<le> 102)"

lemma hex_char_lower: "d < 16 \<Longrightarrow> is_lower_hex (hex_char d)"
  by (simp add: hex_char_def is_lower_hex_def)

lemma hex_value_char: "d < 16 \<Longrightarrow> hex_value (hex_char d) = Some d"
  by (simp add: hex_char_def hex_value_def)

lemma length_hex_digits [simp]: "length (hex_digits k n) = k"
  by (induction k arbitrary: n) auto

lemma hex_digits_lower: "c \<in> set (hex_digits k n) \<Longrightarrow> is_lower_hex c"
  by (induction k arbitrary: n) (auto simp: hex_char_lower)

lemma hex_run_append_digit:
  "hex_run False acc s = Some (v, []) \<Longrightarrow> d < 16 \<Longrightarrow> s \<noteq> [] \<longrightarrow> True
    \<Longrightarrow> list_all is_lower_hex s \<Longrightarrow> hex_run False acc (s @ [hex_char d]) = Some (16 * v + d, [])"
proof (induction s arbitrary: acc)
  case Nil
  then show ?case by (simp add: hex_value_char) (simp add: hex_char_def)
next
  case (Cons c s)
  then have c: "c \<noteq> 95" "\<exists>d. hex_value c = Some d"
    by (auto simp: is_lower_hex_def hex_value_def)
  with Cons show ?case by auto
qed

lemma hex_run_digits: "hex_run False 0 (hex_digits k n) = Some (n mod 16 ^ k, [])"
proof (induction k arbitrary: n)
  case (Suc k)
  have "hex_run False 0 (hex_digits (Suc k) n) = Some (16 * (n div 16 mod 16 ^ k) + n mod 16, [])"
    using hex_run_append_digit [OF Suc [of "n div 16"], of "n mod 16"]
    by (auto simp: list_all_iff hex_digits_lower)
  also have "16 * (n div 16 mod 16 ^ k) + n mod 16 = n mod 16 ^ Suc k"
    by (simp add: mod_mult2_eq)
  finally show ?case .
qed simp

lemma remove_all_absent: "c \<notin> set s \<Longrightarrow> remove_all (c # p) s = s"
  by (induction s) (auto simp: remove_all.simps [of "c # p"])

lemma remove_all_single: "remove_all [c] s = filter (\<lambda>x. x \<noteq> c) s"
  by (induction s) (auto simp: remove_all.simps [of "[c]"])

lemma strip_by_absent: "\<forall>c \<in> set s. \<not> p c \<Longrightarrow> py_strip_by p s = s"
proof -
  assume a: "\<forall>c \<in> set s. \<not> p c"
  then have "dropWhile p s = s" "dropWhile p (rev s) = rev s"
    by (metis dropWhile_eq_self_iff hd_in_set, metis dropWhile_eq_self_iff hd_in_set set_rev)
  then show ?thesis by (simp add: py_strip_by_def)
qed

lemma hyphenate_set: "set (hyphenate h) \<subseteq> insert 45 (set h)"
  unfolding hyphenate_def by (auto dest: in_set_takeD in_set_dropD)

lemma filter_hyphenate:
  assumes "\<forall>c \<in> set h. c \<noteq> 45"
  shows "filter (\<lambda>x. x \<noteq> 45) (hyphenate h) = h"
proof -
  have keep: "filter (\<lambda>x. x \<noteq> 45) (take m (drop n h)) = take m (drop n h)" for m n
    using assms by (auto simp: filter_id_conv dest: in_set_takeD in_set_dropD)
  have keep': "filter (\<lambda>x. x \<noteq> 45) (drop n h) = drop n h" for n
    using assms by (auto simp: filter_id_conv dest: in_set_dropD)
  have split: "take 4 (drop n h) @ drop (n + 4) h = drop n h" for n
    by (metis add.commute append_take_drop_id drop_drop)
  show ?thesis
    using keep [of 8 0] keep [of 4 8] keep [of 4 12] keep [of 4 16] keep' [of 20]
      split [of 8] split [of 12] split [of 16]
    by (simp add: hyphenate_def)
qed

lemma py_int16_digits:
  assumes "k > 0"
  shows "py_int16 U (hex_digits k n) = Some (int (n mod 16 ^ k))"
proof -
  let ?h = "hex_digits k n"
  have low: "\<forall>c \<in> set ?h. is_lower_hex c" by (blast intro: hex_digits_lower)
  then have m: "map (int_transform U) ?h = ?h"
    by (intro map_idI) (auto simp: int_transform_def is_lower_hex_def)
  have first: "a \<in> set ?h" if "?h = a # b" for a b using that by simp
  have "dropWhile c_isspace ?h = ?h"
    using low by (cases ?h) (auto simp: c_isspace_def is_lower_hex_def)
  moreover have "take_sign ?h = (False, ?h)"
    using low by (auto simp: take_sign_def is_lower_hex_def split: list.split)
  ultimately have ts: "take_sign (dropWhile c_isspace (map (int_transform U) ?h)) = (False, ?h)"
    by (simp add: m)
  have d: "drop_0x ?h = ?h"
    using low by (auto simp: drop_0x_def is_lower_hex_def split: list.split)
  have "?h \<noteq> []" using assms by (metis length_0_conv length_hex_digits not_gr_zero)
  moreover have "hex_value a \<noteq> None" if "?h = a # b" for a b
    using low first [OF that] by (auto simp: is_lower_hex_def hex_value_def)
  ultimately show ?thesis
    using hex_run_digits [of k n] by (auto simp: py_int16_def ts d Let_def split: list.split)
qed

lemma parse_uuid_str [simp]: "uuid_of_text U (uuid_str w) = Some w"
proof -
  let ?h = "hex_digits 32 (unat w)"
  have lt: "unat w < 2 ^ 128" and ult: "uint w < 2 ^ 128"
    using unsigned_less [of w] uint_lt2p [of w] by simp_all
  have low: "\<forall>c \<in> set ?h. is_lower_hex c" by (blast intro: hex_digits_lower)
  then have no45: "\<forall>c \<in> set ?h. c \<noteq> 45" by (auto simp: is_lower_hex_def)
  have s: "\<forall>c \<in> set (uuid_str w). c = 45 \<or> is_lower_hex c"
    using hyphenate_set low by (fastforce simp: uuid_str_def)
  then have urn: "117 \<notin> set (uuid_str w)" and "\<forall>c \<in> set (uuid_str w). \<not> (c = 123 \<or> c = 125)"
    by (auto simp: is_lower_hex_def)
  then have "py_strip_by (\<lambda>c. c = 123 \<or> c = 125) (uuid_str w) = uuid_str w"
    by (intro strip_by_absent) auto
  moreover have "remove_all [45] (uuid_str w) = ?h"
    by (simp add: remove_all_single uuid_str_def filter_hyphenate [OF no45])
  moreover have "py_int16 U ?h = Some (int (unat w))"
    using lt by (simp add: py_int16_digits)
  ultimately show ?thesis
    using urn ult by (simp add: uuid_of_text_def remove_all_absent)
qed

lemma uuid_str_inject [simp]: "uuid_str v = uuid_str w \<longleftrightarrow> v = w"
  by (metis option.inject parse_uuid_str)

lemma length_uuid_str [simp]: "length (uuid_str w) = 36"
  by (simp add: uuid_str_def hyphenate_def)

lemma uuid_str_chars: "c \<in> set (uuid_str w) \<Longrightarrow> c = 45 \<or> is_lower_hex c"
  using hyphenate_set hex_digits_lower unfolding uuid_str_def by fastforce

end
