(* ===== verification/Domain.thy ===== *)
theory Domain
  imports Complex_Main Uuid
begin

text \<open>
  The domain models of \<open>shared/models/\<close> and the exceptions of the program. Enumerations keep the
  source's members (written \<open>DocumentStatus.PENDING\<close> as in the source) and their string values;
  Pydantic models are records, and a model with validators has a constructor that returns
  \<open>Inl ValueError\<close> for the arguments its validators refuse. Floats are the rationals they denote;
  timestamps are integers on the database clock.
\<close>

type_synonym timestamp = int
type_synonym vector = "rat list"

text \<open>A JSON value, as \<open>dict[str, Any]\<close> fields and vector payloads hold them.\<close>

datatype json =
  JNull | JBool bool | JInt int | JFloat rat | JStr ustr | JList "json list" | JDict "(ustr \<times> json) list"

section \<open>Documents\<close>

datatype DocumentType = PDF | TEXT | NOTE | REPORT

datatype DocumentStatus = PENDING | PROCESSING | PARSED | CHUNKED | READY | FAILED

fun status_value :: "DocumentStatus \<Rightarrow> string" where
  "status_value DocumentStatus.PENDING = ''pending''"
| "status_value DocumentStatus.PROCESSING = ''processing''"
| "status_value DocumentStatus.PARSED = ''parsed''"
| "status_value DocumentStatus.CHUNKED = ''chunked''"
| "status_value DocumentStatus.READY = ''ready''"
| "status_value DocumentStatus.FAILED = ''failed''"

record DocumentMetadata =
  md_title :: "ustr option"
  md_authors :: "ustr list"
  md_year :: "int option"
  md_journal :: "ustr option"
  md_doi :: "ustr option"
  md_abstract :: "ustr option"
  md_keywords :: "ustr list"
  md_extra :: "(ustr \<times> json) list"

definition empty_metadata :: DocumentMetadata where
  "empty_metadata = \<lparr>md_title = None, md_authors = [], md_year = None, md_journal = None,
     md_doi = None, md_abstract = None, md_keywords = [], md_extra = []\<rparr>"

record Document =
  d_id :: ustr
  d_user_id :: ustr
  d_filename :: ustr
  d_doc_type :: DocumentType
  d_status :: DocumentStatus
  d_metadata :: DocumentMetadata
  d_chunk_count :: int
  d_content_hash :: "ustr option"
  d_size_bytes :: "int option"
  d_mime_type :: "ustr option"
  d_page_count :: "int option"
  d_created_at :: timestamp
  d_updated_at :: timestamp

record UploadOutcome =
  up_document :: Document
  up_created :: bool

record DocumentChunk =
  dc_id :: ustr
  dc_document_id :: ustr
  dc_content :: ustr
  dc_chunk_index :: int
  dc_section :: "ustr option"
  dc_page_start :: "int option"
  dc_page_end :: "int option"

section \<open>Failure reasons and ingestion outcomes\<close>

datatype ExtractionFailure =
  OPEN_FAILED | ENCRYPTED | PAGE_LIMIT_EXCEEDED | PARSE_FAILED | TIMEOUT | PARSER_UNAVAILABLE

fun extraction_value :: "ExtractionFailure \<Rightarrow> string" where
  "extraction_value OPEN_FAILED = ''pdf_open_failed''"
| "extraction_value ENCRYPTED = ''pdf_encrypted''"
| "extraction_value ExtractionFailure.PAGE_LIMIT_EXCEEDED = ''page_limit_exceeded''"
| "extraction_value PARSE_FAILED = ''pdf_parse_failed''"
| "extraction_value TIMEOUT = ''pdf_timeout''"
| "extraction_value ExtractionFailure.PARSER_UNAVAILABLE = ''parser_unavailable''"

definition extraction_transient :: "ExtractionFailure \<Rightarrow> bool" where
  "extraction_transient r \<longleftrightarrow> r = ExtractionFailure.PARSER_UNAVAILABLE"

datatype IngestionReason =
  INVALID_JOB | DOCUMENT_NOT_FOUND | OWNERSHIP_MISMATCH | STORAGE_KEY_MISMATCH
  | CONTENT_HASH_MISMATCH | MIME_TYPE_MISMATCH
  | STORAGE_MISSING | STORAGE_READ_FAILURE | UNSUPPORTED_MIME_TYPE | PROCESSING_FAILURE
  | STALE_PROCESSING
  | PDF_OPEN_FAILED | PDF_ENCRYPTED | PAGE_LIMIT_EXCEEDED | PDF_PARSE_FAILED | PDF_TIMEOUT
  | PARSER_UNAVAILABLE | PAGE_COUNT_MISMATCH | NO_EXTRACTABLE_TEXT
  | NO_EXTRACTED_PAGES | NO_CHUNKS_PRODUCED | CHUNKING_FAILURE
  | NO_CHUNKS_TO_EMBED | EMBEDDING_FAILURE | VECTOR_STORE_FAILURE | EMBEDDING_DIMENSION_MISMATCH
  | UNKNOWN

fun reason_value :: "IngestionReason \<Rightarrow> string" where
  "reason_value INVALID_JOB = ''invalid_job''"
| "reason_value DOCUMENT_NOT_FOUND = ''document_not_found''"
| "reason_value OWNERSHIP_MISMATCH = ''ownership_mismatch''"
| "reason_value STORAGE_KEY_MISMATCH = ''storage_key_mismatch''"
| "reason_value CONTENT_HASH_MISMATCH = ''content_hash_mismatch''"
| "reason_value MIME_TYPE_MISMATCH = ''mime_type_mismatch''"
| "reason_value STORAGE_MISSING = ''storage_missing''"
| "reason_value STORAGE_READ_FAILURE = ''storage_read_failure''"
| "reason_value UNSUPPORTED_MIME_TYPE = ''unsupported_mime_type''"
| "reason_value PROCESSING_FAILURE = ''processing_failure''"
| "reason_value STALE_PROCESSING = ''stale_processing''"
| "reason_value PDF_OPEN_FAILED = ''pdf_open_failed''"
| "reason_value PDF_ENCRYPTED = ''pdf_encrypted''"
| "reason_value IngestionReason.PAGE_LIMIT_EXCEEDED = ''page_limit_exceeded''"
| "reason_value PDF_PARSE_FAILED = ''pdf_parse_failed''"
| "reason_value PDF_TIMEOUT = ''pdf_timeout''"
| "reason_value IngestionReason.PARSER_UNAVAILABLE = ''parser_unavailable''"
| "reason_value PAGE_COUNT_MISMATCH = ''page_count_mismatch''"
| "reason_value NO_EXTRACTABLE_TEXT = ''no_extractable_text''"
| "reason_value NO_EXTRACTED_PAGES = ''no_extracted_pages''"
| "reason_value NO_CHUNKS_PRODUCED = ''no_chunks_produced''"
| "reason_value CHUNKING_FAILURE = ''chunking_failure''"
| "reason_value NO_CHUNKS_TO_EMBED = ''no_chunks_to_embed''"
| "reason_value EMBEDDING_FAILURE = ''embedding_failure''"
| "reason_value VECTOR_STORE_FAILURE = ''vector_store_failure''"
| "reason_value EMBEDDING_DIMENSION_MISMATCH = ''embedding_dimension_mismatch''"
| "reason_value UNKNOWN = ''unknown''"

definition all_reasons :: "IngestionReason list" where
  "all_reasons =
     [INVALID_JOB, DOCUMENT_NOT_FOUND, OWNERSHIP_MISMATCH, STORAGE_KEY_MISMATCH,
      CONTENT_HASH_MISMATCH, MIME_TYPE_MISMATCH, STORAGE_MISSING, STORAGE_READ_FAILURE,
      UNSUPPORTED_MIME_TYPE, PROCESSING_FAILURE, STALE_PROCESSING, PDF_OPEN_FAILED, PDF_ENCRYPTED,
      IngestionReason.PAGE_LIMIT_EXCEEDED, PDF_PARSE_FAILED, PDF_TIMEOUT,
      IngestionReason.PARSER_UNAVAILABLE, PAGE_COUNT_MISMATCH, NO_EXTRACTABLE_TEXT,
      NO_EXTRACTED_PAGES, NO_CHUNKS_PRODUCED, CHUNKING_FAILURE, NO_CHUNKS_TO_EMBED,
      EMBEDDING_FAILURE, VECTOR_STORE_FAILURE, EMBEDDING_DIMENSION_MISMATCH, UNKNOWN]"

text \<open>\<open>IngestionReason(value)\<close>: lookup of a member by its value, \<open>ValueError\<close> (here \<open>None\<close>) without one.\<close>

definition reason_of_value :: "string \<Rightarrow> IngestionReason option" where
  "reason_of_value v = List.find (\<lambda>r. reason_value r = v) all_reasons"

datatype IngestionOutcome =
  PARSED | SKIPPED_IN_PROGRESS | CHUNKED | READY | SKIPPED_TERMINAL | REJECTED | FAILED | CLAIM_LOST

record IngestionJob =
  job_document_id :: ustr
  job_owner_id :: ustr
  job_storage_key :: ustr
  job_content_hash :: ustr
  job_mime_type :: ustr

record IngestionResult =
  res_outcome :: IngestionOutcome
  res_document_id :: "ustr option"
  res_reason :: "IngestionReason option"

record IngestionTarget =
  tgt_document_id :: ustr
  tgt_owner_id :: ustr
  tgt_status :: DocumentStatus
  tgt_storage_key :: "ustr option"
  tgt_content_hash :: "ustr option"
  tgt_mime_type :: "ustr option"
  tgt_page_count :: "int option"

record RecoveryResult =
  rec_requeued :: "ustr list"
  rec_already_queued :: nat
  rec_skipped :: nat

text \<open>\<open>document_processing/validation.py\<close>: the one type of document that is accepted.\<close>

definition PDF_MIME_TYPE :: ustr where
  "PDF_MIME_TYPE = py_str ''application/pdf''"

section \<open>Users and identities\<close>

datatype UserRole = ADMIN | RESEARCHER | VIEWER

record User =
  u_id :: ustr
  u_email :: ustr
  u_full_name :: ustr
  u_role :: UserRole
  u_is_active :: bool
  u_created_at :: timestamp

record TokenData =
  td_user_id :: ustr
  td_email :: ustr
  td_role :: UserRole
  td_exp :: timestamp

text \<open>\<open>is_active: Literal[True]\<close> admits one value only, so the field carries no information.\<close>

record Principal =
  p_user_id :: ustr
  p_email :: ustr
  p_role :: UserRole

record UserCredentials =
  uc_user_id :: ustr
  uc_email :: ustr
  uc_password_hash :: "ustr option"
  uc_role :: UserRole
  uc_is_active :: bool

record AccessToken =
  at_token :: ustr
  at_expires_in_seconds :: int

section \<open>Exceptions\<close>

datatype db_error =
  IntegrityError string | DataError | MultipleResultsFound | OperationalError | ProgrammingError

datatype RejectionReason =
  EMPTY | TOO_LARGE | UNSUPPORTED_TYPE | MALFORMED | ENCRYPTED | TOO_MANY_PAGES | INVALID_FILENAME

datatype exn =
  ValueError | TypeError | LookupError | KeyError | RuntimeError | OtherError
  | OSError | StorageError | StorageObjectMissing
  | PdfExtractionError ExtractionFailure
  | EmbeddingError | VectorStoreError
  | DatabaseError db_error
  | UploadRejected RejectionReason | UploadNotConfigured | IngestionUnavailable
  | UploadPersistenceFailed
  | InvalidSearchQuery | SearchUnavailable
  | TokenError | AuthenticationError | EmailAlreadyRegistered | PasswordPolicyError
  | TransientIngestionError IngestionReason
  | Retry int
  | HTTPException int
  | CancelledError

text \<open>
  Which \<open>except\<close> clause catches what. \<open>asyncio.CancelledError\<close> is a \<open>BaseException\<close>, so
  \<open>except Exception\<close> lets it through; \<open>StorageObjectMissing\<close> is a \<open>StorageError\<close>.
\<close>

definition is_Exception :: "exn \<Rightarrow> bool" where
  "is_Exception e \<longleftrightarrow> e \<noteq> CancelledError"

definition is_StorageError :: "exn \<Rightarrow> bool" where
  "is_StorageError e \<longleftrightarrow> e = StorageError \<or> e = StorageObjectMissing"

definition is_ValueError :: "exn \<Rightarrow> bool" where
  "is_ValueError e \<longleftrightarrow> e = ValueError \<or> e = InvalidSearchQuery \<or> e = PasswordPolicyError"

lemmas exn_class_defs [model_defs] = is_Exception_def is_StorageError_def is_ValueError_def

end
