(* ===== verification/TextModels.thy ===== *)
theory TextModels
  imports Domain
begin

text \<open>
  The models that carry text through the pipeline: extracted pages
  (\<open>shared/models/extraction.py\<close>), chunks and their derived identifiers
  (\<open>shared/models/chunking.py\<close>) and what retrieval takes and returns
  (\<open>shared/models/retrieval.py\<close>).
\<close>

section \<open>Extracted text\<close>

record TextBlock =
  tb_text :: ustr
  tb_font_size :: rat

definition mk_text_block :: "ustr \<Rightarrow> rat \<Rightarrow> (exn, TextBlock) result" where
  "mk_text_block text points =
     (if points < 0 \<or> py_strip text = [] then Inl ValueError
      else Inr \<lparr>tb_text = text, tb_font_size = points\<rparr>)"

record ExtractedPage =
  ep_page_number :: int
  ep_blocks :: "TextBlock list"

definition mk_page :: "int \<Rightarrow> TextBlock list \<Rightarrow> (exn, ExtractedPage) result" where
  "mk_page n blocks =
     (if n < 1 then Inl ValueError else Inr \<lparr>ep_page_number = n, ep_blocks = blocks\<rparr>)"

definition page_text :: "ExtractedPage \<Rightarrow> ustr" where
  "page_text p = py_join [10, 10] (map tb_text (ep_blocks p))"

record ExtractedText =
  et_page_count :: int
  et_pages :: "ExtractedPage list"

definition mk_extracted_text :: "int \<Rightarrow> ExtractedPage list \<Rightarrow> (exn, ExtractedText) result" where
  "mk_extracted_text n pages =
     (if n < 1 \<or> map ep_page_number pages \<noteq> [1..n] then Inl ValueError
      else Inr \<lparr>et_page_count = n, et_pages = pages\<rparr>)"

definition has_text :: "ExtractedText \<Rightarrow> bool" where
  "has_text t \<longleftrightarrow> list_ex (\<lambda>p. ep_blocks p \<noteq> []) (et_pages t)"

text \<open>What the validators promise of a value that exists.\<close>

definition wf_text_block :: "TextBlock \<Rightarrow> bool" where
  "wf_text_block b \<longleftrightarrow> 0 \<le> tb_font_size b \<and> py_strip (tb_text b) \<noteq> []"

definition wf_page :: "ExtractedPage \<Rightarrow> bool" where
  "wf_page p \<longleftrightarrow> 1 \<le> ep_page_number p \<and> list_all wf_text_block (ep_blocks p)"

definition wf_extracted :: "ExtractedText \<Rightarrow> bool" where
  "wf_extracted t \<longleftrightarrow> 1 \<le> et_page_count t \<and> map ep_page_number (et_pages t) = [1..et_page_count t]
     \<and> list_all wf_page (et_pages t)"

lemma mk_text_block_wf [simp]: "mk_text_block s z = Inr b \<Longrightarrow> wf_text_block b"
  by (auto simp: mk_text_block_def wf_text_block_def split: if_splits)

lemma wf_extracted_pages_nonempty: "wf_extracted t \<Longrightarrow> et_pages t \<noteq> []"
  by (auto simp: wf_extracted_def)

lemma wf_extracted_numbers: "wf_extracted t \<Longrightarrow> distinct (map ep_page_number (et_pages t))"
  by (simp add: wf_extracted_def)

section \<open>Chunks\<close>

record Chunk =
  c_chunk_index :: int
  c_content :: ustr
  c_section :: "ustr option"
  c_page_start :: int
  c_page_end :: int
  c_token_count :: int

definition wf_chunk :: "Chunk \<Rightarrow> bool" where
  "wf_chunk c \<longleftrightarrow> 0 \<le> c_chunk_index c \<and> py_strip (c_content c) \<noteq> [] \<and> 1 \<le> c_page_start c
     \<and> c_page_start c \<le> c_page_end c \<and> 0 < c_token_count c"

definition mk_chunk ::
  "int \<Rightarrow> ustr \<Rightarrow> ustr option \<Rightarrow> int \<Rightarrow> int \<Rightarrow> int \<Rightarrow> (exn, Chunk) result" where
  "mk_chunk i content sec p1 p2 tokens =
     (if i < 0 \<or> p1 < 1 \<or> p2 < 1 \<or> tokens \<le> 0 then Inl ValueError
      else if py_strip content = [] then Inl ValueError
      else if p2 < p1 then Inl ValueError
      else Inr \<lparr>c_chunk_index = i, c_content = content, c_section = sec,
             c_page_start = p1, c_page_end = p2, c_token_count = tokens\<rparr>)"

lemma mk_chunk_wf: "mk_chunk i t s a b n = Inr c \<Longrightarrow> wf_chunk c"
  by (auto simp: mk_chunk_def wf_chunk_def split: if_splits)

record ChunkingResult =
  cr_chunks :: "Chunk list"
  cr_strategy_version :: ustr
  cr_tokenizer_id :: ustr

section \<open>Derived chunk identifiers\<close>

text \<open>\<open>str(n)\<close> of an integer.\<close>

fun nat_digits :: "nat \<Rightarrow> ustr" where
  "nat_digits n = (if n < 10 then [48 + n] else nat_digits (n div 10) @ [48 + n mod 10])"

declare nat_digits.simps [simp del]

definition int_str :: "int \<Rightarrow> ustr" where
  "int_str i = (if i < 0 then 45 # nat_digits (nat (- i)) else nat_digits (nat i))"

definition chunk_id_namespace :: uuid where
  "chunk_id_namespace = 0x6f1a2d4e9b3c5a7d8e0f1c2b3a4d5e6f"

definition chunk_id_name :: "ustr \<Rightarrow> int \<Rightarrow> ustr \<Rightarrow> ustr \<Rightarrow> ustr" where
  "chunk_id_name doc i strategy tokenizer =
     doc @ [124] @ int_str i @ [124] @ strategy @ [124] @ tokenizer"

text \<open>\<open>uuid.uuid5\<close> hashes a name in a namespace; it is the parameter \<open>uuid5\<close>.\<close>

definition chunk_id_for ::
  "(uuid \<Rightarrow> ustr \<Rightarrow> uuid) \<Rightarrow> ustr \<Rightarrow> int \<Rightarrow> ustr \<Rightarrow> ustr \<Rightarrow> uuid" where
  "chunk_id_for uuid5 doc i strategy tokenizer =
     uuid5 chunk_id_namespace (chunk_id_name doc i strategy tokenizer)"

lemma nat_digits_digit: "c \<in> set (nat_digits n) \<Longrightarrow> 48 \<le> c \<and> c \<le> 57"
proof (induction n rule: nat_digits.induct)
  case (1 n)
  then show ?case by (subst (asm) nat_digits.simps [of n]) (auto split: if_splits)
qed

lemma nat_digits_value: "foldl (\<lambda>a c. 10 * a + (c - 48)) 0 (nat_digits n) = n"
proof (induction n rule: nat_digits.induct)
  case (1 n)
  then show ?case by (subst nat_digits.simps) simp
qed

lemma nat_digits_inject: "nat_digits m = nat_digits n \<longleftrightarrow> m = n"
  by (metis nat_digits_value)

lemma int_str_inject: "int_str i = int_str j \<longleftrightarrow> i = j"
proof
  assume eq: "int_str i = int_str j"
  have no45: "nat_digits m \<noteq> 45 # s" for m s
  proof
    assume "nat_digits m = 45 # s"
    then have "45 \<in> set (nat_digits m)" by simp
    with nat_digits_digit [of 45 m] show False by simp
  qed
  from eq show "i = j"
    by (auto simp: int_str_def nat_digits_inject no45 no45 [symmetric] split: if_splits)
qed simp

lemma int_str_no_bar: "124 \<notin> set (int_str i)"
  using nat_digits_digit [of 124] by (auto simp: int_str_def)

lemma append_sep_inject:
  "a @ x # s = b @ x # t \<Longrightarrow> x \<notin> set a \<Longrightarrow> x \<notin> set b \<Longrightarrow> a = b \<and> s = t"
proof (induction a arbitrary: b)
  case Nil
  then show ?case by (cases b) auto
next
  case (Cons y a)
  then show ?case by (cases b) auto
qed

lemma uuid_str_no_bar: "124 \<notin> set (uuid_str w)"
  using uuid_str_chars [of 124 w] by (auto simp: is_lower_hex_def)

text \<open>
  The name that is hashed determines the document and the index, whatever the version strings
  contain: neither a canonical document id nor a decimal number contains the separator.
\<close>

lemma chunk_id_name_inject:
  assumes "chunk_id_name (uuid_str d) i s t = chunk_id_name (uuid_str d') i' s' t'"
  shows "d = d' \<and> i = i' \<and> s @ [124] @ t = s' @ [124] @ t'"
proof -
  have "uuid_str d @ 124 # (int_str i @ 124 # (s @ 124 # t)) =
        uuid_str d' @ 124 # (int_str i' @ 124 # (s' @ 124 # t'))"
    using assms by (simp add: chunk_id_name_def)
  from append_sep_inject [OF this uuid_str_no_bar uuid_str_no_bar]
  have "d = d'" and rest: "int_str i @ 124 # (s @ 124 # t) = int_str i' @ 124 # (s' @ 124 # t')"
    by simp_all
  moreover from append_sep_inject [OF rest int_str_no_bar int_str_no_bar]
  have "int_str i = int_str i'" and "s @ 124 # t = s' @ 124 # t'" by simp_all
  ultimately show ?thesis by (simp add: int_str_inject)
qed

section \<open>Retrieval\<close>

record ValidatedChunk =
  vc_chunk_id :: ustr
  vc_document_id :: ustr
  vc_content :: ustr
  vc_chunk_index :: int
  vc_section :: "ustr option"
  vc_page_start :: int
  vc_page_end :: int
  vc_embedding_model_id :: ustr

record RetrievalResult =
  rr_chunk_id :: ustr
  rr_document_id :: ustr
  rr_score :: rat
  rr_content :: ustr
  rr_chunk_index :: int
  rr_section :: "ustr option"
  rr_page_start :: int
  rr_page_end :: int
  rr_embedding_model_id :: ustr

definition retrieval_result_of :: "ValidatedChunk \<Rightarrow> rat \<Rightarrow> RetrievalResult" where
  "retrieval_result_of c score =
     \<lparr>rr_chunk_id = vc_chunk_id c, rr_document_id = vc_document_id c, rr_score = score,
      rr_content = vc_content c, rr_chunk_index = vc_chunk_index c, rr_section = vc_section c,
      rr_page_start = vc_page_start c, rr_page_end = vc_page_end c,
      rr_embedding_model_id = vc_embedding_model_id c\<rparr>"

record RetrievalQuery =
  rq_text :: ustr
  rq_top_k :: "int option"
  rq_score_threshold :: "rat option"
  rq_document_ids :: "ustr list option"

definition mk_retrieval_query ::
  "ustr \<Rightarrow> int option \<Rightarrow> rat option \<Rightarrow> ustr list option \<Rightarrow> (exn, RetrievalQuery) result" where
  "mk_retrieval_query text k thr docs =
     (if (case k of None \<Rightarrow> False | Some n \<Rightarrow> n \<le> 0)
         \<or> (case thr of None \<Rightarrow> False | Some x \<Rightarrow> x < 0 \<or> 1 < x) then Inl ValueError
      else Inr \<lparr>rq_text = text, rq_top_k = k, rq_score_threshold = thr, rq_document_ids = docs\<rparr>)"

end
