(* ===== verification/Database.thy ===== *)
theory Database
  imports TextModels
begin

text \<open>
  The schema of \<open>backend/db/models/\<close>. A table is the list of its rows; a statement that writes is
  accepted when the table it would leave satisfies every constraint the models declare (column
  widths and types first, then checks, primary and unique keys, foreign keys) and is refused with
  the database's error otherwise. \<open>db_now\<close> is what \<open>func.now()\<close> returns, in microseconds.
\<close>

section \<open>Rows\<close>

record UserRow =
  usr_id :: uuid
  usr_email :: ustr
  usr_full_name :: ustr
  usr_role :: UserRole
  usr_is_active :: bool
  usr_password_hash :: "ustr option"
  usr_created_at :: timestamp
  usr_updated_at :: timestamp

record DocumentRow =
  doc_id :: uuid
  doc_user_id :: uuid
  doc_filename :: ustr
  doc_doc_type :: DocumentType
  doc_status :: DocumentStatus
  doc_metadata :: DocumentMetadata
  doc_chunk_count :: int
  doc_storage_key :: "ustr option"
  doc_content_hash :: "ustr option"
  doc_size_bytes :: "int option"
  doc_mime_type :: "ustr option"
  doc_page_count :: "int option"
  doc_failure_reason :: "ustr option"
  doc_created_at :: timestamp
  doc_updated_at :: timestamp
  doc_deleted_at :: "timestamp option"

record PageRow =
  pg_document_id :: uuid
  pg_page_number :: int
  pg_blocks :: "TextBlock list"
  pg_created_at :: timestamp

record ChunkRow =
  chk_id :: uuid
  chk_document_id :: uuid
  chk_chunk_index :: int
  chk_content :: ustr
  chk_section :: "ustr option"
  chk_page_start :: int
  chk_page_end :: int
  chk_token_count :: int
  chk_strategy_version :: ustr
  chk_tokenizer_id :: ustr
  chk_embedding_model_id :: "ustr option"
  chk_dimension :: "int option"
  chk_created_at :: timestamp

record database =
  db_users :: "UserRow list"
  db_documents :: "DocumentRow list"
  db_pages :: "PageRow list"
  db_chunks :: "ChunkRow list"
  db_now :: timestamp

section \<open>What a column accepts\<close>

text \<open>PostgreSQL text holds any Unicode scalar value except NUL; a lone surrogate is not one.\<close>

definition text_fits :: "ustr \<Rightarrow> bool" where
  "text_fits s \<longleftrightarrow> list_all (\<lambda>c. c \<noteq> 0 \<and> \<not> is_surrogate c) s"

definition varchar_fits :: "nat \<Rightarrow> ustr \<Rightarrow> bool" where
  "varchar_fits n s \<longleftrightarrow> length s \<le> n \<and> text_fits s"

definition int4_fits :: "int \<Rightarrow> bool" where
  "int4_fits i \<longleftrightarrow> - (2 ^ 31) \<le> i \<and> i < 2 ^ 31"

definition int8_fits :: "int \<Rightarrow> bool" where
  "int8_fits i \<longleftrightarrow> - (2 ^ 63) \<le> i \<and> i < 2 ^ 63"

definition opt_ok :: "('a \<Rightarrow> bool) \<Rightarrow> 'a option \<Rightarrow> bool" where
  "opt_ok p x = (case x of None \<Rightarrow> True | Some a \<Rightarrow> p a)"

lemma opt_ok_simps [simp]: "opt_ok p None" "opt_ok p (Some a) = p a"
  by (simp_all add: opt_ok_def)

section \<open>Constraints\<close>

text \<open>The first requirement that is not met, with its error.\<close>

fun violated :: "(bool \<times> db_error) list \<Rightarrow> db_error option" where
  "violated [] = None"
| "violated ((ok, e) # cs) = (if ok then violated cs else Some e)"

definition user_fits :: "UserRow \<Rightarrow> bool" where
  "user_fits r \<longleftrightarrow> varchar_fits 320 (usr_email r) \<and> varchar_fits 255 (usr_full_name r)
     \<and> opt_ok (varchar_fits 255) (usr_password_hash r)"

definition users_error :: "UserRow list \<Rightarrow> db_error option" where
  "users_error users = violated
     [(list_all user_fits users, DataError),
      (distinct (map usr_id users), IntegrityError ''pk_users''),
      (distinct (map usr_email users), IntegrityError ''uq_users_email'')]"

definition document_fits :: "DocumentRow \<Rightarrow> bool" where
  "document_fits r \<longleftrightarrow> varchar_fits 512 (doc_filename r) \<and> int4_fits (doc_chunk_count r)
     \<and> opt_ok (varchar_fits 255) (doc_storage_key r) \<and> opt_ok (varchar_fits 64) (doc_content_hash r)
     \<and> opt_ok int8_fits (doc_size_bytes r) \<and> opt_ok (varchar_fits 255) (doc_mime_type r)
     \<and> opt_ok int4_fits (doc_page_count r) \<and> opt_ok (varchar_fits 64) (doc_failure_reason r)"

definition is_live :: "DocumentRow \<Rightarrow> bool" where
  "is_live r \<longleftrightarrow> doc_deleted_at r = None"

definition reason_iff_failed :: "DocumentRow \<Rightarrow> bool" where
  "reason_iff_failed r \<longleftrightarrow> (doc_status r = DocumentStatus.FAILED) = (doc_failure_reason r \<noteq> None)"

text \<open>The partial unique index on owner and content: rows that are deleted or have no hash are not in it.\<close>

definition content_index :: "DocumentRow list \<Rightarrow> (uuid \<times> ustr option) list" where
  "content_index rows = map (\<lambda>r. (doc_user_id r, doc_content_hash r))
     (filter (\<lambda>r. is_live r \<and> doc_content_hash r \<noteq> None) rows)"

definition documents_error :: "UserRow list \<Rightarrow> DocumentRow list \<Rightarrow> db_error option" where
  "documents_error users docs = violated
     [(list_all document_fits docs, DataError),
      (list_all (\<lambda>r. 0 \<le> doc_chunk_count r) docs, IntegrityError ''ck_documents_chunk_count_non_negative''),
      (list_all (\<lambda>r. opt_ok (\<lambda>n. 0 < n) (doc_size_bytes r)) docs, IntegrityError ''ck_documents_size_bytes_positive''),
      (list_all (\<lambda>r. opt_ok (\<lambda>n. 0 < n) (doc_page_count r)) docs, IntegrityError ''ck_documents_page_count_positive''),
      (list_all reason_iff_failed docs, IntegrityError ''ck_documents_failure_reason_iff_failed''),
      (distinct (map doc_id docs), IntegrityError ''pk_documents''),
      (distinct (content_index docs), IntegrityError ''uq_documents_user_id_content_hash''),
      (list_all (\<lambda>r. doc_user_id r \<in> set (map usr_id users)) docs, IntegrityError ''fk_documents_user_id_users'')]"

definition page_fits :: "PageRow \<Rightarrow> bool" where
  "page_fits r \<longleftrightarrow> int4_fits (pg_page_number r) \<and> list_all (\<lambda>b. text_fits (tb_text b)) (pg_blocks r)"

definition pages_error :: "DocumentRow list \<Rightarrow> PageRow list \<Rightarrow> db_error option" where
  "pages_error docs pages = violated
     [(list_all page_fits pages, DataError),
      (list_all (\<lambda>r. 1 \<le> pg_page_number r) pages, IntegrityError ''ck_document_pages_page_number_positive''),
      (distinct (map (\<lambda>r. (pg_document_id r, pg_page_number r)) pages), IntegrityError ''pk_document_pages''),
      (list_all (\<lambda>r. pg_document_id r \<in> set (map doc_id docs)) pages, IntegrityError ''fk_document_pages_document_id_documents'')]"

definition chunk_fits :: "ChunkRow \<Rightarrow> bool" where
  "chunk_fits r \<longleftrightarrow> int4_fits (chk_chunk_index r) \<and> text_fits (chk_content r)
     \<and> opt_ok text_fits (chk_section r) \<and> int4_fits (chk_page_start r) \<and> int4_fits (chk_page_end r)
     \<and> int4_fits (chk_token_count r) \<and> varchar_fits 64 (chk_strategy_version r)
     \<and> varchar_fits 64 (chk_tokenizer_id r) \<and> opt_ok (varchar_fits 255) (chk_embedding_model_id r)
     \<and> opt_ok int4_fits (chk_dimension r)"

definition chunks_error :: "DocumentRow list \<Rightarrow> ChunkRow list \<Rightarrow> db_error option" where
  "chunks_error docs chunks = violated
     [(list_all chunk_fits chunks, DataError),
      (list_all (\<lambda>r. 0 \<le> chk_chunk_index r) chunks, IntegrityError ''ck_document_chunks_chunk_index_non_negative''),
      (list_all (\<lambda>r. 1 \<le> chk_page_start r) chunks, IntegrityError ''ck_document_chunks_page_start_positive''),
      (list_all (\<lambda>r. chk_page_start r \<le> chk_page_end r) chunks, IntegrityError ''ck_document_chunks_page_end_not_before_start''),
      (list_all (\<lambda>r. 0 < chk_token_count r) chunks, IntegrityError ''ck_document_chunks_token_count_positive''),
      (list_all (\<lambda>r. opt_ok (\<lambda>n. 0 < n) (chk_dimension r)) chunks, IntegrityError ''ck_document_chunks_dimension_positive''),
      (distinct (map chk_id chunks), IntegrityError ''pk_document_chunks''),
      (distinct (map (\<lambda>r. (chk_document_id r, chk_chunk_index r)) chunks), IntegrityError ''uq_document_chunks_document_id_chunk_index''),
      (list_all (\<lambda>r. chk_document_id r \<in> set (map doc_id docs)) chunks, IntegrityError ''fk_document_chunks_document_id_documents'')]"

text \<open>Every constraint of the schema holds.\<close>

definition wf_db :: "database \<Rightarrow> bool" where
  "wf_db db \<longleftrightarrow> users_error (db_users db) = None
     \<and> documents_error (db_users db) (db_documents db) = None
     \<and> pages_error (db_documents db) (db_pages db) = None
     \<and> chunks_error (db_documents db) (db_chunks db) = None"

lemma violated_None [simp]: "violated cs = None \<longleftrightarrow> list_all fst cs"
  by (induction cs rule: violated.induct) auto

declare violated.simps [simp del]

section \<open>Writing a table\<close>

definition write_users :: "UserRow list \<Rightarrow> database \<Rightarrow> (exn, database) result" where
  "write_users rows db = (case users_error rows of
     Some e \<Rightarrow> Inl (DatabaseError e) | None \<Rightarrow> Inr (db\<lparr>db_users := rows\<rparr>))"

definition write_documents :: "DocumentRow list \<Rightarrow> database \<Rightarrow> (exn, database) result" where
  "write_documents rows db = (case documents_error (db_users db) rows of
     Some e \<Rightarrow> Inl (DatabaseError e) | None \<Rightarrow> Inr (db\<lparr>db_documents := rows\<rparr>))"

definition write_pages :: "PageRow list \<Rightarrow> database \<Rightarrow> (exn, database) result" where
  "write_pages rows db = (case pages_error (db_documents db) rows of
     Some e \<Rightarrow> Inl (DatabaseError e) | None \<Rightarrow> Inr (db\<lparr>db_pages := rows\<rparr>))"

definition write_chunks :: "ChunkRow list \<Rightarrow> database \<Rightarrow> (exn, database) result" where
  "write_chunks rows db = (case chunks_error (db_documents db) rows of
     Some e \<Rightarrow> Inl (DatabaseError e) | None \<Rightarrow> Inr (db\<lparr>db_chunks := rows\<rparr>))"

text \<open>\<open>scalar_one_or_none\<close>, \<open>one_or_none\<close>: more than one row is an error, not a choice.\<close>

definition one_or_none :: "'r list \<Rightarrow> (exn, 'r option) result" where
  "one_or_none rows = (case rows of [] \<Rightarrow> Inr None | [r] \<Rightarrow> Inr (Some r)
     | _ \<Rightarrow> Inl (DatabaseError MultipleResultsFound))"

lemma one_or_none_simps [simp]:
  "one_or_none [] = Inr None"
  "one_or_none [r] = Inr (Some r)"
  by (simp_all add: one_or_none_def)

lemma one_or_none_Some: "one_or_none rows = Inr (Some r) \<longleftrightarrow> rows = [r]"
  by (auto simp: one_or_none_def split: list.splits)

lemma one_or_none_None: "one_or_none rows = Inr None \<longleftrightarrow> rows = []"
  by (auto simp: one_or_none_def split: list.splits)

lemma write_users_eq [simp]:
  "write_users rows db = Inr db' \<longleftrightarrow> users_error rows = None \<and> db' = db\<lparr>db_users := rows\<rparr>"
  by (auto simp: write_users_def split: option.splits)

lemma write_documents_eq [simp]:
  "write_documents rows db = Inr db' \<longleftrightarrow>
     documents_error (db_users db) rows = None \<and> db' = db\<lparr>db_documents := rows\<rparr>"
  by (auto simp: write_documents_def split: option.splits)

lemma write_pages_eq [simp]:
  "write_pages rows db = Inr db' \<longleftrightarrow>
     pages_error (db_documents db) rows = None \<and> db' = db\<lparr>db_pages := rows\<rparr>"
  by (auto simp: write_pages_def split: option.splits)

lemma write_chunks_eq [simp]:
  "write_chunks rows db = Inr db' \<longleftrightarrow>
     chunks_error (db_documents db) rows = None \<and> db' = db\<lparr>db_chunks := rows\<rparr>"
  by (auto simp: write_chunks_def split: option.splits)

section \<open>Consequences of the constraints\<close>

lemma wf_db_keys:
  assumes "wf_db db"
  shows "distinct (map doc_id (db_documents db))" and "distinct (map chk_id (db_chunks db))"
    and "distinct (map usr_id (db_users db))" and "distinct (map usr_email (db_users db))"
    and "distinct (content_index (db_documents db))"
    and "distinct (map (\<lambda>r. (pg_document_id r, pg_page_number r)) (db_pages db))"
    and "distinct (map (\<lambda>r. (chk_document_id r, chk_chunk_index r)) (db_chunks db))"
  using assms by (simp_all add: wf_db_def users_error_def documents_error_def pages_error_def chunks_error_def)

lemma wf_db_document_eq:
  "wf_db db \<Longrightarrow> r \<in> set (db_documents db) \<Longrightarrow> r' \<in> set (db_documents db) \<Longrightarrow> doc_id r = doc_id r' \<Longrightarrow> r = r'"
  using wf_db_keys(1) distinct_key_eq by metis

lemma wf_db_references:
  assumes "wf_db db"
  shows "c \<in> set (db_chunks db) \<Longrightarrow> chk_document_id c \<in> doc_id ` set (db_documents db)"
    and "g \<in> set (db_pages db) \<Longrightarrow> pg_document_id g \<in> doc_id ` set (db_documents db)"
    and "r \<in> set (db_documents db) \<Longrightarrow> doc_user_id r \<in> usr_id ` set (db_users db)"
  using assms by (auto simp: wf_db_def documents_error_def pages_error_def chunks_error_def list_all_iff)

lemma wf_db_reason:
  "wf_db db \<Longrightarrow> r \<in> set (db_documents db) \<Longrightarrow>
     doc_status r = DocumentStatus.FAILED \<longleftrightarrow> doc_failure_reason r \<noteq> None"
  by (auto simp: wf_db_def documents_error_def list_all_iff reason_iff_failed_def)

lemma wf_db_document_unique:
  assumes "wf_db db" and "\<And>x. p x \<Longrightarrow> doc_id x = d"
  shows "select_where p (db_documents db) = [] \<or>
    (\<exists>r \<in> set (db_documents db). p r \<and> select_where p (db_documents db) = [r])"
proof (cases "\<exists>r \<in> set (db_documents db). p r")
  case True
  then obtain r where r: "r \<in> set (db_documents db)" "p r" by blast
  have "filter p (db_documents db) = [r]"
    using filter_unique_key [where key = doc_id, OF wf_db_keys(1) [OF assms(1)] r(1), of p] assms(2) r by metis
  with r show ?thesis by (auto simp: select_where_def)
qed (auto simp: select_where_def filter_empty_conv)

end
