(* ===== verification/DocumentRepository.thy ===== *)
theory DocumentRepository
  imports Database
begin

text \<open>
  \<open>backend/db/repositories/document.py\<close>: every statement on \<open>documents\<close>. A read is a function of the
  database; a statement that writes returns the database it leaves, or the error it was refused
  with. Identifiers arrive as text and become \<open>uuid\<close> through \<open>parse_id\<close>; an identifier that is not
  one selects nothing.
\<close>

section \<open>Scoping\<close>

text \<open>The predicate every owner-scoped statement carries: id, owner and \<open>deleted_at IS NULL\<close>.\<close>

definition owned_live :: "uuid \<Rightarrow> uuid \<Rightarrow> DocumentRow \<Rightarrow> bool" where
  "owned_live target owner r \<longleftrightarrow> doc_id r = target \<and> doc_user_id r = owner \<and> is_live r"

text \<open>Both identifiers parsed, or the answer for a malformed one.\<close>

definition scoped :: "unicode \<Rightarrow> ustr \<Rightarrow> ustr \<Rightarrow> 'a \<Rightarrow> (uuid \<Rightarrow> uuid \<Rightarrow> 'a) \<Rightarrow> 'a" where
  "scoped U document_id user_id none k =
     (case parse_text U document_id of
        None \<Rightarrow> none
      | Some target \<Rightarrow> (case parse_text U user_id of None \<Rightarrow> none | Some owner \<Rightarrow> k target owner))"

lemma scoped_eq: "parse_text U d = Some t \<Longrightarrow> parse_text U u = Some ow \<Longrightarrow> scoped U d u n k = k t ow"
  by (simp add: scoped_def)

lemma scoped_str [simp]: "scoped U (uuid_str d) (uuid_str u) n k = k d u"
  by (simp add: scoped_def)

lemma scoped_none: "parse_text U d = None \<or> parse_text U u = None \<Longrightarrow> scoped U d u n k = n"
  by (auto simp: scoped_def split: option.splits)

lemma scoped_cases:
  obtains (malformed) "parse_text U d = None \<or> parse_text U u = None"
  | (parsed) t ow where "parse_text U d = Some t" "parse_text U u = Some ow"
  by (cases "parse_text U d"; cases "parse_text U u") auto

section \<open>Rows and domain models\<close>

definition document_to_domain :: "DocumentRow \<Rightarrow> Document" where
  "document_to_domain r =
     \<lparr>d_id = uuid_str (doc_id r), d_user_id = uuid_str (doc_user_id r), d_filename = doc_filename r,
      d_doc_type = doc_doc_type r, d_status = doc_status r, d_metadata = doc_metadata r,
      d_chunk_count = doc_chunk_count r, d_content_hash = doc_content_hash r,
      d_size_bytes = doc_size_bytes r, d_mime_type = doc_mime_type r, d_page_count = doc_page_count r,
      d_created_at = doc_created_at r, d_updated_at = doc_updated_at r\<rparr>"

definition ingestion_target :: "DocumentRow \<Rightarrow> IngestionTarget" where
  "ingestion_target r =
     \<lparr>tgt_document_id = uuid_str (doc_id r), tgt_owner_id = uuid_str (doc_user_id r),
      tgt_status = doc_status r, tgt_storage_key = doc_storage_key r,
      tgt_content_hash = doc_content_hash r, tgt_mime_type = doc_mime_type r,
      tgt_page_count = doc_page_count r\<rparr>"

section \<open>Creating and reading\<close>

text \<open>What the caller chooses about a new document; \<open>uuid4\<close> draws its id.\<close>

record DocumentValues =
  nd_filename :: ustr
  nd_doc_type :: DocumentType
  nd_metadata :: "DocumentMetadata option"
  nd_status :: DocumentStatus
  nd_storage_key :: "ustr option"
  nd_content_hash :: "ustr option"
  nd_size_bytes :: "int option"
  nd_mime_type :: "ustr option"
  nd_page_count :: "int option"

definition new_document_row :: "uuid \<Rightarrow> uuid \<Rightarrow> DocumentValues \<Rightarrow> timestamp \<Rightarrow> DocumentRow" where
  "new_document_row new_id owner v now =
     \<lparr>doc_id = new_id, doc_user_id = owner, doc_filename = nd_filename v, doc_doc_type = nd_doc_type v,
      doc_status = nd_status v,
      doc_metadata = (case nd_metadata v of None \<Rightarrow> empty_metadata | Some m \<Rightarrow> m),
      doc_chunk_count = 0, doc_storage_key = nd_storage_key v, doc_content_hash = nd_content_hash v,
      doc_size_bytes = nd_size_bytes v, doc_mime_type = nd_mime_type v,
      doc_page_count = nd_page_count v, doc_failure_reason = None, doc_created_at = now,
      doc_updated_at = now, doc_deleted_at = None\<rparr>"

definition documents_create ::
  "unicode \<Rightarrow> uuid \<Rightarrow> ustr \<Rightarrow> DocumentValues \<Rightarrow> database \<Rightarrow> (exn, Document \<times> database) result" where
  "documents_create U new_id user_id v db =
     (case parse_text U user_id of
        None \<Rightarrow> Inl ValueError
      | Some owner \<Rightarrow>
          let row = new_document_row new_id owner v (db_now db) in
          bind_result (write_documents (db_documents db @ [row]) db)
            (\<lambda>db'. Inr (document_to_domain row, db')))"

definition documents_get_for_user ::
  "unicode \<Rightarrow> ustr \<Rightarrow> ustr \<Rightarrow> database \<Rightarrow> (exn, Document option) result" where
  "documents_get_for_user U document_id user_id db =
     scoped U document_id user_id (Inr None) (\<lambda>target owner.
       bind_result (one_or_none (select_where (owned_live target owner) (db_documents db)))
         (\<lambda>row. Inr (map_option document_to_domain row)))"

definition documents_find_live_by_content_hash_for_user ::
  "unicode \<Rightarrow> ustr \<Rightarrow> ustr \<Rightarrow> database \<Rightarrow> (exn, Document option) result" where
  "documents_find_live_by_content_hash_for_user U hash user_id db =
     (case parse_text U user_id of
        None \<Rightarrow> Inr None
      | Some owner \<Rightarrow>
          bind_result (one_or_none (select_where
              (\<lambda>r. doc_content_hash r = Some hash \<and> doc_user_id r = owner \<and> is_live r) (db_documents db)))
            (\<lambda>row. Inr (map_option document_to_domain row)))"

text \<open>Newest first; rows with equal stamps keep the table's order.\<close>

definition documents_list_for_user :: "unicode \<Rightarrow> ustr \<Rightarrow> database \<Rightarrow> Document list" where
  "documents_list_for_user U user_id db =
     (case parse_text U user_id of
        None \<Rightarrow> []
      | Some owner \<Rightarrow>
          map document_to_domain (sort_key (\<lambda>r. - doc_created_at r)
            (select_where (\<lambda>r. doc_user_id r = owner \<and> is_live r) (db_documents db))))"

text \<open>\<open>onupdate\<close> stamps \<open>updated_at\<close> too.\<close>

definition documents_soft_delete_for_user ::
  "unicode \<Rightarrow> ustr \<Rightarrow> ustr \<Rightarrow> database \<Rightarrow> (exn, bool \<times> database) result" where
  "documents_soft_delete_for_user U document_id user_id db =
     scoped U document_id user_id (Inr (False, db)) (\<lambda>target owner.
       bind_result (write_documents
           (update_where (owned_live target owner)
              (\<lambda>r. r\<lparr>doc_deleted_at := Some (db_now db), doc_updated_at := db_now db\<rparr>) (db_documents db)) db)
         (\<lambda>db'. Inr (0 < rowcount (owned_live target owner) (db_documents db), db')))"

section \<open>Ingestion\<close>

definition documents_get_ingestion_target_for_user ::
  "unicode \<Rightarrow> ustr \<Rightarrow> ustr \<Rightarrow> database \<Rightarrow> (exn, IngestionTarget option) result" where
  "documents_get_ingestion_target_for_user U document_id user_id db =
     scoped U document_id user_id (Inr None) (\<lambda>target owner.
       bind_result (one_or_none (select_where (owned_live target owner) (db_documents db)))
         (\<lambda>row. Inr (map_option ingestion_target row)))"

definition documents_live_document_exists :: "unicode \<Rightarrow> ustr \<Rightarrow> database \<Rightarrow> bool" where
  "documents_live_document_exists U document_id db =
     (case parse_text U document_id of
        None \<Rightarrow> False
      | Some target \<Rightarrow> select_where (\<lambda>r. doc_id r = target \<and> is_live r) (db_documents db) \<noteq> [])"

text \<open>The compare-and-set: the expected status is part of the predicate.\<close>

definition move_status ::
  "DocumentStatus \<Rightarrow> ustr option \<Rightarrow> int option \<Rightarrow> timestamp \<Rightarrow> DocumentRow \<Rightarrow> DocumentRow" where
  "move_status new reason count now r =
     r\<lparr>doc_status := new, doc_failure_reason := reason, doc_updated_at := now,
       doc_chunk_count := (case count of None \<Rightarrow> doc_chunk_count r | Some n \<Rightarrow> n)\<rparr>"

definition claimable :: "uuid \<Rightarrow> uuid \<Rightarrow> DocumentStatus \<Rightarrow> DocumentRow \<Rightarrow> bool" where
  "claimable target owner expected r \<longleftrightarrow> owned_live target owner r \<and> doc_status r = expected"

definition documents_transition_status_for_user ::
  "unicode \<Rightarrow> ustr \<Rightarrow> ustr \<Rightarrow> DocumentStatus \<Rightarrow> DocumentStatus \<Rightarrow> ustr option \<Rightarrow> int option
   \<Rightarrow> database \<Rightarrow> (exn, bool \<times> database) result" where
  "documents_transition_status_for_user U document_id user_id expected new reason count db =
     scoped U document_id user_id (Inr (False, db)) (\<lambda>target owner.
       bind_result (write_documents
           (update_where (claimable target owner expected) (move_status new reason count (db_now db))
              (db_documents db)) db)
         (\<lambda>db'. Inr (0 < rowcount (claimable target owner expected) (db_documents db), db')))"

definition is_stale :: "int \<Rightarrow> timestamp \<Rightarrow> DocumentRow \<Rightarrow> bool" where
  "is_stale seconds now r \<longleftrightarrow> doc_status r = DocumentStatus.PROCESSING \<and> is_live r
     \<and> doc_updated_at r < now - 1000000 * seconds"

definition documents_fail_stale_processing ::
  "int \<Rightarrow> ustr \<Rightarrow> database \<Rightarrow> (exn, ustr list \<times> database) result" where
  "documents_fail_stale_processing seconds reason db =
     bind_result (write_documents
         (update_where (is_stale seconds (db_now db))
            (move_status DocumentStatus.FAILED (Some reason) None (db_now db)) (db_documents db)) db)
       (\<lambda>db'. Inr (map (\<lambda>r. uuid_str (doc_id r)) (select_where (is_stale seconds (db_now db)) (db_documents db)), db'))"

definition documents_list_for_recovery ::
  "DocumentStatus list \<Rightarrow> nat \<Rightarrow> database \<Rightarrow> (exn, IngestionTarget list) result" where
  "documents_list_for_recovery statuses limit db =
     (if DocumentStatus.PROCESSING \<in> set statuses then Inl ValueError
      else Inr (map ingestion_target (take limit
        (sort_key doc_updated_at (sort_key (\<lambda>r. uint (doc_id r))
          (select_where (\<lambda>r. doc_status r \<in> set statuses \<and> is_live r \<and> doc_storage_key r \<noteq> None
             \<and> doc_content_hash r \<noteq> None \<and> doc_mime_type r \<noteq> None) (db_documents db)))))))"

lemmas document_repo_defs [repo_defs] =
  documents_create_def documents_get_for_user_def documents_find_live_by_content_hash_for_user_def
  documents_list_for_user_def documents_soft_delete_for_user_def
  documents_get_ingestion_target_for_user_def documents_live_document_exists_def
  documents_transition_status_for_user_def documents_fail_stale_processing_def
  documents_list_for_recovery_def

section \<open>Updates keep the constraints\<close>

lemma content_index_Nil [simp]: "content_index [] = []"
  by (simp add: content_index_def)

lemma content_index_Cons:
  "content_index (r # rows) =
     (if is_live r \<and> doc_content_hash r \<noteq> None then [(doc_user_id r, doc_content_hash r)] else [])
     @ content_index rows"
  by (simp add: content_index_def)

text \<open>An update that keeps owner and hash and revives no row leaves a part of the index.\<close>

lemma content_index_update:
  assumes "\<And>r. r \<in> set rows \<Longrightarrow> p r \<Longrightarrow> doc_user_id (f r) = doc_user_id r \<and>
      doc_content_hash (f r) = doc_content_hash r \<and> (is_live (f r) \<longrightarrow> is_live r)"
    and "distinct (content_index rows)"
  shows "distinct (content_index (update_where p f rows)) \<and>
    set (content_index (update_where p f rows)) \<subseteq> set (content_index rows)"
  using assms
proof (induction rows)
  case (Cons r rows)
  have "distinct (content_index (update_where p f rows)) \<and>
    set (content_index (update_where p f rows)) \<subseteq> set (content_index rows)"
    using Cons by (simp add: content_index_Cons split: if_splits)
  with Cons.prems(1) [of r] Cons.prems(2) show ?case
    by (auto simp: update_where_def content_index_Cons split: if_splits)
qed (simp add: update_where_def)

lemma documents_error_None:
  "documents_error users docs = None \<longleftrightarrow>
     (\<forall>r \<in> set docs. document_fits r \<and> 0 \<le> doc_chunk_count r \<and> opt_ok (\<lambda>n. 0 < n) (doc_size_bytes r)
        \<and> opt_ok (\<lambda>n. 0 < n) (doc_page_count r) \<and> reason_iff_failed r \<and> doc_user_id r \<in> usr_id ` set users)
     \<and> distinct (map doc_id docs) \<and> distinct (content_index docs)"
  by (auto simp: documents_error_def list_all_iff)

definition row_kept :: "DocumentRow \<Rightarrow> DocumentRow \<Rightarrow> bool" where
  "row_kept r r' \<longleftrightarrow> doc_id r' = doc_id r \<and> doc_user_id r' = doc_user_id r
     \<and> doc_content_hash r' = doc_content_hash r \<and> (is_live r' \<longrightarrow> is_live r)"

lemma documents_error_update:
  assumes "documents_error users rows = None"
    and "\<And>r. r \<in> set rows \<Longrightarrow> p r \<Longrightarrow> row_kept r (f r) \<and> document_fits (f r) \<and> 0 \<le> doc_chunk_count (f r)
      \<and> opt_ok (\<lambda>n. 0 < n) (doc_size_bytes (f r)) \<and> opt_ok (\<lambda>n. 0 < n) (doc_page_count (f r))
      \<and> reason_iff_failed (f r)"
  shows "documents_error users (update_where p f rows) = None"
proof -
  have "map doc_id (update_where p f rows) = map doc_id rows"
    using assms(2) by (auto simp: update_where_def row_kept_def)
  moreover have "distinct (content_index (update_where p f rows))"
    using content_index_update [of rows p f] assms by (auto simp: documents_error_None row_kept_def)
  ultimately show ?thesis
    using assms unfolding documents_error_None
    by (auto simp: set_update_where row_kept_def)
qed

lemma doc_ids_update:
  "(\<And>r. r \<in> set rows \<Longrightarrow> p r \<Longrightarrow> doc_id (f r) = doc_id r) \<Longrightarrow>
     map doc_id (update_where p f rows) = map doc_id rows"
  by (auto simp: update_where_def)

lemma children_error_ids:
  assumes "set (map doc_id docs) \<subseteq> set (map doc_id docs')"
  shows "pages_error docs pages = None \<Longrightarrow> pages_error docs' pages = None"
    and "chunks_error docs chunks = None \<Longrightarrow> chunks_error docs' chunks = None"
  using assms by (auto simp: pages_error_def chunks_error_def list_all_iff)

lemma wf_db_write_documents:
  assumes "wf_db db" and "write_documents rows db = Inr db'"
    and "set (map doc_id (db_documents db)) \<subseteq> set (map doc_id rows)"
  shows "wf_db db'"
  using assms children_error_ids [OF assms(3)] by (auto simp: wf_db_def)

section \<open>The compare-and-set\<close>

lemma move_status_simps [simp]:
  "doc_id (move_status s e n t r) = doc_id r" "doc_user_id (move_status s e n t r) = doc_user_id r"
  "doc_status (move_status s e n t r) = s" "doc_failure_reason (move_status s e n t r) = e"
  "doc_updated_at (move_status s e n t r) = t" "doc_deleted_at (move_status s e n t r) = doc_deleted_at r"
  "doc_content_hash (move_status s e n t r) = doc_content_hash r"
  "doc_storage_key (move_status s e n t r) = doc_storage_key r"
  "doc_mime_type (move_status s e n t r) = doc_mime_type r"
  "doc_page_count (move_status s e n t r) = doc_page_count r"
  "doc_chunk_count (move_status s e n t r) = (case n of None \<Rightarrow> doc_chunk_count r | Some k \<Rightarrow> k)"
  "doc_size_bytes (move_status s e n t r) = doc_size_bytes r"
  "doc_filename (move_status s e n t r) = doc_filename r"
  "is_live (move_status s e n t r) = is_live r"
  by (simp_all add: move_status_def is_live_def)

lemma owned_live_move [simp]: "owned_live t ow (move_status s e n now r) = owned_live t ow r"
  by (simp add: owned_live_def)

text \<open>The one row a statement scoped by id can match.\<close>

lemma transition_cases:
  assumes "documents_transition_status_for_user U d u expected new reason cnt db = Inr (moved, db')"
    and "wf_db db"
  obtains (missed) "\<not> moved" "db' = db"
      "\<And>t ow r. parse_text U d = Some t \<Longrightarrow> parse_text U u = Some ow \<Longrightarrow> r \<in> set (db_documents db) \<Longrightarrow>
         \<not> claimable t ow expected r"
  | (moved) t ow r where "moved" "parse_text U d = Some t" "parse_text U u = Some ow"
      "r \<in> set (db_documents db)" "claimable t ow expected r"
      "db' = db\<lparr>db_documents := update_where (\<lambda>x. doc_id x = t) (move_status new reason cnt (db_now db)) (db_documents db)\<rparr>"
proof (cases rule: scoped_cases [of U d u])
  case malformed
  with assms missed show ?thesis by (auto simp: documents_transition_status_for_user_def scoped_none)
next
  case (parsed t ow)
  let ?p = "claimable t ow expected"
  let ?f = "move_status new reason cnt (db_now db)"
  have m: "moved \<longleftrightarrow> (\<exists>r \<in> set (db_documents db). ?p r)"
    and db': "db' = db\<lparr>db_documents := update_where ?p ?f (db_documents db)\<rparr>"
    using assms(1) parsed by (auto simp: documents_transition_status_for_user_def scoped_eq)
  show ?thesis
  proof (cases "\<exists>r \<in> set (db_documents db). ?p r")
    case False
    then have "update_where ?p ?f (db_documents db) = db_documents db" by (simp add: update_where_none)
    with False m db' parsed show ?thesis by (intro missed) auto
  next
    case True
    then obtain r where r: "r \<in> set (db_documents db)" "?p r" by blast
    then have "?p x \<longleftrightarrow> doc_id x = t" if "x \<in> set (db_documents db)" for x
      using wf_db_document_eq [OF assms(2) that r(1)] by (auto simp: claimable_def owned_live_def)
    then have "update_where ?p ?f (db_documents db) = update_where (\<lambda>x. doc_id x = t) ?f (db_documents db)"
      by (simp add: update_where_def)
    with m True db' parsed r moved show ?thesis by simp
  qed
qed

text \<open>A transition that names a reason exactly when it fails a document is never refused.\<close>

lemma transition_accepted:
  assumes "wf_db db" and "new = DocumentStatus.FAILED \<longleftrightarrow> reason \<noteq> None"
    and "opt_ok (varchar_fits 64) reason" and "opt_ok (\<lambda>n. 0 \<le> n \<and> int4_fits n) cnt"
  shows "\<exists>moved db'. documents_transition_status_for_user U d u expected new reason cnt db = Inr (moved, db')
    \<and> wf_db db'"
proof (cases rule: scoped_cases [of U d u])
  case malformed
  with assms(1) show ?thesis by (auto simp: documents_transition_status_for_user_def scoped_none)
next
  case (parsed t ow)
  let ?rows = "update_where (claimable t ow expected) (move_status new reason cnt (db_now db)) (db_documents db)"
  have "documents_error (db_users db) ?rows = None"
  proof (rule documents_error_update)
    fix r assume "r \<in> set (db_documents db)" "claimable t ow expected r"
    with assms show "row_kept r (move_status new reason cnt (db_now db) r) \<and>
        document_fits (move_status new reason cnt (db_now db) r) \<and>
        0 \<le> doc_chunk_count (move_status new reason cnt (db_now db) r) \<and>
        opt_ok (\<lambda>n. 0 < n) (doc_size_bytes (move_status new reason cnt (db_now db) r)) \<and>
        opt_ok (\<lambda>n. 0 < n) (doc_page_count (move_status new reason cnt (db_now db) r)) \<and>
        reason_iff_failed (move_status new reason cnt (db_now db) r)"
      by (auto simp: wf_db_def documents_error_None row_kept_def document_fits_def reason_iff_failed_def
          split: option.splits)
  qed (use assms(1) in \<open>simp add: wf_db_def\<close>)
  then have w: "write_documents ?rows db = Inr (db\<lparr>db_documents := ?rows\<rparr>)" by simp
  moreover have "wf_db (db\<lparr>db_documents := ?rows\<rparr>)"
    using wf_db_write_documents [OF assms(1) w] doc_ids_update [of "db_documents db"] by simp
  ultimately show ?thesis
    using parsed by (simp add: documents_transition_status_for_user_def scoped_eq)
qed

lemma reason_value_fits [simp]: "varchar_fits 64 (py_str (reason_value r))"
  by (cases r) (simp_all add: varchar_fits_def text_fits_def is_surrogate_def)

end
