(* ===== verification/ChunkRepository.thy ===== *)
theory ChunkRepository
  imports DocumentRepository
begin

text \<open>
  \<open>backend/db/repositories/document_page.py\<close> and \<open>document_chunk.py\<close>. Pages and chunks have no
  owner of their own: every statement reaches ownership through the documents table. An inner join
  with \<open>documents\<close> is on its primary key, so it selects the rows whose document passes the test.
\<close>

definition owned_by :: "DocumentRow list \<Rightarrow> uuid \<Rightarrow> uuid \<Rightarrow> bool" where
  "owned_by docs owner d \<longleftrightarrow> list_ex (owned_live d owner) docs"

lemma owned_by_iff: "owned_by docs owner d \<longleftrightarrow> (\<exists>r \<in> set docs. owned_live d owner r)"
  by (simp add: owned_by_def list_ex_iff)

section \<open>Pages\<close>

definition new_page_row :: "uuid \<Rightarrow> timestamp \<Rightarrow> ExtractedPage \<Rightarrow> PageRow" where
  "new_page_row owned now page =
     \<lparr>pg_document_id = owned, pg_page_number = ep_page_number page, pg_blocks = ep_blocks page,
      pg_created_at = now\<rparr>"

definition owned_document_id ::
  "unicode \<Rightarrow> ustr \<Rightarrow> ustr \<Rightarrow> database \<Rightarrow> (exn, uuid option) result" where
  "owned_document_id U document_id user_id db =
     scoped U document_id user_id (Inr None) (\<lambda>target owner.
       bind_result (one_or_none (select_where (owned_live target owner) (db_documents db)))
         (\<lambda>row. Inr (map_option doc_id row)))"

definition pages_add_for_user ::
  "unicode \<Rightarrow> ustr \<Rightarrow> ustr \<Rightarrow> ExtractedPage list \<Rightarrow> database \<Rightarrow> (exn, database) result" where
  "pages_add_for_user U document_id user_id pages db =
     bind_result (owned_document_id U document_id user_id db) (\<lambda>owned.
       case owned of
         None \<Rightarrow> Inl LookupError
       | Some d \<Rightarrow> write_pages (db_pages db @ map (new_page_row d (db_now db)) pages) db)"

text \<open>Reading validates again: a block or a page the models refuse raises.\<close>

definition load_page :: "PageRow \<Rightarrow> (exn, ExtractedPage) result" where
  "load_page r =
     bind_result (map_result (\<lambda>b. mk_text_block (tb_text b) (tb_font_size b)) (pg_blocks r))
       (\<lambda>blocks. mk_page (pg_page_number r) blocks)"

lemma load_page_typed:
  assumes "wf_page \<lparr>ep_page_number = pg_page_number r, ep_blocks = pg_blocks r\<rparr>"
  shows "load_page r = Inr \<lparr>ep_page_number = pg_page_number r, ep_blocks = pg_blocks r\<rparr>"
proof -
  have "map_result (\<lambda>b. mk_text_block (tb_text b) (tb_font_size b)) (pg_blocks r) = Inr (map (\<lambda>b. b) (pg_blocks r))"
    by (rule map_result_total) (use assms in \<open>auto simp: wf_page_def wf_text_block_def list_all_iff mk_text_block_def\<close>)
  with assms show ?thesis by (simp add: load_page_def mk_page_def wf_page_def)
qed

definition pages_list_for_document ::
  "unicode \<Rightarrow> ustr \<Rightarrow> ustr \<Rightarrow> database \<Rightarrow> (exn, ExtractedPage list) result" where
  "pages_list_for_document U document_id user_id db =
     scoped U document_id user_id (Inr []) (\<lambda>target owner.
       map_result load_page (sort_key pg_page_number
         (select_where (\<lambda>g. pg_document_id g = target \<and> owned_by (db_documents db) owner (pg_document_id g))
            (db_pages db))))"

section \<open>Chunks\<close>

definition chunk_to_domain :: "ChunkRow \<Rightarrow> DocumentChunk" where
  "chunk_to_domain r =
     \<lparr>dc_id = uuid_str (chk_id r), dc_document_id = uuid_str (chk_document_id r),
      dc_content = chk_content r, dc_chunk_index = chk_chunk_index r, dc_section = chk_section r,
      dc_page_start = Some (chk_page_start r), dc_page_end = Some (chk_page_end r)\<rparr>"

definition new_chunk_row ::
  "(uuid \<Rightarrow> ustr \<Rightarrow> uuid) \<Rightarrow> uuid \<Rightarrow> ustr \<Rightarrow> ustr \<Rightarrow> timestamp \<Rightarrow> Chunk \<Rightarrow> ChunkRow" where
  "new_chunk_row uuid5 owned strategy tokenizer now chunk =
     \<lparr>chk_id = chunk_id_for uuid5 (uuid_str owned) (c_chunk_index chunk) strategy tokenizer,
      chk_document_id = owned, chk_chunk_index = c_chunk_index chunk, chk_content = c_content chunk,
      chk_section = c_section chunk, chk_page_start = c_page_start chunk,
      chk_page_end = c_page_end chunk, chk_token_count = c_token_count chunk,
      chk_strategy_version = strategy, chk_tokenizer_id = tokenizer,
      chk_embedding_model_id = None, chk_dimension = None, chk_created_at = now\<rparr>"

definition chunks_add_many ::
  "unicode \<Rightarrow> (uuid \<Rightarrow> ustr \<Rightarrow> uuid) \<Rightarrow> ustr \<Rightarrow> ustr \<Rightarrow> ChunkingResult \<Rightarrow> database
   \<Rightarrow> (exn, DocumentChunk list \<times> database) result" where
  "chunks_add_many U uuid5 document_id user_id chunking db =
     bind_result (owned_document_id U document_id user_id db) (\<lambda>owned.
       case owned of
         None \<Rightarrow> Inl LookupError
       | Some d \<Rightarrow>
           let rows = map (new_chunk_row uuid5 d (cr_strategy_version chunking)
                        (cr_tokenizer_id chunking) (db_now db)) (cr_chunks chunking) in
           bind_result (write_chunks (db_chunks db @ rows) db)
             (\<lambda>db'. Inr (map chunk_to_domain rows, db')))"

definition chunks_get_for_user ::
  "unicode \<Rightarrow> ustr \<Rightarrow> ustr \<Rightarrow> database \<Rightarrow> (exn, DocumentChunk option) result" where
  "chunks_get_for_user U chunk_id user_id db =
     scoped U chunk_id user_id (Inr None) (\<lambda>target owner.
       bind_result (one_or_none (select_where
           (\<lambda>c. chk_id c = target \<and> owned_by (db_documents db) owner (chk_document_id c)) (db_chunks db)))
         (\<lambda>row. Inr (map_option chunk_to_domain row)))"

definition document_chunk_rows :: "uuid \<Rightarrow> uuid \<Rightarrow> database \<Rightarrow> ChunkRow list" where
  "document_chunk_rows target owner db = select_where
     (\<lambda>c. chk_document_id c = target \<and> owned_by (db_documents db) owner (chk_document_id c)) (db_chunks db)"

definition chunks_list_for_document :: "unicode \<Rightarrow> ustr \<Rightarrow> ustr \<Rightarrow> database \<Rightarrow> DocumentChunk list" where
  "chunks_list_for_document U document_id user_id db =
     scoped U document_id user_id [] (\<lambda>target owner.
       map chunk_to_domain (sort_key chk_chunk_index (document_chunk_rows target owner db)))"

definition chunks_provenance_for_document ::
  "unicode \<Rightarrow> ustr \<Rightarrow> ustr \<Rightarrow> database \<Rightarrow> (ustr \<times> ustr) set" where
  "chunks_provenance_for_document U document_id user_id db =
     scoped U document_id user_id {} (\<lambda>target owner.
       set (map (\<lambda>c. (chk_strategy_version c, chk_tokenizer_id c)) (document_chunk_rows target owner db)))"

text \<open>
  \<open>document_id = (SELECT id ...)\<close>: the scalar subquery is NULL, which equals nothing, unless the
  document is live and this owner's.
\<close>

definition of_owned_document :: "database \<Rightarrow> uuid \<Rightarrow> uuid \<Rightarrow> ChunkRow \<Rightarrow> bool" where
  "of_owned_document db target owner c \<longleftrightarrow>
     owned_by (db_documents db) owner target \<and> chk_document_id c = target"

definition chunks_delete_for_document ::
  "unicode \<Rightarrow> ustr \<Rightarrow> ustr \<Rightarrow> database \<Rightarrow> (exn, nat \<times> database) result" where
  "chunks_delete_for_document U document_id user_id db =
     scoped U document_id user_id (Inr (0, db)) (\<lambda>target owner.
       bind_result (write_chunks (delete_where (of_owned_document db target owner) (db_chunks db)) db)
         (\<lambda>db'. Inr (rowcount (of_owned_document db target owner) (db_chunks db), db')))"

definition set_embedded :: "ustr \<Rightarrow> int \<Rightarrow> ChunkRow \<Rightarrow> ChunkRow" where
  "set_embedded model width c = c\<lparr>chk_embedding_model_id := Some model, chk_dimension := Some width\<rparr>"

definition chunks_mark_embedded ::
  "unicode \<Rightarrow> ustr \<Rightarrow> ustr \<Rightarrow> ustr \<Rightarrow> int \<Rightarrow> database \<Rightarrow> (exn, nat \<times> database) result" where
  "chunks_mark_embedded U document_id user_id model width db =
     scoped U document_id user_id (Inr (0, db)) (\<lambda>target owner.
       bind_result (write_chunks (update_where (of_owned_document db target owner)
           (set_embedded model width) (db_chunks db)) db)
         (\<lambda>db'. Inr (rowcount (of_owned_document db target owner) (db_chunks db), db')))"

section \<open>Re-validation of retrieval candidates\<close>

definition retrievable :: "database \<Rightarrow> uuid \<Rightarrow> ustr \<Rightarrow> int \<Rightarrow> ChunkRow \<Rightarrow> bool" where
  "retrievable db owner model width c \<longleftrightarrow>
     list_ex (\<lambda>r. owned_live (chk_document_id c) owner r \<and> doc_status r = DocumentStatus.READY) (db_documents db)
     \<and> chk_embedding_model_id c = Some model \<and> chk_dimension c = Some width"

definition validated_chunk :: "ustr \<Rightarrow> ChunkRow \<Rightarrow> ValidatedChunk" where
  "validated_chunk model c =
     \<lparr>vc_chunk_id = uuid_str (chk_id c), vc_document_id = uuid_str (chk_document_id c),
      vc_content = chk_content c, vc_chunk_index = chk_chunk_index c, vc_section = chk_section c,
      vc_page_start = chk_page_start c, vc_page_end = chk_page_end c, vc_embedding_model_id = model\<rparr>"

definition chunks_validate_for_retrieval ::
  "unicode \<Rightarrow> ustr list \<Rightarrow> ustr \<Rightarrow> ustr \<Rightarrow> int \<Rightarrow> database \<Rightarrow> (ustr \<rightharpoonup> ValidatedChunk)" where
  "chunks_validate_for_retrieval U chunk_ids user_id model width db =
     (let targets = List.map_filter (\<lambda>c. parse_text U c) chunk_ids in
      case (targets, parse_text U user_id) of
        ([], _) \<Rightarrow> Map.empty
      | (_, None) \<Rightarrow> Map.empty
      | (_, Some owner) \<Rightarrow>
          map_of (map (\<lambda>c. (uuid_str (chk_id c), validated_chunk model c))
            (select_where (\<lambda>c. chk_id c \<in> set targets \<and> retrievable db owner model width c) (db_chunks db))))"

lemmas chunk_repo_defs [repo_defs] =
  owned_document_id_def pages_add_for_user_def pages_list_for_document_def chunks_add_many_def
  chunks_get_for_user_def chunks_list_for_document_def chunks_provenance_for_document_def
  chunks_delete_for_document_def chunks_mark_embedded_def chunks_validate_for_retrieval_def

section \<open>A document and its children\<close>

text \<open>
  What the pipeline's guarantees are about, for one document id: owner, status and counter of its
  row, its pages, its chunks.
\<close>

definition doc_view :: "database \<Rightarrow> uuid \<Rightarrow> (uuid \<times> DocumentStatus \<times> int) list" where
  "doc_view db d = map (\<lambda>r. (doc_user_id r, doc_status r, doc_chunk_count r))
     (filter (\<lambda>r. doc_id r = d) (db_documents db))"

definition pages_of :: "database \<Rightarrow> uuid \<Rightarrow> PageRow list" where
  "pages_of db d = filter (\<lambda>g. pg_document_id g = d) (db_pages db)"

definition chunks_of :: "database \<Rightarrow> uuid \<Rightarrow> ChunkRow list" where
  "chunks_of db d = filter (\<lambda>c. chk_document_id c = d) (db_chunks db)"

lemma views_other_tables [simp]:
  "doc_view (db\<lparr>db_pages := ps\<rparr>) = doc_view db" "doc_view (db\<lparr>db_chunks := cs\<rparr>) = doc_view db"
  "pages_of (db\<lparr>db_documents := ds\<rparr>) = pages_of db" "pages_of (db\<lparr>db_chunks := cs\<rparr>) = pages_of db"
  "chunks_of (db\<lparr>db_documents := ds\<rparr>) = chunks_of db" "chunks_of (db\<lparr>db_pages := ps\<rparr>) = chunks_of db"
  by (simp_all add: doc_view_def pages_of_def chunks_of_def fun_eq_iff)

lemma doc_view_row:
  assumes "wf_db db" and "r \<in> set (db_documents db)"
  shows "doc_view db (doc_id r) = [(doc_user_id r, doc_status r, doc_chunk_count r)]"
  using filter_unique_key [where key = doc_id, OF wf_db_keys(1) [OF assms(1)] assms(2), of "\<lambda>x. doc_id x = doc_id r"]
  by (simp add: doc_view_def)

lemma doc_view_cases:
  assumes "wf_db db"
  obtains (absent) "doc_view db d = []" "\<forall>r \<in> set (db_documents db). doc_id r \<noteq> d"
  | (row) r where "r \<in> set (db_documents db)" "doc_id r = d"
      "doc_view db d = [(doc_user_id r, doc_status r, doc_chunk_count r)]"
proof (cases "\<exists>r \<in> set (db_documents db). doc_id r = d")
  case True
  then show ?thesis using row doc_view_row [OF assms] by metis
next
  case False
  then have "doc_view db d = []" by (auto simp: doc_view_def filter_empty_conv)
  with False absent show ?thesis by blast
qed

lemma absent_children:
  assumes "wf_db db" and "doc_view db d = []"
  shows "pages_of db d = []" and "chunks_of db d = []"
  using wf_db_references(1,2) [OF assms(1)] assms(2)
  by (force simp: doc_view_def pages_of_def chunks_of_def filter_empty_conv)+

lemma owned_by_view: "wf_db db \<Longrightarrow> owned_by (db_documents db) u d \<Longrightarrow> \<exists>st n. doc_view db d = [(u, st, n)]"
  using doc_view_row by (auto simp: owned_by_iff owned_live_def)

section \<open>What the statements do to a document and its children\<close>

lemma doc_view_update_id:
  assumes "\<And>r. doc_id (f r) = doc_id r"
  shows "doc_view (db\<lparr>db_documents := update_where (\<lambda>x. doc_id x = t) f (db_documents db)\<rparr>) d =
    (if d = t then map (\<lambda>r. (doc_user_id (f r), doc_status (f r), doc_chunk_count (f r)))
        (filter (\<lambda>r. doc_id r = d) (db_documents db))
     else doc_view db d)"
proof -
  have "filter (\<lambda>r. doc_id r = d) (update_where (\<lambda>x. doc_id x = t) f rows) =
      (if d = t then map f (filter (\<lambda>r. doc_id r = d) rows) else filter (\<lambda>r. doc_id r = d) rows)" for rows
    using assms by (induction rows) (auto simp: update_where_def)
  then show ?thesis by (simp add: doc_view_def comp_def)
qed

lemma transition_views:
  assumes "documents_transition_status_for_user U ds us e new reason cnt db = Inr (moved, db')"
    and "wf_db db" and "parse_text U ds = Some d" and "parse_text U us = Some u"
  shows "wf_db db' \<and> pages_of db' = pages_of db \<and> chunks_of db' = chunks_of db \<and>
    (\<forall>d'. d' \<noteq> d \<longrightarrow> doc_view db' d' = doc_view db d') \<and>
    (if moved then owned_by (db_documents db') u d \<and>
       (\<exists>n. doc_view db d = [(u, e, n)] \<and> doc_view db' d = [(u, new, case cnt of None \<Rightarrow> n | Some k \<Rightarrow> k)])
     else db' = db)"
  using assms(1,2)
proof (cases rule: transition_cases)
  case missed
  with assms(2) show ?thesis by simp
next
  case (moved t ow r)
  with assms(3,4) have eq: "t = d" "ow = u" by simp_all
  note r = moved(4,5) [unfolded eq] and db' = moved(6) [unfolded eq]
  have id: "doc_id r = d" and own: "doc_user_id r = u" and st: "doc_status r = e" and live: "is_live r"
    using r(2) by (auto simp: claimable_def owned_live_def)
  let ?f = "move_status new reason cnt (db_now db)"
  let ?rows = "update_where (\<lambda>x. doc_id x = d) ?f (db_documents db)"
  from doc_view_row [OF assms(2) r(1)] have "filter (\<lambda>x. doc_id x = d) (db_documents db) = [r]"
    using filter_unique_key [where key = doc_id, OF wf_db_keys(1) [OF assms(2)] r(1), of "\<lambda>x. doc_id x = d"] id
    by simp
  then have vd: "doc_view db d = [(u, e, doc_chunk_count r)]"
    "doc_view db' d = [(u, new, case cnt of None \<Rightarrow> doc_chunk_count r | Some k \<Rightarrow> k)]"
    using doc_view_update_id [where f = ?f and db = db and t = d and d = d] own st by (simp_all add: db' doc_view_def split: option.split)
  have "write_documents ?rows db = Inr db'"
  proof -
    have "update_where (claimable d u e) ?f (db_documents db) = ?rows"
    proof -
      have "claimable d u e x \<longleftrightarrow> doc_id x = d" if "x \<in> set (db_documents db)" for x
        using wf_db_document_eq [OF assms(2) that r(1)] r(2) id by (auto simp: claimable_def owned_live_def)
      then show ?thesis by (simp add: update_where_def)
    qed
    then show ?thesis
      using assms(1,3,4) by (auto simp: documents_transition_status_for_user_def scoped_eq)
  qed
  then have wf: "wf_db db'"
    using wf_db_write_documents [OF assms(2), of ?rows db'] doc_ids_update [of "db_documents db"] by simp
  have "?f r \<in> set ?rows" using r(1) id by auto
  then have "owned_by (db_documents db') u d"
    using id own live by (auto simp: db' owned_by_iff owned_live_def intro!: bexI [of _ "?f r"])
  with vd wf moved(1) show ?thesis
    using doc_view_update_id [where f = ?f and db = db and t = d] by (auto simp: db' pages_of_def chunks_of_def fun_eq_iff)
qed

lemma transition_unparsed:
  "parse_text U ds = None \<or> parse_text U us = None \<Longrightarrow>
     documents_transition_status_for_user U ds us e new reason cnt db = Inr (False, db)"
  by (simp add: documents_transition_status_for_user_def scoped_none)

lemma owned_document_id_eq:
  assumes "wf_db db" and "parse_text U ds = Some d" and "parse_text U us = Some u"
  shows "owned_document_id U ds us db = Inr (if owned_by (db_documents db) u d then Some d else None)"
  using wf_db_document_unique [OF assms(1), of "owned_live d u" d] assms(2,3)
  by (auto simp: owned_document_id_def scoped_eq owned_by_iff owned_live_def select_where_def filter_empty_conv)

lemma pages_add_views:
  assumes "pages_add_for_user U ds us pages db = Inr db'" and "wf_db db"
    and "parse_text U ds = Some d" and "parse_text U us = Some u"
  shows "wf_db db' \<and> doc_view db' = doc_view db \<and> chunks_of db' = chunks_of db \<and>
    (\<forall>d'. d' \<noteq> d \<longrightarrow> pages_of db' d' = pages_of db d') \<and>
    pages_of db' d = pages_of db d @ map (new_page_row d (db_now db)) pages"
proof -
  have w: "write_pages (db_pages db @ map (new_page_row d (db_now db)) pages) db = Inr db'"
    using assms(1) owned_document_id_eq [OF assms(2-4)]
    by (auto simp: pages_add_for_user_def split: if_splits)
  then have db': "db' = db\<lparr>db_pages := db_pages db @ map (new_page_row d (db_now db)) pages\<rparr>" by simp
  moreover have "wf_db db'" using assms(2) w by (auto simp: wf_db_def)
  moreover have "filter (\<lambda>g. pg_document_id g = d') (map (new_page_row d now) ps) =
      (if d' = d then map (new_page_row d now) ps else [])" for d' now ps
    by (induction ps) (auto simp: new_page_row_def)
  ultimately show ?thesis by (simp add: pages_of_def fun_eq_iff)
qed

lemma chunks_add_views:
  assumes "chunks_add_many U h ds us chunking db = Inr (cs, db')" and "wf_db db"
    and "parse_text U ds = Some d" and "parse_text U us = Some u"
  shows "wf_db db' \<and> doc_view db' = doc_view db \<and> pages_of db' = pages_of db \<and>
    (\<forall>d'. d' \<noteq> d \<longrightarrow> chunks_of db' d' = chunks_of db d') \<and>
    chunks_of db' d = chunks_of db d @
      map (new_chunk_row h d (cr_strategy_version chunking) (cr_tokenizer_id chunking) (db_now db)) (cr_chunks chunking)"
proof -
  let ?new = "map (new_chunk_row h d (cr_strategy_version chunking) (cr_tokenizer_id chunking) (db_now db)) (cr_chunks chunking)"
  have w: "write_chunks (db_chunks db @ ?new) db = Inr db'"
    using assms(1) owned_document_id_eq [OF assms(2-4)]
    by (auto simp: chunks_add_many_def Let_def split: if_splits)
  then have db': "db' = db\<lparr>db_chunks := db_chunks db @ ?new\<rparr>" by simp
  moreover have "wf_db db'" using assms(2) w by (auto simp: wf_db_def)
  moreover have "filter (\<lambda>c. chk_document_id c = d') (map (new_chunk_row h d s k now) xs) =
      (if d' = d then map (new_chunk_row h d s k now) xs else [])" for d' s k now xs
    by (induction xs) (auto simp: new_chunk_row_def)
  ultimately show ?thesis by (simp add: chunks_of_def fun_eq_iff)
qed

lemma chunks_delete_views:
  assumes "chunks_delete_for_document U ds us db = Inr (n, db')" and "wf_db db"
    and "parse_text U ds = Some d" and "parse_text U us = Some u"
    and "owned_by (db_documents db) u d"
  shows "wf_db db' \<and> doc_view db' = doc_view db \<and> pages_of db' = pages_of db \<and>
    db_documents db' = db_documents db \<and>
    (\<forall>d'. d' \<noteq> d \<longrightarrow> chunks_of db' d' = chunks_of db d') \<and> chunks_of db' d = []"
proof -
  have w: "write_chunks (delete_where (of_owned_document db d u) (db_chunks db)) db = Inr db'"
    using assms(1,3,4) by (auto simp: chunks_delete_for_document_def scoped_eq)
  then have db': "db' = db\<lparr>db_chunks := delete_where (of_owned_document db d u) (db_chunks db)\<rparr>" by simp
  moreover have "wf_db db'" using assms(2) w by (auto simp: wf_db_def)
  moreover have "filter (\<lambda>c. chk_document_id c = d') (delete_where (of_owned_document db d u) xs) =
      (if d' = d then [] else filter (\<lambda>c. chk_document_id c = d') xs)" for d' xs
    using assms(5) by (induction xs) (auto simp: delete_where_def of_owned_document_def)
  ultimately show ?thesis by (simp add: chunks_of_def fun_eq_iff)
qed

lemma filter_set_embedded:
  assumes "owned_by (db_documents db) u d"
  shows "filter (\<lambda>c. chk_document_id c = d') (update_where (of_owned_document db d u) (set_embedded m k) xs) =
      (if d' = d then map (set_embedded m k) (filter (\<lambda>c. chk_document_id c = d) xs)
       else filter (\<lambda>c. chk_document_id c = d') xs)"
proof -
  have p: "of_owned_document db d u c \<longleftrightarrow> chk_document_id c = d" for c
    using assms by (simp add: of_owned_document_def)
  have e: "chk_document_id (set_embedded m k c) = chk_document_id c" for c
    by (simp add: set_embedded_def)
  show ?thesis
    by (cases "d' = d"; induction xs) (simp_all add: update_where_def p e)
qed

lemma mark_embedded_views:
  assumes "chunks_mark_embedded U ds us model width db = Inr (n, db')" and "wf_db db"
    and "parse_text U ds = Some d" and "parse_text U us = Some u"
    and "owned_by (db_documents db) u d"
  shows "wf_db db' \<and> doc_view db' = doc_view db \<and> pages_of db' = pages_of db \<and>
    (\<forall>d'. d' \<noteq> d \<longrightarrow> chunks_of db' d' = chunks_of db d') \<and>
    chunks_of db' d = map (set_embedded model width) (chunks_of db d)"
proof -
  let ?rows = "update_where (of_owned_document db d u) (set_embedded model width) (db_chunks db)"
  have w: "write_chunks ?rows db = Inr db'"
    using assms(1,3,4) by (auto simp: chunks_mark_embedded_def scoped_eq)
  then have db': "db' = db\<lparr>db_chunks := ?rows\<rparr>" by simp
  moreover have "wf_db db'" using assms(2) w by (auto simp: wf_db_def)
  ultimately show ?thesis by (simp add: chunks_of_def fun_eq_iff filter_set_embedded [OF assms(5)])
qed

lemma document_chunk_rows_eq:
  "document_chunk_rows d u db = (if owned_by (db_documents db) u d then chunks_of db d else [])"
  by (cases "owned_by (db_documents db) u d")
    (auto simp: document_chunk_rows_def chunks_of_def select_where_def filter_empty_conv
      intro: filter_cong [OF refl])

text \<open>Soft deletion, creation and the reaper.\<close>

lemma soft_delete_views:
  assumes "documents_soft_delete_for_user U ds us db = Inr (b, db')" and "wf_db db"
  shows "wf_db db' \<and> doc_view db' = doc_view db \<and> pages_of db' = pages_of db \<and> chunks_of db' = chunks_of db"
proof (cases rule: scoped_cases [of U ds us])
  case malformed
  with assms show ?thesis by (auto simp: documents_soft_delete_for_user_def scoped_none)
next
  case (parsed d u)
  let ?f = "\<lambda>r. r\<lparr>doc_deleted_at := Some (db_now db), doc_updated_at := db_now db\<rparr>"
  let ?rows = "update_where (owned_live d u) ?f (db_documents db)"
  have w: "write_documents ?rows db = Inr db'"
    using assms(1) parsed by (auto simp: documents_soft_delete_for_user_def scoped_eq)
  then have db': "db' = db\<lparr>db_documents := ?rows\<rparr>" by simp
  have wf: "wf_db db'"
    using wf_db_write_documents [OF assms(2) w] doc_ids_update [of "db_documents db" _ ?f] by simp
  have view: "map (\<lambda>r. (doc_user_id r, doc_status r, doc_chunk_count r)) (filter (\<lambda>r. doc_id r = d') (update_where p ?f rows))
      = map (\<lambda>r. (doc_user_id r, doc_status r, doc_chunk_count r)) (filter (\<lambda>r. doc_id r = d') rows)" for d' p rows
    by (induction rows) (auto simp: update_where_def)
  have "doc_view db' = doc_view db"
    using view [of _ "owned_live d u" "db_documents db"] by (simp add: db' doc_view_def fun_eq_iff)
  with wf show ?thesis by (simp add: db' pages_of_def chunks_of_def fun_eq_iff)
qed

lemma create_views:
  assumes "documents_create U i us v db = Inr (doc, db')" and "wf_db db"
  shows "wf_db db' \<and> pages_of db' = pages_of db \<and> chunks_of db' = chunks_of db \<and>
    (\<forall>d. d \<noteq> i \<longrightarrow> doc_view db' d = doc_view db d) \<and>
    doc_view db i = [] \<and> (\<exists>u. parse_text U us = Some u \<and> doc_view db' i = [(u, nd_status v, 0)])"
proof -
  obtain u where u: "parse_text U us = Some u"
    and w: "write_documents (db_documents db @ [new_document_row i u v (db_now db)]) db = Inr db'"
    using assms(1) by (auto simp: documents_create_def Let_def split: option.splits)
  then have db': "db' = db\<lparr>db_documents := db_documents db @ [new_document_row i u v (db_now db)]\<rparr>" by simp
  have wf: "wf_db db'" using wf_db_write_documents [OF assms(2) w] by auto
  then have "distinct (map doc_id (db_documents db'))" by (rule wf_db_keys)
  then have "i \<notin> doc_id ` set (db_documents db)" by (simp add: db' new_document_row_def)
  then have fresh: "filter (\<lambda>r. doc_id r = i) (db_documents db) = []" by (auto simp: filter_empty_conv)
  with wf u show ?thesis
    by (auto simp: db' doc_view_def pages_of_def chunks_of_def new_document_row_def fun_eq_iff)
qed

lemma reap_views:
  assumes "documents_fail_stale_processing secs reason db = Inr (ids, db')" and "wf_db db"
  shows "wf_db db' \<and> pages_of db' = pages_of db \<and> chunks_of db' = chunks_of db \<and>
    (\<forall>d. doc_view db' d = doc_view db d \<or>
       (\<exists>u n. doc_view db d = [(u, DocumentStatus.PROCESSING, n)] \<and> doc_view db' d = [(u, DocumentStatus.FAILED, n)]))"
proof -
  let ?p = "is_stale secs (db_now db)"
  let ?f = "move_status DocumentStatus.FAILED (Some reason) None (db_now db)"
  let ?rows = "update_where ?p ?f (db_documents db)"
  have w: "write_documents ?rows db = Inr db'"
    using assms(1) by (auto simp: documents_fail_stale_processing_def)
  then have db': "db' = db\<lparr>db_documents := ?rows\<rparr>" by simp
  have wf: "wf_db db'"
    using wf_db_write_documents [OF assms(2) w] doc_ids_update [of "db_documents db" ?p ?f] by simp
  have "doc_view db' d = doc_view db d \<or>
       (\<exists>u n. doc_view db d = [(u, DocumentStatus.PROCESSING, n)] \<and> doc_view db' d = [(u, DocumentStatus.FAILED, n)])" for d
    using assms(2)
  proof (cases rule: doc_view_cases [where d = d])
    case absent
    then have "doc_view db' d = []" by (auto simp: db' doc_view_def update_where_def filter_empty_conv)
    with absent show ?thesis by simp
  next
    case (row r)
    have "(if ?p r then ?f r else r) \<in> set (db_documents db')" using row(1) by (simp add: db' set_update_where)
    from doc_view_row [OF wf this] row
    have "doc_view db' d = [(doc_user_id r, doc_status (if ?p r then ?f r else r), doc_chunk_count r)]"
      by (cases "?p r") simp_all
    with row(3) show ?thesis by (cases "?p r") (simp_all add: is_stale_def)
  qed
  with wf show ?thesis by (simp add: db')
qed

end
