(* ===== verification/VectorStore.thy ===== *)
theory VectorStore
  imports Domain
begin

text \<open>
  \<open>shared/interfaces/vector_store.py\<close> and its adapter \<open>vector_db/qdrant/repository.py\<close>. The Qdrant
  service is not part of the program: it is the record \<open>qdrant\<close> of the requests the adapter sends,
  over an abstract state \<open>'q\<close>, where \<open>None\<close> is a request that raised. \<open>qdrant_laws\<close> states the
  service's documented behaviour: upsert replaces by point id, delete removes what its filter
  matches, and a query returns stored points that its filter matches, best first.
\<close>

section \<open>Payloads\<close>

record VectorPayload =
  vp_user_id :: ustr
  vp_document_id :: ustr
  vp_chunk_id :: ustr
  vp_chunk_index :: int
  vp_section :: "ustr option"
  vp_page_start :: int
  vp_page_end :: int
  vp_strategy_version :: ustr
  vp_tokenizer_id :: ustr
  vp_embedding_model_id :: ustr
  vp_dimension :: int

type_synonym mapping = "(ustr \<times> json) list"

definition as_mapping :: "VectorPayload \<Rightarrow> mapping" where
  "as_mapping p =
     [(py_str ''user_id'', JStr (vp_user_id p)),
      (py_str ''document_id'', JStr (vp_document_id p)),
      (py_str ''chunk_id'', JStr (vp_chunk_id p)),
      (py_str ''chunk_index'', JInt (vp_chunk_index p)),
      (py_str ''section'', (case vp_section p of None \<Rightarrow> JNull | Some s \<Rightarrow> JStr s)),
      (py_str ''page_start'', JInt (vp_page_start p)),
      (py_str ''page_end'', JInt (vp_page_end p)),
      (py_str ''strategy_version'', JStr (vp_strategy_version p)),
      (py_str ''tokenizer_id'', JStr (vp_tokenizer_id p)),
      (py_str ''embedding_model_id'', JStr (vp_embedding_model_id p)),
      (py_str ''dimension'', JInt (vp_dimension p))]"

definition payload_text :: "mapping \<Rightarrow> ustr \<Rightarrow> (exn, ustr) result" where
  "payload_text payload key =
     (case map_of payload key of
        None \<Rightarrow> Inl KeyError | Some (JStr s) \<Rightarrow> Inr s | Some _ \<Rightarrow> Inl TypeError)"

text \<open>\<open>bool\<close> is a subclass of \<open>int\<close> in Python; the code excludes it, so only \<open>JInt\<close> passes.\<close>

definition payload_whole :: "mapping \<Rightarrow> ustr \<Rightarrow> (exn, int) result" where
  "payload_whole payload key =
     (case map_of payload key of
        None \<Rightarrow> Inl KeyError | Some (JInt i) \<Rightarrow> Inr i | Some _ \<Rightarrow> Inl TypeError)"

definition payload_section :: "mapping \<Rightarrow> (exn, ustr option) result" where
  "payload_section payload =
     (case map_of payload (py_str ''section'') of
        None \<Rightarrow> Inl KeyError
      | Some JNull \<Rightarrow> Inr None
      | Some _ \<Rightarrow> bind_result (payload_text payload (py_str ''section'')) (\<lambda>s. Inr (Some s)))"

text \<open>Whatever is wrong with a stored payload, the caller sees \<open>VectorStoreError\<close>.\<close>

definition from_mapping :: "mapping \<Rightarrow> (exn, VectorPayload) result" where
  "from_mapping m =
     (case
        bind_result (payload_section m) (\<lambda>section.
        bind_result (payload_text m (py_str ''user_id'')) (\<lambda>user.
        bind_result (payload_text m (py_str ''document_id'')) (\<lambda>document.
        bind_result (payload_text m (py_str ''chunk_id'')) (\<lambda>chunk.
        bind_result (payload_whole m (py_str ''chunk_index'')) (\<lambda>index.
        bind_result (payload_whole m (py_str ''page_start'')) (\<lambda>p1.
        bind_result (payload_whole m (py_str ''page_end'')) (\<lambda>p2.
        bind_result (payload_text m (py_str ''strategy_version'')) (\<lambda>strategy.
        bind_result (payload_text m (py_str ''tokenizer_id'')) (\<lambda>tokenizer.
        bind_result (payload_text m (py_str ''embedding_model_id'')) (\<lambda>model.
        bind_result (payload_whole m (py_str ''dimension'')) (\<lambda>width.
          Inr \<lparr>vp_user_id = user, vp_document_id = document, vp_chunk_id = chunk,
               vp_chunk_index = index, vp_section = section, vp_page_start = p1, vp_page_end = p2,
               vp_strategy_version = strategy, vp_tokenizer_id = tokenizer,
               vp_embedding_model_id = model, vp_dimension = width\<rparr>)))))))))))
      of Inl e \<Rightarrow> Inl VectorStoreError | Inr p \<Rightarrow> Inr p)"

record VectorRecord =
  vr_id :: ustr
  vr_vector :: vector
  vr_payload :: VectorPayload

record VectorMatch =
  vm_id :: ustr
  vm_score :: rat
  vm_payload :: VectorPayload

section \<open>The service\<close>

datatype condition = MatchValue ustr ustr | MatchAny ustr "ustr list"

record PointStruct =
  pt_id :: ustr
  pt_vector :: vector
  pt_payload :: mapping

record ScoredPoint =
  sp_id :: ustr
  sp_score :: rat
  sp_payload :: "mapping option"

record 'q qdrant =
  q_exists :: "'q \<Rightarrow> bool option"
  q_width :: "'q \<Rightarrow> int option option"
  q_create :: "int \<Rightarrow> 'q \<Rightarrow> 'q option"
  q_index :: "ustr \<Rightarrow> 'q \<Rightarrow> 'q option"
  q_upsert :: "PointStruct list \<Rightarrow> 'q \<Rightarrow> 'q option"
  q_query :: "vector \<Rightarrow> condition list \<Rightarrow> int \<Rightarrow> rat \<Rightarrow> 'q \<Rightarrow> ScoredPoint list option"
  q_count :: "condition list \<Rightarrow> 'q \<Rightarrow> int option"
  q_delete :: "condition list \<Rightarrow> 'q \<Rightarrow> 'q option"
  q_point :: "'q \<Rightarrow> ustr \<Rightarrow> (vector \<times> mapping) option"

text \<open>\<open>must\<close>: a payload passes a filter when every condition holds of it.\<close>

fun condition_holds :: "mapping \<Rightarrow> condition \<Rightarrow> bool" where
  "condition_holds m (MatchValue key v) \<longleftrightarrow> map_of m key = Some (JStr v)"
| "condition_holds m (MatchAny key vs) \<longleftrightarrow> (case map_of m key of Some (JStr v) \<Rightarrow> v \<in> set vs | _ \<Rightarrow> False)"

definition filter_matches :: "condition list \<Rightarrow> mapping \<Rightarrow> bool" where
  "filter_matches conds m \<longleftrightarrow> list_all (condition_holds m) conds"

definition point_of :: "PointStruct list \<Rightarrow> ustr \<Rightarrow> (vector \<times> mapping) option" where
  "point_of pts i = map_of (map (\<lambda>p. (pt_id p, (pt_vector p, pt_payload p))) (rev pts)) i"

definition qdrant_writes :: "'q qdrant \<Rightarrow> bool" where
  "qdrant_writes Q \<longleftrightarrow>
     (\<forall>pts s s'. q_upsert Q pts s = Some s' \<longrightarrow>
        (\<forall>i. q_point Q s' i = (case point_of pts i of None \<Rightarrow> q_point Q s i | Some x \<Rightarrow> Some x)))
     \<and> (\<forall>conds s s'. q_delete Q conds s = Some s' \<longrightarrow>
        (\<forall>i. q_point Q s' i = (case q_point Q s i of None \<Rightarrow> None
           | Some (v, m) \<Rightarrow> (if filter_matches conds m then None else Some (v, m)))))"

definition qdrant_reads :: "'q qdrant \<Rightarrow> bool" where
  "qdrant_reads Q \<longleftrightarrow>
     (\<forall>v conds limit thr s hits. q_query Q v conds limit thr s = Some hits \<longrightarrow>
        length hits \<le> nat limit \<and> sorted_wrt (\<lambda>a b. sp_score b \<le> sp_score a) hits
        \<and> distinct (map sp_id hits)
        \<and> (\<forall>h \<in> set hits. thr \<le> sp_score h
             \<and> (\<exists>x m. q_point Q s (sp_id h) = Some (x, m) \<and> sp_payload h = Some m \<and> filter_matches conds m)))"

section \<open>The adapter\<close>

definition owned_by_filter :: "ustr \<Rightarrow> ustr list option \<Rightarrow> (exn, condition list) result" where
  "owned_by_filter owner_id document_ids =
     (if owner_id = [] then Inl VectorStoreError
      else Inr (MatchValue (py_str ''user_id'') owner_id #
        (case document_ids of None \<Rightarrow> [] | Some ids \<Rightarrow> [MatchAny (py_str ''document_id'') ids])))"

text \<open>A vendor exception becomes \<open>VectorStoreError\<close>.\<close>

definition vendor :: "'a option \<Rightarrow> (exn, 'a) result" where
  "vendor r = (case r of None \<Rightarrow> Inl VectorStoreError | Some a \<Rightarrow> Inr a)"

lemma vendor_simps [simp]: "vendor None = Inl VectorStoreError" "vendor (Some a) = Inr a"
  "vendor r = Inr a \<longleftrightarrow> r = Some a"
  by (simp_all add: vendor_def split: option.splits)

definition indexed_fields :: "ustr list" where
  "indexed_fields = [py_str ''user_id'', py_str ''document_id'']"

text \<open>Requests are sent one after another: what was created before a later request failed stays.\<close>

fun index_fields :: "'q qdrant \<Rightarrow> ustr list \<Rightarrow> 'q \<Rightarrow> (exn, unit) result \<times> 'q" where
  "index_fields Q [] s = (Inr (), s)"
| "index_fields Q (f # fs) s =
     (case q_index Q f s of None \<Rightarrow> (Inl VectorStoreError, s) | Some s' \<Rightarrow> index_fields Q fs s')"

definition ensure_collection :: "'q qdrant \<Rightarrow> int \<Rightarrow> 'q \<Rightarrow> (exn, unit) result \<times> 'q" where
  "ensure_collection Q dimension s =
     (if dimension \<le> 0 then (Inl VectorStoreError, s)
      else case q_exists Q s of
        None \<Rightarrow> (Inl VectorStoreError, s)
      | Some True \<Rightarrow>
          (case q_width Q s of
             None \<Rightarrow> (Inl VectorStoreError, s)
           | Some None \<Rightarrow> (Inl VectorStoreError, s)
           | Some (Some existing) \<Rightarrow>
               (if existing \<noteq> dimension then Inl VectorStoreError else Inr (), s))
      | Some False \<Rightarrow>
          (case q_create Q dimension s of
             None \<Rightarrow> (Inl VectorStoreError, s)
           | Some s' \<Rightarrow> index_fields Q indexed_fields s'))"

definition point_struct :: "VectorRecord \<Rightarrow> PointStruct" where
  "point_struct r = \<lparr>pt_id = vr_id r, pt_vector = vr_vector r, pt_payload = as_mapping (vr_payload r)\<rparr>"

definition vectors_upsert :: "'q qdrant \<Rightarrow> VectorRecord list \<Rightarrow> 'q \<Rightarrow> (exn, unit) result \<times> 'q" where
  "vectors_upsert Q records s =
     (if records = [] then (Inr (), s)
      else case q_upsert Q (map point_struct records) s of
        None \<Rightarrow> (Inl VectorStoreError, s) | Some s' \<Rightarrow> (Inr (), s'))"

definition vectors_delete_document :: "'q qdrant \<Rightarrow> ustr \<Rightarrow> ustr \<Rightarrow> 'q \<Rightarrow> (exn, unit) result \<times> 'q" where
  "vectors_delete_document Q document_id owner_id s =
     (case owned_by_filter owner_id (Some [document_id]) of
        Inl e \<Rightarrow> (Inl VectorStoreError, s)
      | Inr conds \<Rightarrow>
          (case q_delete Q conds s of None \<Rightarrow> (Inl VectorStoreError, s) | Some s' \<Rightarrow> (Inr (), s')))"

definition vectors_count_for_document :: "'q qdrant \<Rightarrow> ustr \<Rightarrow> ustr \<Rightarrow> 'q \<Rightarrow> (exn, int) result" where
  "vectors_count_for_document Q document_id owner_id s =
     bind_result (owned_by_filter owner_id (Some [document_id])) (\<lambda>conds. vendor (q_count Q conds s))"

definition match_of_point :: "ustr \<Rightarrow> ScoredPoint \<Rightarrow> (exn, VectorMatch) result" where
  "match_of_point owner_id p =
     bind_result (from_mapping (case sp_payload p of None \<Rightarrow> [] | Some m \<Rightarrow> m)) (\<lambda>payload.
       if vp_user_id payload \<noteq> owner_id then Inl VectorStoreError
       else Inr \<lparr>vm_id = sp_id p, vm_score = sp_score p, vm_payload = payload\<rparr>)"

definition vectors_search ::
  "'q qdrant \<Rightarrow> vector \<Rightarrow> ustr \<Rightarrow> int \<Rightarrow> rat \<Rightarrow> ustr list option \<Rightarrow> 'q \<Rightarrow> (exn, VectorMatch list) result" where
  "vectors_search Q query owner_id limit thr document_ids s =
     (if limit \<le> 0 then Inl VectorStoreError
      else bind_result (owned_by_filter owner_id document_ids) (\<lambda>conds.
        bind_result (vendor (q_query Q query conds limit thr s)) (\<lambda>points.
          map_result (match_of_point owner_id) points)))"

section \<open>Payloads survive the store\<close>

lemma mapping_fields [simp]:
  "payload_text (as_mapping p) (py_str ''user_id'') = Inr (vp_user_id p)"
  "payload_text (as_mapping p) (py_str ''document_id'') = Inr (vp_document_id p)"
  "payload_text (as_mapping p) (py_str ''chunk_id'') = Inr (vp_chunk_id p)"
  "payload_whole (as_mapping p) (py_str ''chunk_index'') = Inr (vp_chunk_index p)"
  "payload_section (as_mapping p) = Inr (vp_section p)"
  "payload_whole (as_mapping p) (py_str ''page_start'') = Inr (vp_page_start p)"
  "payload_whole (as_mapping p) (py_str ''page_end'') = Inr (vp_page_end p)"
  "payload_text (as_mapping p) (py_str ''strategy_version'') = Inr (vp_strategy_version p)"
  "payload_text (as_mapping p) (py_str ''tokenizer_id'') = Inr (vp_tokenizer_id p)"
  "payload_text (as_mapping p) (py_str ''embedding_model_id'') = Inr (vp_embedding_model_id p)"
  "payload_whole (as_mapping p) (py_str ''dimension'') = Inr (vp_dimension p)"
  by (simp_all add: payload_text_def payload_whole_def payload_section_def as_mapping_def
      split: option.split)

lemma from_mapping_as_mapping [simp]: "from_mapping (as_mapping p) = Inr p"
  unfolding from_mapping_def by (simp del: py_str_simps)

lemma from_mapping_error: "from_mapping m = Inl e \<Longrightarrow> e = VectorStoreError"
  by (auto simp: from_mapping_def split: sum.splits)

section \<open>What the adapter relies on and what it gives\<close>

text \<open>What a reader of the store sees of a point: its numbers and its payload, if that is well formed.\<close>

definition stored_vector :: "'q qdrant \<Rightarrow> 'q \<Rightarrow> ustr \<Rightarrow> (vector \<times> VectorPayload) option" where
  "stored_vector Q s i =
     (case q_point Q s i of
        None \<Rightarrow> None
      | Some (v, m) \<Rightarrow> (case from_mapping m of Inl _ \<Rightarrow> None | Inr p \<Rightarrow> Some (v, p)))"

lemma payload_text_Inr: "payload_text m k = Inr s \<longleftrightarrow> map_of m k = Some (JStr s)"
  by (auto simp: payload_text_def split: option.splits json.splits)

lemma from_mapping_fields:
  assumes "from_mapping m = Inr p"
  shows "map_of m (py_str ''user_id'') = Some (JStr (vp_user_id p))"
    and "map_of m (py_str ''document_id'') = Some (JStr (vp_document_id p))"
  using assms by (auto simp: from_mapping_def payload_text_Inr simp del: py_str_simps split: sum.splits)

lemma filter_matches_payload:
  "owned_by_filter owner (Some ids) = Inr conds \<Longrightarrow> from_mapping m = Inr p \<Longrightarrow>
     filter_matches conds m \<longleftrightarrow> vp_user_id p = owner \<and> vp_document_id p \<in> set ids"
  by (auto simp: owned_by_filter_def filter_matches_def from_mapping_fields simp del: py_str_simps split: if_splits)

lemma point_of_structs:
  "point_of (map point_struct records) i =
     map_of (map (\<lambda>r. (vr_id r, (vr_vector r, as_mapping (vr_payload r)))) (rev records)) i"
  by (simp add: point_of_def rev_map comp_def point_struct_def)

lemma point_of_record:
  assumes "r \<in> set records" and "distinct (map vr_id records)"
  shows "point_of (map point_struct records) (vr_id r) = Some (vr_vector r, as_mapping (vr_payload r))"
  unfolding point_of_structs using assms
  by (intro map_of_is_SomeI) (auto simp: comp_def rev_map [symmetric])

lemma point_of_other: "i \<notin> vr_id ` set records \<Longrightarrow> point_of (map point_struct records) i = None"
  by (auto simp: point_of_structs map_of_eq_None_iff image_iff)

lemma upsert_points:
  assumes "qdrant_writes Q" and "vectors_upsert Q records s = (Inr u, s')"
  shows "q_point Q s' i =
    (case point_of (map point_struct records) i of None \<Rightarrow> q_point Q s i | Some x \<Rightarrow> Some x)"
proof (cases "records = []")
  case False
  with assms(2) have "q_upsert Q (map point_struct records) s = Some s'"
    by (simp add: vectors_upsert_def split: option.splits)
  with assms(1) show ?thesis unfolding qdrant_writes_def by blast
qed (use assms(2) in \<open>simp add: vectors_upsert_def point_of_def\<close>)

lemma upsert_failed: "vectors_upsert Q records s = (Inl e, s') \<Longrightarrow> s' = s \<and> e = VectorStoreError"
  by (auto simp: vectors_upsert_def split: if_splits option.splits)

lemma upsert_stored:
  assumes "qdrant_writes Q" and "vectors_upsert Q records s = (Inr u, s')"
  shows "stored_vector Q s' i =
    (if i \<in> vr_id ` set records
     then map_option (\<lambda>(v, m). (v, projr (from_mapping m))) (point_of (map point_struct records) i)
     else stored_vector Q s i)"
proof (cases "i \<in> vr_id ` set records")
  case False
  then show ?thesis using upsert_points [OF assms] by (simp add: stored_vector_def point_of_other)
next
  case True
  then obtain x where "point_of (map point_struct records) i = Some x"
    by (cases "point_of (map point_struct records) i") (auto simp: point_of_structs map_of_eq_None_iff image_iff)
  moreover then obtain v p where "x = (v, as_mapping p)"
    unfolding point_of_structs using map_of_SomeD by fastforce
  ultimately show ?thesis using True upsert_points [OF assms] by (simp add: stored_vector_def)
qed

lemma upsert_stored_record:
  assumes "qdrant_writes Q" and "vectors_upsert Q records s = (Inr u, s')"
    and "r \<in> set records" and "distinct (map vr_id records)"
  shows "stored_vector Q s' (vr_id r) = Some (vr_vector r, vr_payload r)"
  using upsert_stored [OF assms(1,2)] point_of_record [OF assms(3,4)] assms(3) by simp

lemma delete_stored:
  assumes "qdrant_writes Q" and "vectors_delete_document Q d ow s = (Inr u, s')"
    and "stored_vector Q s i = Some (v, p)"
  shows "stored_vector Q s' i =
    (if vp_user_id p = ow \<and> vp_document_id p = d then None else Some (v, p))"
proof -
  obtain conds where c: "owned_by_filter ow (Some [d]) = Inr conds" "q_delete Q conds s = Some s'"
    using assms(2) by (auto simp: vectors_delete_document_def split: sum.splits option.splits)
  obtain m where m: "q_point Q s i = Some (v, m)" "from_mapping m = Inr p"
    using assms(3) by (auto simp: stored_vector_def split: option.splits sum.splits)
  have "q_point Q s' i = (if filter_matches conds m then None else Some (v, m))"
    using assms(1) c(2) m(1) by (auto simp: qdrant_writes_def)
  with filter_matches_payload [OF c(1) m(2)] m(2) show ?thesis by (simp add: stored_vector_def)
qed

lemma delete_failed: "vectors_delete_document Q d ow s = (Inl e, s') \<Longrightarrow> s' = s \<and> e = VectorStoreError"
  by (auto simp: vectors_delete_document_def split: sum.splits option.splits)

text \<open>
  Whatever the service answers, a search returns no other owner's vector: a point that is not the
  owner's is an error, not a result.
\<close>

lemma search_matches_owner:
  assumes "vectors_search Q v owner limit thr ids s = Inr ms" and "m \<in> set ms"
  shows "vp_user_id (vm_payload m) = owner"
proof -
  obtain points where "map_result (match_of_point owner) points = Inr ms"
    using assms(1) by (auto simp: vectors_search_def split: if_splits)
  then have "list_all2 (\<lambda>p m. match_of_point owner p = Inr m) points ms" by (rule map_result_Inr)
  with assms(2) obtain p where "match_of_point owner p = Inr m"
    by (auto simp: list_all2_conv_all_nth in_set_conv_nth)
  then show ?thesis by (auto simp: match_of_point_def split: if_splits)
qed

end
