(* ===== verification/Coroutine.thy ===== *)
theory Coroutine
  imports Domain
begin

text \<open>
  Asynchronous code. A coroutine is a tree: it has returned, it has raised, or it is suspended at an
  \<open>await\<close>, where the awaited operation acts on the shared world in one step and the coroutine
  continues. Between two awaits any other coroutine of any process may run, so an \<open>await\<close> is also
  where everything that can go wrong from outside goes wrong: the choice of a step says whether the
  operation is carried out, fails before it took effect, or took effect while its caller sees an
  exception (a lost acknowledgement, a cancellation that arrives with the answer).

  \<open>call\<close> awaits one operation, \<open>tryP\<close> is \<open>try\<close>/\<open>except\<close>/\<open>else\<close>, \<open>run\<close> executes a coroutine alone
  against a list of choices, and \<open>pool_step\<close> interleaves any number of them. \<open>safe\<close> is the proof
  obligation of one coroutine in such a pool, and \<open>pool_invariant\<close> is what it buys.
\<close>

datatype choice = Proceed | FailBefore exn | FailAfter exn

datatype (dead 'w, 'a) prog =
  Return 'a | Raise exn | Await "choice \<Rightarrow> 'w \<Rightarrow> 'w \<times> ('w, 'a) prog"

section \<open>Sequencing\<close>

primrec tryP ::
  "('w, 'a) prog \<Rightarrow> (exn \<Rightarrow> ('w, 'b) prog) \<Rightarrow> ('a \<Rightarrow> ('w, 'b) prog) \<Rightarrow> ('w, 'b) prog" where
  "tryP (Return a) h k = k a"
| "tryP (Raise e) h k = h e"
| "tryP (Await f) h k = Await (\<lambda>c w. map_prod id (\<lambda>p. tryP p h k) (f c w))"

definition bindP :: "('w, 'a) prog \<Rightarrow> ('a \<Rightarrow> ('w, 'b) prog) \<Rightarrow> ('w, 'b) prog" where
  "bindP p k = tryP p Raise k"

text \<open>\<open>except\<close> with a test: what the test refuses is raised again.\<close>

definition catchP :: "('w, 'a) prog \<Rightarrow> (exn \<Rightarrow> bool) \<Rightarrow> (exn \<Rightarrow> ('w, 'a) prog) \<Rightarrow> ('w, 'a) prog" where
  "catchP p handles h = tryP p (\<lambda>e. if handles e then h e else Raise e) Return"

definition of_result :: "(exn, 'a) result \<Rightarrow> ('w, 'a) prog" where
  "of_result r = (case r of Inl e \<Rightarrow> Raise e | Inr a \<Rightarrow> Return a)"

definition call :: "('w \<Rightarrow> (exn, 'a) result \<times> 'w) \<Rightarrow> ('w, 'a) prog" where
  "call f = Await (\<lambda>c w.
     case c of
       FailBefore e \<Rightarrow> (w, Raise e)
     | Proceed \<Rightarrow> (snd (f w), of_result (fst (f w)))
     | FailAfter e \<Rightarrow> (snd (f w), Raise e))"

text \<open>An operation on the world that only reads it.\<close>

definition query :: "('w \<Rightarrow> (exn, 'a) result) \<Rightarrow> ('w, 'a) prog" where
  "query f = call (\<lambda>w. (f w, w))"

lemma of_result_simps [simp]:
  "of_result (Inl e) = Raise e"
  "of_result (Inr a) = Return a"
  by (simp_all add: of_result_def)

lemma bindP_simps [simp]:
  "bindP (Return a) k = k a"
  "bindP (Raise e) k = Raise e"
  by (simp_all add: bindP_def)

lemma tryP_Return [simp]: "tryP p Raise Return = p"
  by (induction p) (auto simp: fun_eq_iff prod.map_id0 map_prod_def split: prod.splits intro!: ext,
      metis (no_types, lifting) rangeI snds.intros snd_conv)

section \<open>Running one coroutine\<close>

definition next_choice :: "choice list \<Rightarrow> choice" where
  "next_choice cs = (case cs of [] \<Rightarrow> Proceed | c # _ \<Rightarrow> c)"

text \<open>The result, the choices that are left, and the world that is left.\<close>

primrec run :: "('w, 'a) prog \<Rightarrow> choice list \<Rightarrow> 'w \<Rightarrow> (exn, 'a) result \<times> choice list \<times> 'w" where
  "run (Return a) = (\<lambda>cs w. (Inr a, cs, w))"
| "run (Raise e) = (\<lambda>cs w. (Inl e, cs, w))"
| "run (Await f) = (\<lambda>cs w.
     case map_prod id run (f (next_choice cs) w) of (w', r) \<Rightarrow> r (tl cs) w')"

lemma next_choice_simps [simp]:
  "next_choice [] = Proceed"
  "next_choice (c # cs) = c"
  by (simp_all add: next_choice_def)

lemma run_of_result [simp]: "run (of_result r) cs w = (r, cs, w)"
  by (cases r) simp_all

lemma run_call:
  "run (call f) cs w =
     (case next_choice cs of
        FailBefore e \<Rightarrow> (Inl e, tl cs, w)
      | Proceed \<Rightarrow> (fst (f w), tl cs, snd (f w))
      | FailAfter e \<Rightarrow> (Inl e, tl cs, snd (f w)))"
  by (cases "next_choice cs") (simp_all add: call_def)

lemma run_query:
  "run (query f) cs w =
     (case next_choice cs of
        FailBefore e \<Rightarrow> (Inl e, tl cs, w)
      | Proceed \<Rightarrow> (f w, tl cs, w)
      | FailAfter e \<Rightarrow> (Inl e, tl cs, w))"
  by (cases "next_choice cs") (simp_all add: query_def run_call)

lemma run_tryP:
  "run (tryP p h k) cs w =
     (case run p cs w of
        (Inl e, cs', w') \<Rightarrow> run (h e) cs' w'
      | (Inr a, cs', w') \<Rightarrow> run (k a) cs' w')"
proof (induction p arbitrary: cs w)
  case (Await f)
  obtain w1 p1 where f: "f (next_choice cs) w = (w1, p1)" by (cases "f (next_choice cs) w")
  then have "run (tryP p1 h k) (tl cs) w1 =
      (case run p1 (tl cs) w1 of (Inl e, cs', w') \<Rightarrow> run (h e) cs' w' | (Inr a, cs', w') \<Rightarrow> run (k a) cs' w')"
    by (intro Await.IH [of "f (next_choice cs)" "(w1, p1)"]) (auto intro: range_eqI [of _ _ "next_choice cs"] range_eqI [of _ _ w])
  with f show ?case by simp
qed simp_all

lemma run_bindP:
  "run (bindP p k) cs w =
     (case run p cs w of
        (Inl e, cs', w') \<Rightarrow> (Inl e, cs', w')
      | (Inr a, cs', w') \<Rightarrow> run (k a) cs' w')"
  by (auto simp: bindP_def run_tryP split: sum.splits prod.splits)

lemma run_catchP:
  "run (catchP p handles h) cs w =
     (case run p cs w of
        (Inl e, cs', w') \<Rightarrow> (if handles e then run (h e) cs' w' else (Inl e, cs', w'))
      | (Inr a, cs', w') \<Rightarrow> (Inr a, cs', w'))"
  by (auto simp: catchP_def run_tryP split: sum.splits prod.splits)

lemmas run_simps = run_call run_query run_tryP run_bindP run_catchP

section \<open>Many coroutines\<close>

text \<open>
  A pool is the world and the coroutines that are running against it. One step resumes one of
  them at its \<open>await\<close>; a coroutine that has ended leaves, a new one may start, and a process may
  die between any two steps, taking its coroutine with it.
\<close>

type_synonym ('w, 'a) pool = "'w \<times> ('w, 'a) prog list"

inductive pool_step ::
  "(choice \<Rightarrow> bool) \<Rightarrow> (('w, 'a) prog \<Rightarrow> bool) \<Rightarrow> ('w, 'a) pool \<Rightarrow> ('w, 'a) pool \<Rightarrow> bool"
  for allowed startable where
  resume: "allowed c \<Longrightarrow> f c w = (w', p') \<Longrightarrow>
     pool_step allowed startable (w, xs @ Await f # ys) (w', xs @ p' # ys)"
| leave: "pool_step allowed startable (w, xs @ p # ys) (w, xs @ ys)"
| start: "startable p \<Longrightarrow> pool_step allowed startable (w, ps) (w, p # ps)"

inductive reachable ::
  "(choice \<Rightarrow> bool) \<Rightarrow> (('w, 'a) prog \<Rightarrow> bool) \<Rightarrow> 'w \<Rightarrow> ('w, 'a) pool \<Rightarrow> bool"
  for allowed startable w0 where
  initial: "reachable allowed startable w0 (w0, [])"
| further: "reachable allowed startable w0 s \<Longrightarrow> pool_step allowed startable s s' \<Longrightarrow>
     reachable allowed startable w0 s'"

inductive_cases pool_stepE: "pool_step allowed startable s s'"

text \<open>A coroutine of a pool may run to its end, undisturbed.\<close>

lemma run_reachable:
  assumes "reachable allowed startable w0 (w, xs @ p # ys)" and "run p [] w = (r, cs, w')" and "allowed Proceed"
  shows "reachable allowed startable w0 (w', xs @ of_result r # ys)"
  using assms(1,2)
proof (induction p arbitrary: w)
  case (Await f)
  obtain w1 p1 where f: "f Proceed w = (w1, p1)" by (cases "f Proceed w")
  have "reachable allowed startable w0 (w1, xs @ p1 # ys)"
    by (rule reachable.further [OF Await.prems(1)], rule pool_step.resume [where c = Proceed]) (use assms(3) f in simp_all)
  moreover have "run p1 [] w1 = (r, cs, w')" using Await.prems(2) f by simp
  ultimately show ?case
    by (intro Await.IH [of "f Proceed" "(w1, p1)"]) (use f in \<open>auto intro: range_eqI [of _ _ Proceed] range_eqI [of _ _ w]\<close>)
qed auto

section \<open>The obligation of one coroutine\<close>

text \<open>
  \<open>safe I A apart allowed p ph\<close>: a coroutine whose claim on the world is the phase \<open>ph\<close> (the
  assertion \<open>A ph\<close> holds of the world now) keeps, at every \<open>await\<close> and for every allowed choice,
  the invariant \<open>I\<close> and the assertion of every phase another coroutine may be in. \<open>Q\<close> is what holds
  of its result and its last phase.
\<close>

primrec safe ::
  "('w \<Rightarrow> bool) \<Rightarrow> ('ph \<Rightarrow> 'w \<Rightarrow> bool) \<Rightarrow> ('ph \<Rightarrow> 'ph \<Rightarrow> bool) \<Rightarrow> (choice \<Rightarrow> bool)
   \<Rightarrow> ('w, 'a) prog \<Rightarrow> 'ph \<Rightarrow> ((exn, 'a) result \<Rightarrow> 'ph \<Rightarrow> bool) \<Rightarrow> bool" where
  "safe I A apart allowed (Return a) = (\<lambda>ph Q. Q (Inr a) ph)"
| "safe I A apart allowed (Raise e) = (\<lambda>ph Q. Q (Inl e) ph)"
| "safe I A apart allowed (Await f) = (\<lambda>ph Q.
     \<forall>c w. allowed c \<longrightarrow> I w \<longrightarrow> A ph w \<longrightarrow>
       (case map_prod id (safe I A apart allowed) (f c w) of
          (w', s) \<Rightarrow> I w' \<and>
            (\<exists>ph'. A ph' w' \<and> s ph' Q \<and>
               (\<forall>o'. apart ph o' \<longrightarrow> A o' w \<longrightarrow> apart ph' o' \<and> A o' w'))))"

lemma safe_AwaitI:
  assumes "\<And>c w. allowed c \<Longrightarrow> I w \<Longrightarrow> A ph w \<Longrightarrow>
    I (fst (f c w)) \<and> (\<exists>ph'. A ph' (fst (f c w)) \<and> safe I A apart allowed (snd (f c w)) ph' Q \<and>
      (\<forall>o'. apart ph o' \<longrightarrow> A o' w \<longrightarrow> apart ph' o' \<and> A o' (fst (f c w))))"
  shows "safe I A apart allowed (Await f) ph Q"
  using assms by (simp add: map_prod_def split_beta)

lemma safe_AwaitD:
  assumes "safe I A apart allowed (Await f) ph Q" "allowed c" "I w" "A ph w"
  shows "I (fst (f c w))"
    and "\<exists>ph'. A ph' (fst (f c w)) \<and> safe I A apart allowed (snd (f c w)) ph' Q \<and>
      (\<forall>o'. apart ph o' \<longrightarrow> A o' w \<longrightarrow> apart ph' o' \<and> A o' (fst (f c w)))"
  using assms by (auto simp: map_prod_def split_beta)

lemma safe_conseq:
  assumes "safe I A apart allowed p ph Q" and "\<And>r ph'. Q r ph' \<Longrightarrow> Q' r ph'"
  shows "safe I A apart allowed p ph Q'"
  using assms
proof (induction p arbitrary: ph)
  case (Await f)
  show ?case
  proof (rule safe_AwaitI)
    fix c w assume a: "allowed c" "I w" "A ph w"
    note d = safe_AwaitD [OF Await.prems(1) a]
    have "safe I A apart allowed (snd (f c w)) ph' Q'" if "safe I A apart allowed (snd (f c w)) ph' Q" for ph'
      using Await.IH [of "f c" "f c w" "snd (f c w)"] that Await.prems(2) by (auto simp: snds.simps)
    with d show "I (fst (f c w)) \<and> (\<exists>ph'. A ph' (fst (f c w)) \<and>
        safe I A apart allowed (snd (f c w)) ph' Q' \<and>
        (\<forall>o'. apart ph o' \<longrightarrow> A o' w \<longrightarrow> apart ph' o' \<and> A o' (fst (f c w))))"
      by blast
  qed
qed auto

lemma safe_tryP:
  assumes "safe I A apart allowed p ph R"
    and "\<And>a ph'. R (Inr a) ph' \<Longrightarrow> safe I A apart allowed (k a) ph' Q"
    and "\<And>e ph'. R (Inl e) ph' \<Longrightarrow> safe I A apart allowed (h e) ph' Q"
  shows "safe I A apart allowed (tryP p h k) ph Q"
  using assms
proof (induction p arbitrary: ph)
  case (Await f)
  let ?g = "\<lambda>c w. map_prod id (\<lambda>p. tryP p h k) (f c w)"
  show ?case
    unfolding tryP.simps
  proof (rule safe_AwaitI)
    fix c w assume a: "allowed c" "I w" "A ph w"
    note d = safe_AwaitD [OF Await.prems(1) a]
    have "safe I A apart allowed (tryP (snd (f c w)) h k) ph' Q"
      if "safe I A apart allowed (snd (f c w)) ph' R" for ph'
      using Await.IH [of "f c" "f c w" "snd (f c w)"] that Await.prems(2,3) by (auto simp: snds.simps)
    with d show "I (fst (?g c w)) \<and> (\<exists>ph'. A ph' (fst (?g c w)) \<and>
        safe I A apart allowed (snd (?g c w)) ph' Q \<and>
        (\<forall>o'. apart ph o' \<longrightarrow> A o' w \<longrightarrow> apart ph' o' \<and> A o' (fst (?g c w))))"
      by (metis fst_map_prod id_apply snd_map_prod)
  qed
qed auto

lemma safe_bindP:
  assumes "safe I A apart allowed p ph R"
    and "\<And>a ph'. R (Inr a) ph' \<Longrightarrow> safe I A apart allowed (k a) ph' Q"
    and "\<And>e ph'. R (Inl e) ph' \<Longrightarrow> Q (Inl e) ph'"
  shows "safe I A apart allowed (bindP p k) ph Q"
  unfolding bindP_def using assms by (intro safe_tryP [where R = R]) auto

text \<open>
  One awaited operation. When it may only fail before it took effect, its caller sees either its
  result, in a phase that holds of the world it left, or the failure, in the phase it was in.
\<close>

definition no_late_failure :: "choice \<Rightarrow> bool" where
  "no_late_failure c = (case c of FailAfter e \<Rightarrow> False | _ \<Rightarrow> True)"

lemma no_late_failure_cases:
  "no_late_failure c \<Longrightarrow> c = Proceed \<or> (\<exists>e. c = FailBefore e)"
  by (cases c) (auto simp: no_late_failure_def)

lemma safe_of_result [simp]: "safe I A apart allowed (of_result r) ph Q \<longleftrightarrow> Q r ph"
  by (cases r) simp_all

lemma safe_call:
  assumes "\<And>w. I w \<Longrightarrow> A ph w \<Longrightarrow> I (snd (f w)) \<and> (\<exists>ph'. A ph' (snd (f w)) \<and> Q (fst (f w)) ph' \<and>
      (\<forall>o'. apart ph o' \<longrightarrow> A o' w \<longrightarrow> apart ph' o' \<and> A o' (snd (f w))))"
    and "\<And>e. Q (Inl e) ph"
  shows "safe I A apart no_late_failure (call f) ph Q"
  unfolding call_def
proof (rule safe_AwaitI)
  fix c w assume a: "no_late_failure c" and w: "I w" "A ph w"
  from no_late_failure_cases [OF a]
  show "I (fst (case c of FailBefore e \<Rightarrow> (w, Raise e) | Proceed \<Rightarrow> (snd (f w), of_result (fst (f w)))
      | FailAfter e \<Rightarrow> (snd (f w), Raise e))) \<and>
    (\<exists>ph'. A ph' (fst (case c of FailBefore e \<Rightarrow> (w, Raise e) | Proceed \<Rightarrow> (snd (f w), of_result (fst (f w)))
      | FailAfter e \<Rightarrow> (snd (f w), Raise e))) \<and>
      safe I A apart no_late_failure (snd (case c of FailBefore e \<Rightarrow> (w, Raise e)
      | Proceed \<Rightarrow> (snd (f w), of_result (fst (f w))) | FailAfter e \<Rightarrow> (snd (f w), Raise e))) ph' Q \<and>
      (\<forall>o'. apart ph o' \<longrightarrow> A o' w \<longrightarrow> apart ph' o' \<and> A o' (fst (case c of FailBefore e \<Rightarrow> (w, Raise e)
      | Proceed \<Rightarrow> (snd (f w), of_result (fst (f w))) | FailAfter e \<Rightarrow> (snd (f w), Raise e)))))"
    using assms(1) [OF w] assms(2) w by (elim disjE exE) auto
qed

lemma safe_callI:
  assumes "\<And>w r w'. I w \<Longrightarrow> A ph w \<Longrightarrow> f w = (r, w') \<Longrightarrow> I w' \<and> (\<exists>ph'. A ph' w' \<and> Q r ph' \<and>
      (\<forall>o'. apart ph o' \<longrightarrow> A o' w \<longrightarrow> apart ph' o' \<and> A o' w'))"
    and "\<And>e. Q (Inl e) ph"
  shows "safe I A apart no_late_failure (call f) ph Q"
  by (rule safe_call) (rule assms(1) [OF _ _ surjective_pairing], assumption, assumption, rule assms(2))

lemma safe_query:
  assumes "\<And>w. I w \<Longrightarrow> A ph w \<Longrightarrow> \<exists>ph'. A ph' w \<and> Q (f w) ph' \<and>
      (\<forall>o'. apart ph o' \<longrightarrow> A o' w \<longrightarrow> apart ph' o')"
    and "\<And>e. Q (Inl e) ph"
  shows "safe I A apart no_late_failure (query f) ph Q"
  unfolding query_def
proof (rule safe_call)
  fix w assume w: "I w" "A ph w"
  obtain ph' where p: "A ph' w" "Q (f w) ph'" "\<forall>o'. apart ph o' \<longrightarrow> A o' w \<longrightarrow> apart ph' o'"
    using assms(1) [OF w] by blast
  with w show "I (snd (f w, w)) \<and> (\<exists>ph'. A ph' (snd (f w, w)) \<and> Q (fst (f w, w)) ph' \<and>
      (\<forall>o'. apart ph o' \<longrightarrow> A o' w \<longrightarrow> apart ph' o' \<and> A o' (snd (f w, w))))"
    by auto
qed (rule assms(2))

section \<open>The interface between a coroutine and the pool\<close>

text \<open>
  What the assertions of a protocol owe to the pool: phases that may coexist do so symmetrically,
  and a coroutine that has just started claims nothing. What the pool owes in return is that the
  invariant holds in every reachable state.
\<close>

locale protocol =
  fixes I :: "'w \<Rightarrow> bool" and A :: "'ph \<Rightarrow> 'w \<Rightarrow> bool" and apart :: "'ph \<Rightarrow> 'ph \<Rightarrow> bool"
    and allowed :: "choice \<Rightarrow> bool" and idle :: 'ph
  assumes apart_sym: "apart x y \<Longrightarrow> apart y x"
    and idle_true: "A idle w"
    and idle_apart: "apart idle x"
begin

definition covers :: "'w \<Rightarrow> ('w, 'a) prog list \<Rightarrow> 'ph list \<Rightarrow> bool" where
  "covers w ps phs \<longleftrightarrow>
     list_all2 (\<lambda>p ph. A ph w \<and> safe I A apart allowed p ph (\<lambda>_ _. True)) ps phs"

definition pool_inv :: "('w, 'a) pool \<Rightarrow> bool" where
  "pool_inv s \<longleftrightarrow> I (fst s) \<and> (\<exists>phs. covers (fst s) (snd s) phs \<and> sorted_wrt apart phs)"

lemma covers_appendE:
  assumes "covers w (xs @ p # ys) phs"
  obtains xs' ph ys' where "phs = xs' @ ph # ys'" "covers w xs xs'" "covers w ys ys'"
    "A ph w" "safe I A apart allowed p ph (\<lambda>_ _. True)"
  using assms by (auto simp: covers_def list_all2_append1 list_all2_Cons1)

lemma covers_append: "covers w xs xs' \<Longrightarrow> covers w ys ys' \<Longrightarrow> covers w (xs @ ys) (xs' @ ys')"
  by (simp add: covers_def list_all2_appendI)

lemma covers_step:
  assumes "covers w ps phs" and "\<And>o'. o' \<in> set phs \<Longrightarrow> A o' w \<Longrightarrow> A o' w'"
  shows "covers w' ps phs"
  using assms unfolding covers_def by (simp add: list_all2_conv_all_nth)

lemma pool_inv_step:
  assumes "pool_step allowed startable s s'" and "pool_inv s"
    and start: "\<And>p. startable p \<Longrightarrow> safe I A apart allowed p idle (\<lambda>_ _. True)"
  shows "pool_inv s'"
  using assms(1,2)
proof (cases rule: pool_step.cases)
  case (resume c f w w' p' xs ys)
  with assms(2) obtain phs where I: "I w" and cov: "covers w (xs @ Await f # ys) phs"
    and srt: "sorted_wrt apart phs"
    by (auto simp: pool_inv_def)
  from cov obtain xs' ph ys' where phs: "phs = xs' @ ph # ys'" and c: "covers w xs xs'" "covers w ys ys'"
    and A: "A ph w" and s: "safe I A apart allowed (Await f) ph (\<lambda>_ _. True)"
    by (rule covers_appendE)
  from safe_AwaitD [OF s resume(3) I A] resume(4) obtain ph' where I': "I w'" and ph': "A ph' w'"
    "safe I A apart allowed p' ph' (\<lambda>_ _. True)"
    and rest: "\<And>o'. apart ph o' \<Longrightarrow> A o' w \<Longrightarrow> apart ph' o' \<and> A o' w'"
    by auto
  from srt phs have ap: "\<forall>o' \<in> set xs' \<union> set ys'. apart ph o'"
    by (auto simp: sorted_wrt_append intro: apart_sym)
  from c have AA: "\<forall>o' \<in> set xs' \<union> set ys'. A o' w"
    by (auto simp: covers_def list_all2_conv_all_nth in_set_conv_nth)
  have "covers w' (xs @ p' # ys) (xs' @ ph' # ys')"
    using covers_step [OF c(1)] covers_step [OF c(2)] rest ap ph'
    by (intro covers_append) (auto simp: covers_def)
  moreover have "sorted_wrt apart (xs' @ ph' # ys')"
    using srt phs rest ap AA by (auto simp: sorted_wrt_append intro: apart_sym)
  ultimately show ?thesis using resume I' by (auto simp: pool_inv_def)
next
  case (leave w xs p ys)
  with assms(2) obtain phs where I: "I w" and cov: "covers w (xs @ p # ys) phs"
    and srt: "sorted_wrt apart phs"
    by (auto simp: pool_inv_def)
  from cov obtain xs' ph ys' where phs: "phs = xs' @ ph # ys'" and c: "covers w xs xs'" "covers w ys ys'"
    by (rule covers_appendE)
  from srt phs have "sorted_wrt apart (xs' @ ys')" by (auto simp: sorted_wrt_append)
  with covers_append [OF c] I leave show ?thesis by (auto simp: pool_inv_def)
next
  case (start p w ps)
  with assms(2) obtain phs where I: "I w" and cov: "covers w ps phs" and srt: "sorted_wrt apart phs"
    by (auto simp: pool_inv_def)
  have "covers w (p # ps) (idle # phs)"
    using cov assms(3) [OF start(3)] by (simp add: covers_def idle_true)
  moreover have "sorted_wrt apart (idle # phs)" using srt by (simp add: idle_apart)
  ultimately show ?thesis using start I by (auto simp: pool_inv_def)
qed

theorem pool_invariant:
  assumes "reachable allowed startable w0 s" and "I w0"
    and start: "\<And>p. startable p \<Longrightarrow> safe I A apart allowed p idle (\<lambda>_ _. True)"
  shows "I (fst s)"
proof -
  have "pool_inv s"
    using assms(1)
  proof induction
    case initial
    with assms(2) show ?case by (auto simp: pool_inv_def covers_def)
  next
    case (further s s')
    with pool_inv_step start show ?case by blast
  qed
  then show ?thesis by (simp add: pool_inv_def)
qed

end

end
