(* ===== verification/ObjectStorage.thy ===== *)
theory ObjectStorage
  imports Coroutine
begin

text \<open>
  Object storage: the keys of \<open>shared/interfaces/storage.py\<close> and the local backend of
  \<open>backend/storage/local.py\<close>. The file system is the map from keys to the bytes of the files in
  place, and the temporary files that are not. Every system call of a write is an \<open>await\<close>: it may
  fail with \<open>OSError\<close>, another writer may run before it, and the process may die there.
\<close>

section \<open>Keys\<close>

definition is_sha256_hex :: "ustr \<Rightarrow> bool" where
  "is_sha256_hex s \<longleftrightarrow> length s = 64 \<and> list_all is_lower_hex s"

text \<open>\<open>{uuid}/{sha256}.pdf\<close>, one test per character.\<close>

definition storage_key_pattern :: "(nat \<Rightarrow> bool) list" where
  "storage_key_pattern =
     replicate 8 is_lower_hex @ [(=) 45] @ replicate 4 is_lower_hex @ [(=) 45]
     @ replicate 4 is_lower_hex @ [(=) 45] @ replicate 4 is_lower_hex @ [(=) 45]
     @ replicate 12 is_lower_hex @ [(=) 47] @ replicate 64 is_lower_hex
     @ map (=) (py_str ''.pdf'')"

definition is_storage_key :: "ustr \<Rightarrow> bool" where
  "is_storage_key s \<longleftrightarrow> list_all2 (\<lambda>p c. p c) storage_key_pattern s"

definition document_storage_key :: "unicode \<Rightarrow> ustr \<Rightarrow> ustr \<Rightarrow> (exn, ustr) result" where
  "document_storage_key U owner_id content_hash =
     (case uuid_of_text U owner_id of
        None \<Rightarrow> Inl ValueError
      | Some owner \<Rightarrow>
          (if \<not> is_sha256_hex content_hash then Inl ValueError
           else Inr (uuid_str owner @ [47] @ content_hash @ py_str ''.pdf'')))"

section \<open>The contract\<close>

text \<open>What \<open>Storage\<close> promises: a write creates or leaves alone, and says which.\<close>

type_synonym objects = "ustr \<rightharpoonup> bytes"

definition object_put :: "ustr \<Rightarrow> bytes \<Rightarrow> objects \<Rightarrow> bool \<times> objects" where
  "object_put key data objs = (case objs key of None \<Rightarrow> (True, objs(key \<mapsto> data)) | Some _ \<Rightarrow> (False, objs))"

definition object_get :: "ustr \<Rightarrow> objects \<Rightarrow> (exn, bytes) result" where
  "object_get key objs = (case objs key of None \<Rightarrow> Inl StorageObjectMissing | Some b \<Rightarrow> Inr b)"

definition object_delete :: "ustr \<Rightarrow> objects \<Rightarrow> objects" where
  "object_delete key objs = objs(key := None)"

section \<open>The local backend\<close>

record filesystem =
  fs_objects :: objects
  fs_temporaries :: "(nat \<times> bytes) list"

text \<open>
  \<open>inside\<close> is the second lock: whether the key still lies in the root once the file system has
  resolved it.
\<close>

definition path_for :: "(ustr \<Rightarrow> bool) \<Rightarrow> ustr \<Rightarrow> (exn, ustr) result" where
  "path_for inside key =
     (if \<not> is_storage_key key then Inl StorageError
      else if \<not> inside key then Inl StorageError else Inr key)"

definition is_OSError :: "exn \<Rightarrow> bool" where
  "is_OSError e \<longleftrightarrow> e = OSError"

definition storage_errors :: "(filesystem, 'a) prog \<Rightarrow> (filesystem, 'a) prog" where
  "storage_errors p = catchP p is_OSError (\<lambda>_. Raise StorageError)"

text \<open>\<open>mkstemp\<close> creates exclusively: a name that is taken is refused.\<close>

definition make_temporary :: "nat \<Rightarrow> (filesystem, unit) prog" where
  "make_temporary name =
     call (\<lambda>fs. if map_of (fs_temporaries fs) name \<noteq> None then (Inl OSError, fs)
       else (Inr (), fs\<lparr>fs_temporaries := (name, []) # fs_temporaries fs\<rparr>))"

definition write_temporary :: "nat \<Rightarrow> bytes \<Rightarrow> (filesystem, unit) prog" where
  "write_temporary name data =
     call (\<lambda>fs. (Inr (), fs\<lparr>fs_temporaries :=
       map (\<lambda>t. if fst t = name then (name, data) else t) (fs_temporaries fs)\<rparr>))"

definition unlink_temporary :: "nat \<Rightarrow> (filesystem, unit) prog" where
  "unlink_temporary name =
     call (\<lambda>fs. (Inr (), fs\<lparr>fs_temporaries := filter (\<lambda>t. fst t \<noteq> name) (fs_temporaries fs)\<rparr>))"

text \<open>\<open>os.link\<close>: atomic create-if-absent of the temporary file's contents.\<close>

definition link_temporary :: "nat \<Rightarrow> ustr \<Rightarrow> (filesystem, bool) prog" where
  "link_temporary name path =
     call (\<lambda>fs.
       case map_of (fs_temporaries fs) name of
         None \<Rightarrow> (Inl OSError, fs)
       | Some data \<Rightarrow>
           (case fs_objects fs path of
              None \<Rightarrow> (Inr True, fs\<lparr>fs_objects := (fs_objects fs)(path \<mapsto> data)\<rparr>)
            | Some _ \<Rightarrow> (Inr False, fs)))"

definition fsync_directory :: "(filesystem, unit) prog" where
  "fsync_directory = call (\<lambda>fs. (Inr (), fs))"

text \<open>\<open>finally\<close>: the clean-up runs on both ways out; an error of its own replaces what was on the way.\<close>

definition finallyP :: "('w, 'a) prog \<Rightarrow> ('w, unit) prog \<Rightarrow> ('w, 'a) prog" where
  "finallyP p cleanup =
     tryP p (\<lambda>e. bindP cleanup (\<lambda>_. Raise e)) (\<lambda>a. bindP cleanup (\<lambda>_. Return a))"

definition put_sync :: "nat \<Rightarrow> ustr \<Rightarrow> bytes \<Rightarrow> (filesystem, bool) prog" where
  "put_sync name path data = storage_errors
     (bindP (query (\<lambda>fs. Inr (fs_objects fs path \<noteq> None))) (\<lambda>present.
        if present then Return False
        else bindP (make_temporary name) (\<lambda>_.
          finallyP
            (bindP (write_temporary name data) (\<lambda>_.
             bindP (link_temporary name path) (\<lambda>created.
               if \<not> created then Return False
               else bindP fsync_directory (\<lambda>_. Return True))))
            (unlink_temporary name))))"

definition get_sync :: "ustr \<Rightarrow> (filesystem, bytes) prog" where
  "get_sync path = storage_errors (query (\<lambda>fs. object_get path (fs_objects fs)))"

definition delete_sync :: "ustr \<Rightarrow> (filesystem, unit) prog" where
  "delete_sync path = storage_errors
     (call (\<lambda>fs. (Inr (), fs\<lparr>fs_objects := object_delete path (fs_objects fs)\<rparr>)))"

definition local_put :: "(ustr \<Rightarrow> bool) \<Rightarrow> nat \<Rightarrow> ustr \<Rightarrow> bytes \<Rightarrow> (filesystem, bool) prog" where
  "local_put inside name key data = bindP (of_result (path_for inside key)) (\<lambda>path. put_sync name path data)"

definition local_get :: "(ustr \<Rightarrow> bool) \<Rightarrow> ustr \<Rightarrow> (filesystem, bytes) prog" where
  "local_get inside key = bindP (of_result (path_for inside key)) get_sync"

definition local_delete :: "(ustr \<Rightarrow> bool) \<Rightarrow> ustr \<Rightarrow> (filesystem, unit) prog" where
  "local_delete inside key = bindP (of_result (path_for inside key)) delete_sync"

section \<open>Keys are well formed and name one owner and one content\<close>

lemma list_all2_replicate [simp]:
  "list_all2 (\<lambda>p c. p c) (replicate n P) s \<longleftrightarrow> length s = n \<and> list_all P s"
proof (induction n arbitrary: s)
  case (Suc n)
  then show ?case by (cases s) auto
qed auto

lemma list_all2_eqs: "list_all2 (\<lambda>p c. p c) (map (=) t) s \<longleftrightarrow> s = t"
proof (induction t arbitrary: s)
  case (Cons c t)
  then show ?case by (cases s) auto
qed auto

lemma hex_digits_list_all: "list_all is_lower_hex (hex_digits k n)"
  using hex_digits_lower by (auto simp: list_all_iff)

lemma pattern_uuid:
  "list_all2 (\<lambda>p c. p c) (replicate 8 is_lower_hex @ [(=) 45] @ replicate 4 is_lower_hex @ [(=) 45]
     @ replicate 4 is_lower_hex @ [(=) 45] @ replicate 4 is_lower_hex @ [(=) 45]
     @ replicate 12 is_lower_hex) (uuid_str w)"
  using hex_digits_list_all [of 32 "unat w"] unfolding uuid_str_def hyphenate_def
  by (intro list_all2_appendI) (auto simp: list_all_iff dest: in_set_takeD in_set_dropD)

theorem storage_key_valid:
  assumes "document_storage_key U owner h = Inr key"
  shows "is_storage_key key"
proof -
  obtain w where k: "key = uuid_str w @ [47] @ h @ py_str ''.pdf''" and h: "is_sha256_hex h"
    using assms by (auto simp: document_storage_key_def split: option.splits if_splits)
  have "list_all2 (\<lambda>p c. p c) ((replicate 8 is_lower_hex @ [(=) 45] @ replicate 4 is_lower_hex @ [(=) 45]
     @ replicate 4 is_lower_hex @ [(=) 45] @ replicate 4 is_lower_hex @ [(=) 45]
     @ replicate 12 is_lower_hex) @ [(=) 47] @ replicate 64 is_lower_hex @ map (=) (py_str ''.pdf'')) key"
    unfolding k using h
    by (intro list_all2_appendI pattern_uuid) (simp_all add: is_sha256_hex_def list_all2_eqs del: py_str_simps)
  then show ?thesis by (simp add: is_storage_key_def storage_key_pattern_def)
qed

lemma storage_key_inject:
  assumes "document_storage_key U o1 h1 = Inr key" and "document_storage_key U o2 h2 = Inr key"
  shows "uuid_of_text U o1 = uuid_of_text U o2 \<and> h1 = h2"
  using assms by (auto simp: document_storage_key_def is_sha256_hex_def append_eq_append_conv
      split: option.splits if_splits)

section \<open>The local backend keeps the contract\<close>

lemmas local_defs = local_put_def local_get_def local_delete_def put_sync_def get_sync_def
  delete_sync_def storage_errors_def finallyP_def make_temporary_def write_temporary_def
  unlink_temporary_def link_temporary_def fsync_directory_def

lemma path_for_key: "is_storage_key key \<Longrightarrow> inside key \<Longrightarrow> path_for inside key = Inr key"
  by (simp add: path_for_def)

lemma filter_absent: "map_of ts n = None \<Longrightarrow> filter (\<lambda>t. fst t \<noteq> n) ts = ts"
  by (induction ts) (auto split: if_splits)

lemma map_absent: "map_of ts n = None \<Longrightarrow> map (\<lambda>t. if fst t = n then x else t) ts = ts"
  by (induction ts) (auto split: if_splits)

lemma local_put_refines:
  assumes "is_storage_key key" and "inside key" and "map_of (fs_temporaries fs) name = None"
  shows "run (local_put inside name key data) [] fs =
    (Inr (fst (object_put key data (fs_objects fs))), [],
     fs\<lparr>fs_objects := snd (object_put key data (fs_objects fs))\<rparr>)"
  using assms
  by (cases "fs_objects fs key")
    (simp_all add: local_defs run_simps path_for_key object_put_def filter_absent map_absent)

lemma local_get_refines:
  assumes "is_storage_key key" and "inside key"
  shows "run (local_get inside key) [] fs = (object_get key (fs_objects fs), [], fs)"
  using assms
  by (cases "fs_objects fs key") (simp_all add: local_defs run_simps path_for_key object_get_def is_OSError_def)

lemma local_delete_refines:
  assumes "is_storage_key key" and "inside key"
  shows "run (local_delete inside key) [] fs =
    (Inr (), [], fs\<lparr>fs_objects := object_delete key (fs_objects fs)\<rparr>)"
  using assms by (simp add: local_defs run_simps path_for_key)

lemma local_refuses:
  assumes "\<not> is_storage_key key"
  shows "run (local_put inside name key data) cs fs = (Inl StorageError, cs, fs)"
    and "run (local_get inside key) cs fs = (Inl StorageError, cs, fs)"
    and "run (local_delete inside key) cs fs = (Inl StorageError, cs, fs)"
  using assms by (simp_all add: local_put_def local_get_def local_delete_def path_for_def)

section \<open>The interface the services use\<close>

locale object_store =
  fixes put :: "ustr \<Rightarrow> bytes \<Rightarrow> 's \<Rightarrow> (exn, bool) result \<times> 's"
    and get :: "ustr \<Rightarrow> 's \<Rightarrow> (exn, bytes) result"
    and delete :: "ustr \<Rightarrow> 's \<Rightarrow> (exn, unit) result \<times> 's"
    and valid :: "ustr \<Rightarrow> bool"
  assumes get_cases: "valid k \<Longrightarrow> get k s = Inl StorageObjectMissing \<or> (\<exists>b. get k s = Inr b)"
    and put_new: "valid k \<Longrightarrow> get k s = Inl StorageObjectMissing \<Longrightarrow>
      \<exists>s'. put k d s = (Inr True, s') \<and> get k s' = Inr d"
    and put_present: "valid k \<Longrightarrow> get k s = Inr b \<Longrightarrow> put k d s = (Inr False, s)"
    and put_frame: "valid k \<Longrightarrow> valid k' \<Longrightarrow> k' \<noteq> k \<Longrightarrow> get k' (snd (put k d s)) = get k' s"
    and delete_gone: "valid k \<Longrightarrow> \<exists>s'. delete k s = (Inr (), s') \<and> get k s' = Inl StorageObjectMissing"
    and delete_frame: "valid k \<Longrightarrow> valid k' \<Longrightarrow> k' \<noteq> k \<Longrightarrow> get k' (snd (delete k s)) = get k' s"
begin

lemma put_readable: "valid k \<Longrightarrow> \<exists>b. get k (snd (put k d s)) = Inr b"
  using get_cases [of k s] put_new [of k s d] put_present [of k s _ d] by fastforce

lemma put_created_iff:
  "valid k \<Longrightarrow> fst (put k d s) = Inr True \<longleftrightarrow> get k s = Inl StorageObjectMissing"
  using get_cases [of k s] put_new [of k s d] put_present [of k s _ d] by fastforce

text \<open>Of two writes of one key, the second creates nothing and changes nothing.\<close>

lemma put_again: "valid k \<Longrightarrow> put k d' (snd (put k d s)) = (Inr False, snd (put k d s))"
  using put_readable [of k d s] put_present by blast

text \<open>
  A writer that created an object may take it back, and only that object: the reader of any other
  key sees the store as it was before the write.
\<close>

lemma undo_restores:
  assumes "valid k" and "put k d s = (Inr True, s')" and "valid k'"
  shows "get k' (snd (delete k s')) = get k' s"
proof (cases "k' = k")
  case True
  have "get k s = Inl StorageObjectMissing" using put_created_iff [OF assms(1), of d s] assms(2) by simp
  with True delete_gone [OF assms(1), of s'] show ?thesis by auto
next
  case False
  with delete_frame [OF assms(1,3) False, of s'] put_frame [OF assms(1,3) False, of d s] assms(2)
  show ?thesis by simp
qed

end

text \<open>\<open>mkstemp\<close> picks a name that is not taken; the one below stands for its choice.\<close>

definition free_name :: "filesystem \<Rightarrow> nat" where
  "free_name fs = Suc (foldr max (map fst (fs_temporaries fs)) 0)"

lemma foldr_max_ge: "n \<in> set ns \<Longrightarrow> n \<le> foldr max ns (0::nat)"
  by (induction ns) auto

lemma free_name_free: "map_of (fs_temporaries fs) (free_name fs) = None"
proof -
  have "free_name fs \<notin> set (map fst (fs_temporaries fs))"
    using foldr_max_ge [of "free_name fs" "map fst (fs_temporaries fs)"] by (auto simp: free_name_def)
  then show ?thesis by (simp add: map_of_eq_None_iff)
qed

text \<open>The backend run without interference.\<close>

definition alone :: "(filesystem, 'a) prog \<Rightarrow> filesystem \<Rightarrow> (exn, 'a) result \<times> filesystem" where
  "alone p fs = (case run p [] fs of (r, _, fs') \<Rightarrow> (r, fs'))"

definition local_store_put :: "ustr \<Rightarrow> bytes \<Rightarrow> filesystem \<Rightarrow> (exn, bool) result \<times> filesystem" where
  "local_store_put key data fs = alone (local_put (\<lambda>_. True) (free_name fs) key data) fs"

definition local_store_get :: "ustr \<Rightarrow> filesystem \<Rightarrow> (exn, bytes) result" where
  "local_store_get key fs = fst (alone (local_get (\<lambda>_. True) key) fs)"

definition local_store_delete :: "ustr \<Rightarrow> filesystem \<Rightarrow> (exn, unit) result \<times> filesystem" where
  "local_store_delete key fs = alone (local_delete (\<lambda>_. True) key) fs"

lemma local_store_eqs:
  assumes "is_storage_key key"
  shows "local_store_put key data fs =
      (Inr (fst (object_put key data (fs_objects fs))), fs\<lparr>fs_objects := snd (object_put key data (fs_objects fs))\<rparr>)"
    and "local_store_get key fs = object_get key (fs_objects fs)"
    and "local_store_delete key fs = (Inr (), fs\<lparr>fs_objects := object_delete key (fs_objects fs)\<rparr>)"
  using assms by (simp_all add: local_store_put_def local_store_get_def local_store_delete_def alone_def
      local_put_refines local_get_refines local_delete_refines free_name_free)

interpretation local_store: object_store local_store_put local_store_get local_store_delete is_storage_key
  by unfold_locales
    (auto simp: local_store_eqs object_put_def object_get_def object_delete_def split: option.splits)

section \<open>Writers that race and die\<close>

text \<open>
  The claim of a writer is its temporary file, by name and contents. Names are exclusive, so no
  other writer touches it, and what is linked into place is complete.
\<close>

datatype write_phase = NoTemp | Temp nat bytes

fun temp_holds :: "write_phase \<Rightarrow> filesystem \<Rightarrow> bool" where
  "temp_holds NoTemp fs \<longleftrightarrow> True"
| "temp_holds (Temp n d) fs \<longleftrightarrow> map_of (fs_temporaries fs) n = Some d"

fun temp_apart :: "write_phase \<Rightarrow> write_phase \<Rightarrow> bool" where
  "temp_apart (Temp m d) (Temp n e) \<longleftrightarrow> m \<noteq> n"
| "temp_apart _ _ \<longleftrightarrow> True"

definition objects_satisfy :: "(ustr \<Rightarrow> bytes \<Rightarrow> bool) \<Rightarrow> filesystem \<Rightarrow> bool" where
  "objects_satisfy ok fs \<longleftrightarrow> (\<forall>k b. fs_objects fs k = Some b \<longrightarrow> ok k b)"

lemma temp_apart_NoTemp [simp]: "temp_apart NoTemp x" "temp_apart x NoTemp"
  by (cases x; simp)+

lemma temp_apart_sym: "temp_apart x y \<Longrightarrow> temp_apart y x"
  by (cases x; cases y) auto

interpretation writers: protocol "objects_satisfy ok" temp_holds temp_apart no_late_failure NoTemp
  for ok :: "ustr \<Rightarrow> bytes \<Rightarrow> bool"
  by unfold_locales (auto intro: temp_apart_sym)

abbreviation writer_safe ::
  "(ustr \<Rightarrow> bytes \<Rightarrow> bool) \<Rightarrow> (filesystem, 'a) prog \<Rightarrow> write_phase
   \<Rightarrow> ((exn, 'a) result \<Rightarrow> write_phase \<Rightarrow> bool) \<Rightarrow> bool" where
  "writer_safe ok \<equiv> safe (objects_satisfy ok) temp_holds temp_apart no_late_failure"

lemma map_of_filter_other: "m \<noteq> n \<Longrightarrow> map_of (filter (\<lambda>t. fst t \<noteq> n) ts) m = map_of ts m"
  by (induction ts) auto

lemma map_of_write:
  "map_of (map (\<lambda>t. if fst t = n then (n, d) else t) ts) m =
     (if m = n then map_option (\<lambda>_. d) (map_of ts n) else map_of ts m)"
  by (induction ts) auto

lemma temp_holds_frame:
  "temp_holds x fs \<Longrightarrow> (\<And>n d. x = Temp n d \<Longrightarrow> map_of (fs_temporaries fs') n = map_of (fs_temporaries fs) n)
     \<Longrightarrow> temp_holds x fs'"
  by (cases x) auto

lemma safe_unlink: "writer_safe ok (unlink_temporary n) (Temp n d) (\<lambda>_ _. True)"
  unfolding unlink_temporary_def
  by (rule safe_call)
    (auto simp: objects_satisfy_def map_of_filter_other intro!: exI [of _ NoTemp] elim!: temp_holds_frame)

lemma safe_link:
  assumes "ok path data"
  shows "writer_safe ok (link_temporary n path) (Temp n data) (\<lambda>_ ph. ph = Temp n data)"
  unfolding link_temporary_def
  by (rule safe_call)
    (use assms in \<open>auto simp: objects_satisfy_def split: option.splits elim!: temp_holds_frame\<close>)

lemma safe_write:
  "writer_safe ok (write_temporary n data) (Temp n d)
     (\<lambda>r ph. (r = Inr () \<and> ph = Temp n data) \<or> (\<exists>e. r = Inl e) \<and> ph = Temp n d)"
  unfolding write_temporary_def
  by (rule safe_call)
    (auto simp: objects_satisfy_def map_of_write intro!: exI [of _ "Temp n data"] elim!: temp_holds_frame
      elim: temp_apart.elims)

lemma safe_make:
  "writer_safe ok (make_temporary n) NoTemp
     (\<lambda>r ph. (r = Inr () \<and> ph = Temp n []) \<or> (\<exists>e. r = Inl e) \<and> ph = NoTemp)"
  unfolding make_temporary_def
proof (rule safe_callI)
  fix fs r fs'
  assume I: "objects_satisfy ok fs"
    and f: "(if map_of (fs_temporaries fs) n \<noteq> None then (Inl OSError, fs)
      else (Inr (), fs\<lparr>fs_temporaries := (n, []) # fs_temporaries fs\<rparr>)) = (r, fs')"
  show "objects_satisfy ok fs' \<and> (\<exists>ph'. temp_holds ph' fs' \<and>
      (r = Inr () \<and> ph' = Temp n [] \<or> (\<exists>e. r = Inl e) \<and> ph' = NoTemp) \<and>
      (\<forall>o'. temp_apart NoTemp o' \<longrightarrow> temp_holds o' fs \<longrightarrow> temp_apart ph' o' \<and> temp_holds o' fs'))"
  proof (cases "map_of (fs_temporaries fs) n")
    case None
    have "temp_apart (Temp n []) x \<and> temp_holds x (fs\<lparr>fs_temporaries := (n, []) # fs_temporaries fs\<rparr>)"
      if "temp_holds x fs" for x
      using that None by (cases x) auto
    with None I f show ?thesis by (auto simp: objects_satisfy_def intro!: exI [of _ "Temp n []"])
  next
    case (Some d)
    with I f show ?thesis by (auto intro!: exI [of _ NoTemp])
  qed
qed simp

lemma safe_put:
  assumes "ok key data"
  shows "writer_safe ok (local_put inside n key data) NoTemp (\<lambda>_ _. True)"
proof -
  have tail: "writer_safe ok (finallyP
      (bindP (write_temporary n data) (\<lambda>_. bindP (link_temporary n key) (\<lambda>created.
         if \<not> created then Return False else bindP fsync_directory (\<lambda>_. Return True))))
      (unlink_temporary n)) (Temp n []) (\<lambda>_ _. True)"
    unfolding finallyP_def
  proof (rule safe_tryP [where R = "\<lambda>_ ph. \<exists>d. ph = Temp n d"])
    show "writer_safe ok (bindP (write_temporary n data) (\<lambda>_. bindP (link_temporary n key) (\<lambda>created.
         if \<not> created then Return False else bindP fsync_directory (\<lambda>_. Return True)))) (Temp n [])
         (\<lambda>_ ph. \<exists>d. ph = Temp n d)"
    proof (rule safe_bindP [OF safe_write])
      fix a ph' assume "(Inr a = (Inr () :: (exn, unit) result) \<and> ph' = Temp n data) \<or>
        (\<exists>e. (Inr a :: (exn, unit) result) = Inl e) \<and> ph' = Temp n []"
      then have ph: "ph' = Temp n data" by auto
      show "writer_safe ok (bindP (link_temporary n key) (\<lambda>created.
         if \<not> created then Return False else bindP fsync_directory (\<lambda>_. Return True))) ph'
         (\<lambda>_ ph. \<exists>d. ph = Temp n d)"
        unfolding ph
      proof (rule safe_bindP [OF safe_link [of ok key data n, OF assms]])
        fix created ph2 assume "ph2 = Temp n data"
        moreover have "writer_safe ok fsync_directory (Temp n data) (\<lambda>_ ph. ph = Temp n data)"
          unfolding fsync_directory_def by (rule safe_callI) auto
        ultimately show "writer_safe ok (if \<not> created then Return False
            else bindP fsync_directory (\<lambda>_. Return True)) ph2 (\<lambda>_ ph. \<exists>d. ph = Temp n d)"
          by (auto intro: safe_bindP)
      qed auto
    qed auto
  qed (auto intro!: safe_bindP [OF safe_unlink])
  show ?thesis
    unfolding local_put_def put_sync_def storage_errors_def catchP_def path_for_def
    by (auto intro!: safe_tryP [where R = "\<lambda>_ _. True"] safe_bindP [OF safe_query [where Q = "\<lambda>_ ph. ph = NoTemp"]]
        safe_bindP [OF safe_make] tail)
qed

lemma safe_get: "writer_safe ok (local_get inside key) NoTemp (\<lambda>_ _. True)"
  unfolding local_get_def get_sync_def storage_errors_def catchP_def path_for_def
  by (auto intro!: safe_tryP [where R = "\<lambda>_ _. True"] safe_query)

lemma safe_delete: "writer_safe ok (local_delete inside key) NoTemp (\<lambda>_ _. True)"
  unfolding local_delete_def delete_sync_def storage_errors_def catchP_def path_for_def object_delete_def
  by (auto intro!: safe_tryP [where R = "\<lambda>_ _. True"] safe_callI simp: objects_satisfy_def elim!: temp_holds_frame)

text \<open>What runs against the directory: writes of content at its own key, and deletions.\<close>

definition storage_client :: "(ustr \<Rightarrow> bytes \<Rightarrow> bool) \<Rightarrow> (filesystem, bool) prog \<Rightarrow> bool" where
  "storage_client ok p \<longleftrightarrow>
     (\<exists>inside n key data. ok key data \<and> p = local_put inside n key data)
     \<or> (\<exists>inside key. p = bindP (local_delete inside key) (\<lambda>_. Return True))"

lemma safe_storage_client: "storage_client ok p \<Longrightarrow> writer_safe ok p NoTemp (\<lambda>_ _. True)"
  by (auto simp: storage_client_def intro!: safe_put safe_bindP [OF safe_delete])

section \<open>Properties\<close>

text \<open>
  C33. The local backend implements the contract of \<open>Storage\<close>: run alone, a write, a read and a
  deletion do to the directory exactly what the contract says they do to a map from keys to contents,
  no temporary file is left behind, and a key that is not one is refused before the disk is touched.
\<close>

theorem local_storage_refines_the_contract:
  assumes "inside key" and "map_of (fs_temporaries fs) name = None"
  shows "if is_storage_key key
    then run (local_put inside name key data) [] fs =
        (Inr (fst (object_put key data (fs_objects fs))), [], fs\<lparr>fs_objects := snd (object_put key data (fs_objects fs))\<rparr>)
      \<and> run (local_get inside key) [] fs = (object_get key (fs_objects fs), [], fs)
      \<and> run (local_delete inside key) [] fs = (Inr (), [], fs\<lparr>fs_objects := object_delete key (fs_objects fs)\<rparr>)
    else \<forall>cs. run (local_put inside name key data) cs fs = (Inl StorageError, cs, fs)
      \<and> run (local_get inside key) cs fs = (Inl StorageError, cs, fs)
      \<and> run (local_delete inside key) cs fs = (Inl StorageError, cs, fs)"
  using local_put_refines [of key inside fs name data] local_get_refines [of key inside fs] local_delete_refines [of key inside fs]
    local_refuses [of key] assms
  by simp

definition empty_directory :: filesystem where
  "empty_directory = \<lparr>fs_objects = Map.empty, fs_temporaries = []\<rparr>"

definition example_key :: ustr where
  "example_key = uuid_str 1 @ [47] @ replicate 64 97 @ py_str ''.pdf''"

lemma example_key_derived: "document_storage_key ascii_unicode (uuid_str 1) (replicate 64 97) = Inr example_key"
  by (simp add: document_storage_key_def example_key_def is_sha256_hex_def is_lower_hex_def list_all_iff)

lemmas example_key_valid = storage_key_valid [OF example_key_derived]

theorem local_storage_refines_the_contract_witness:
  "run (local_put (\<lambda>_. True) 0 example_key [1]) [] empty_directory =
     (Inr True, [], empty_directory\<lparr>fs_objects := [example_key \<mapsto> [1]]\<rparr>)"
  using local_storage_refines_the_contract [of "\<lambda>_. True" example_key empty_directory 0 "[1]"] example_key_valid
  by (simp add: empty_directory_def object_put_def)

text \<open>
  C34. An object is complete or absent. Whatever writers and deleters run against one directory, in any
  interleaving, each of them failing or dying at any system call, every object that can be read is the
  whole content some writer put under that key: if every writer writes content that belongs to its key,
  so does every object, and no half-written one is ever seen.
\<close>

theorem objects_are_complete_or_absent:
  assumes "reachable no_late_failure (storage_client ok) fs0 (fs, ps)" and "objects_satisfy ok fs0"
    and "fs_objects fs key = Some data"
  shows "ok key data"
  using writers.pool_invariant [OF assms(1,2) safe_storage_client] assms(3) by (simp add: objects_satisfy_def)

theorem objects_are_complete_or_absent_witness:
  "\<exists>fs ps. reachable no_late_failure (storage_client (\<lambda>_ d. d = [1])) empty_directory (fs, ps)
     \<and> fs_objects fs example_key = Some [1] \<and> (\<lambda>_ d. d = [1]) example_key ([1] :: bytes)"
proof -
  let ?p = "local_put (\<lambda>_. True) 0 example_key [1]" and ?fs = "empty_directory\<lparr>fs_objects := [example_key \<mapsto> [1]]\<rparr>"
  have "storage_client (\<lambda>_ d. d = [1]) ?p" by (auto simp: storage_client_def)
  then have "reachable no_late_failure (storage_client (\<lambda>_ d. d = [1])) empty_directory (empty_directory, [] @ ?p # [])"
    using reachable.further [OF reachable.initial pool_step.start] by simp
  moreover have "run ?p [] empty_directory = (Inr True, [], ?fs)"
    using local_put_refines [of example_key "\<lambda>_. True" empty_directory 0 "[1]"] example_key_valid
    by (simp add: empty_directory_def object_put_def)
  ultimately have "reachable no_late_failure (storage_client (\<lambda>_ d. d = [1])) empty_directory (?fs, [of_result (Inr True)])"
    using run_reachable [where xs = "[]" and ys = "[]"] by (fastforce simp: no_late_failure_def)
  moreover have "(\<lambda>_ d. d = [1]) example_key ([1] :: bytes)"
    using objects_are_complete_or_absent [OF calculation, of example_key "[1]"]
    by (simp add: objects_satisfy_def empty_directory_def)
  ultimately show ?thesis by fastforce
qed

text \<open>
  A storage key names one user's one content. A key the service derives is well formed, lower-case
  hexadecimal with its separators and nothing else, so it cannot leave the directory; and two uploads
  share a key only if they are the same content of the same user.
\<close>

theorem storage_keys_are_safe:
  assumes "document_storage_key U owner h = Inr key"
  shows "is_storage_key key \<and> length key = 105 \<and> set key \<subseteq> set (py_str ''0123456789abcdef-/.pdf'')
    \<and> (\<forall>owner' h'. document_storage_key U owner' h' = Inr key \<longrightarrow> uuid_of_text U owner' = uuid_of_text U owner \<and> h' = h)"
proof -
  obtain w where k: "key = uuid_str w @ [47] @ h @ py_str ''.pdf''" and h: "is_sha256_hex h"
    using assms by (auto simp: document_storage_key_def split: option.splits if_splits)
  have hex: "is_lower_hex c \<Longrightarrow> c \<in> set (py_str ''0123456789abcdef'')" for c
    by (simp add: is_lower_hex_def) presburger
  have "set h \<subseteq> set (py_str ''0123456789abcdef'')" "length h = 64"
    using h hex by (auto simp: is_sha256_hex_def list_all_iff)
  moreover have "set (uuid_str w) \<subseteq> insert 45 (set (py_str ''0123456789abcdef''))"
    using uuid_str_chars hex by blast
  ultimately show ?thesis
    using storage_key_valid [OF assms] storage_key_inject [OF assms] k by auto
qed

theorem storage_keys_are_safe_witness: "length example_key = 105 \<and> is_storage_key example_key"
  using storage_keys_are_safe [OF example_key_derived] by simp

end
