(* ===== verification/IngestionService.thy ===== *)
theory IngestionService
  imports ChunkRepository VectorStore ObjectStorage
begin

text \<open>
  \<open>backend/services/ingestion_service.py\<close>: one delivery of an ingestion job, the reaper, the
  recovery sweep and the record of a job that was given up. Each is a coroutine over the world the
  processes share: the database, the stored objects, the vector store and the queue. A database
  transaction is one \<open>await\<close>: its first statement is an UPDATE that locks the document's row until
  the commit, so no other transaction that matches the row runs in between, and whatever is raised
  before the commit rolls all of it back. A read and the rollback that ends it are one \<open>await\<close>
  too. Log calls are left out.
\<close>

section \<open>The world and the collaborators\<close>

record ('q, 'r) world =
  w_db :: database
  w_objects :: objects
  w_points :: 'q
  w_queue :: 'r

text \<open>
  What the service is constructed with. The protocols it depends on (extractor, chunker, embedder)
  are functions; SHA-256 and \<open>uuid5\<close> are functions; the vector store is the adapter over the
  \<open>qdrant\<close> record, and \<open>sv_enqueue\<close> is the queue, which answers whether this call queued the job.
\<close>

record ('q, 'r) service =
  sv_unicode :: unicode
  sv_uuid5 :: "uuid \<Rightarrow> ustr \<Rightarrow> uuid"
  sv_content_hash :: "bytes \<Rightarrow> ustr"
  sv_extract :: "bytes \<Rightarrow> int \<Rightarrow> (exn, ExtractedText) result"
  sv_chunk :: "ExtractedPage list \<Rightarrow> (exn, ChunkingResult) result"
  sv_embed :: "ustr list \<Rightarrow> (exn, vector list) result"
  sv_model_id :: ustr
  sv_dimension :: int
  sv_qdrant :: "'q qdrant"
  sv_enqueue :: "IngestionJob \<Rightarrow> 'r \<Rightarrow> (exn, bool) result \<times> 'r"
  sv_max_pages :: int
  sv_version :: "ustr \<times> ustr"

definition db_tx ::
  "(database \<Rightarrow> (exn, 'a \<times> database) result) \<Rightarrow> (('q, 'r) world, 'a) prog" where
  "db_tx f = call (\<lambda>w.
     case f (w_db w) of Inl e \<Rightarrow> (Inl e, w) | Inr (a, db') \<Rightarrow> (Inr a, w\<lparr>w_db := db'\<rparr>))"

definition db_read :: "(database \<Rightarrow> (exn, 'a) result) \<Rightarrow> (('q, 'r) world, 'a) prog" where
  "db_read f = query (\<lambda>w. f (w_db w))"

lemma run_db_tx:
  "run (db_tx f) [] w = (case f (w_db w) of Inl e \<Rightarrow> (Inl e, [], w) | Inr (a, db') \<Rightarrow> (Inr a, [], w\<lparr>w_db := db'\<rparr>))"
  by (auto simp: db_tx_def run_call split: sum.splits)

text \<open>An operation on the stores that are not the database.\<close>

definition vectors_call :: "('q \<Rightarrow> (exn, 'a) result \<times> 'q) \<Rightarrow> (('q, 'r) world, 'a) prog" where
  "vectors_call f = call (\<lambda>w. case f (w_points w) of (r, s) \<Rightarrow> (r, w\<lparr>w_points := s\<rparr>))"

definition storage_get :: "ustr \<Rightarrow> (('q, 'r) world, bytes) prog" where
  "storage_get key = query (\<lambda>w.
     if is_storage_key key then object_get key (w_objects w) else Inl StorageError)"

text \<open>CPU work in a thread: a value, computed at an \<open>await\<close>.\<close>

definition in_thread :: "(exn, 'a) result \<Rightarrow> (('q, 'r) world, 'a) prog" where
  "in_thread r = query (\<lambda>_. r)"

section \<open>Constants\<close>

definition RECOVERABLE_STATUSES :: "DocumentStatus list" where
  "RECOVERABLE_STATUSES = [DocumentStatus.PENDING, DocumentStatus.PARSED, DocumentStatus.CHUNKED]"

datatype Stage = PARSE | CHUNK | EMBED

fun starts_at :: "Stage \<Rightarrow> DocumentStatus" where
  "starts_at PARSE = DocumentStatus.PENDING"
| "starts_at CHUNK = DocumentStatus.PARSED"
| "starts_at EMBED = DocumentStatus.CHUNKED"

section \<open>Results\<close>

definition rejected :: "IngestionJob \<Rightarrow> IngestionReason \<Rightarrow> IngestionResult" where
  "rejected job reason = \<lparr>res_outcome = IngestionOutcome.REJECTED,
     res_document_id = Some (job_document_id job), res_reason = Some reason\<rparr>"

definition skipped :: "IngestionJob \<Rightarrow> IngestionOutcome \<Rightarrow> IngestionResult" where
  "skipped job outcome = \<lparr>res_outcome = outcome,
     res_document_id = Some (job_document_id job), res_reason = None\<rparr>"

definition claim_lost :: "IngestionJob \<Rightarrow> IngestionResult" where
  "claim_lost job = \<lparr>res_outcome = IngestionOutcome.CLAIM_LOST,
     res_document_id = Some (job_document_id job), res_reason = None\<rparr>"

definition failed :: "IngestionJob \<Rightarrow> IngestionReason \<Rightarrow> IngestionResult" where
  "failed job reason = \<lparr>res_outcome = IngestionOutcome.FAILED,
     res_document_id = Some (job_document_id job), res_reason = Some reason\<rparr>"

definition finished :: "IngestionJob \<Rightarrow> IngestionOutcome \<Rightarrow> IngestionResult" where
  "finished job outcome = \<lparr>res_outcome = outcome,
     res_document_id = Some (job_document_id job), res_reason = None\<rparr>"

section \<open>Checks\<close>

definition job_disagrees_with :: "IngestionJob \<Rightarrow> IngestionTarget \<Rightarrow> IngestionReason option" where
  "job_disagrees_with job target =
     (if tgt_owner_id target \<noteq> job_owner_id job then Some OWNERSHIP_MISMATCH
      else if tgt_content_hash target \<noteq> Some (job_content_hash job) then Some CONTENT_HASH_MISMATCH
      else if tgt_storage_key target \<noteq> Some (job_storage_key job) then Some STORAGE_KEY_MISMATCH
      else if tgt_mime_type target \<noteq> Some (job_mime_type job) then Some MIME_TYPE_MISMATCH
      else None)"

section \<open>Transitions\<close>

definition transition ::
  "('q, 'r) service \<Rightarrow> IngestionJob \<Rightarrow> DocumentStatus \<Rightarrow> DocumentStatus \<Rightarrow> IngestionReason option
   \<Rightarrow> (('q, 'r) world, bool) prog" where
  "transition sv job expected new reason =
     db_tx (documents_transition_status_for_user (sv_unicode sv) (job_document_id job) (job_owner_id job)
       expected new (map_option (\<lambda>r. py_str (reason_value r)) reason) None)"

definition fail ::
  "('q, 'r) service \<Rightarrow> IngestionJob \<Rightarrow> IngestionReason \<Rightarrow> (('q, 'r) world, IngestionResult) prog" where
  "fail sv job reason =
     bindP (transition sv job DocumentStatus.PROCESSING DocumentStatus.FAILED (Some reason)) (\<lambda>moved.
       if \<not> moved then Return (claim_lost job) else Return (failed job reason))"

definition transient ::
  "('q, 'r) service \<Rightarrow> IngestionJob \<Rightarrow> IngestionReason \<Rightarrow> bool \<Rightarrow> DocumentStatus
   \<Rightarrow> (('q, 'r) world, IngestionResult) prog" where
  "transient sv job reason final_attempt release_to =
     (if final_attempt then fail sv job reason
      else bindP (transition sv job DocumentStatus.PROCESSING release_to None) (\<lambda>released.
        if \<not> released then Return (claim_lost job) else Raise (TransientIngestionError reason)))"

text \<open>Shielded from the cancellation that caused it: whatever it raises is logged and dropped.\<close>

definition release_after_interruption ::
  "('q, 'r) service \<Rightarrow> IngestionJob \<Rightarrow> DocumentStatus \<Rightarrow> (('q, 'r) world, unit) prog" where
  "release_after_interruption sv job release_to =
     tryP (transition sv job DocumentStatus.PROCESSING release_to None) (\<lambda>_. Return ()) (\<lambda>_. Return ())"

section \<open>Parsing\<close>

definition store_parsed ::
  "('q, 'r) service \<Rightarrow> IngestionJob \<Rightarrow> ExtractedText \<Rightarrow> database \<Rightarrow> (exn, bool \<times> database) result" where
  "store_parsed sv job extracted db =
     bind_result (documents_transition_status_for_user (sv_unicode sv) (job_document_id job)
         (job_owner_id job) DocumentStatus.PROCESSING DocumentStatus.PARSED None None db)
       (\<lambda>(moved, db1).
         if \<not> moved then Inr (False, db)
         else bind_result (pages_add_for_user (sv_unicode sv) (job_document_id job) (job_owner_id job)
             (et_pages extracted) db1) (\<lambda>db2. Inr (True, db2)))"

definition keep_parsed ::
  "('q, 'r) service \<Rightarrow> IngestionJob \<Rightarrow> IngestionTarget \<Rightarrow> bool \<Rightarrow> ExtractedText
   \<Rightarrow> (('q, 'r) world, IngestionResult) prog" where
  "keep_parsed sv job target final_attempt extracted =
     (if tgt_page_count target \<noteq> None \<and> tgt_page_count target \<noteq> Some (et_page_count extracted)
      then fail sv job PAGE_COUNT_MISMATCH
      else if \<not> has_text extracted then fail sv job NO_EXTRACTABLE_TEXT
      else tryP (db_tx (store_parsed sv job extracted))
        (\<lambda>e. if is_Exception e then transient sv job PROCESSING_FAILURE final_attempt DocumentStatus.PENDING
          else Raise e)
        (\<lambda>stored. if \<not> stored then Return (claim_lost job)
          else Return (finished job IngestionOutcome.PARSED)))"

text \<open>\<open>IngestionReason(exc.reason.value)\<close> is evaluated in the handler, so a value without a member escapes.\<close>

definition extraction_failed ::
  "('q, 'r) service \<Rightarrow> IngestionJob \<Rightarrow> bool \<Rightarrow> exn \<Rightarrow> (('q, 'r) world, IngestionResult) prog" where
  "extraction_failed sv job final_attempt e =
     (case e of
        PdfExtractionError failure \<Rightarrow>
          (case reason_of_value (extraction_value failure) of
             None \<Rightarrow> Raise ValueError
           | Some reason \<Rightarrow>
               (if extraction_transient failure
                then transient sv job reason final_attempt DocumentStatus.PENDING
                else fail sv job reason))
      | _ \<Rightarrow>
          (if is_Exception e
           then transient sv job PROCESSING_FAILURE final_attempt DocumentStatus.PENDING
           else Raise e))"

definition process_claimed ::
  "('q, 'r) service \<Rightarrow> IngestionJob \<Rightarrow> IngestionTarget \<Rightarrow> bool
   \<Rightarrow> (('q, 'r) world, IngestionResult) prog" where
  "process_claimed sv job target final_attempt =
     (if tgt_mime_type target \<noteq> Some PDF_MIME_TYPE then fail sv job UNSUPPORTED_MIME_TYPE
      else if (case tgt_page_count target of None \<Rightarrow> False | Some n \<Rightarrow> sv_max_pages sv < n)
      then fail sv job IngestionReason.PAGE_LIMIT_EXCEEDED
      else tryP (storage_get (job_storage_key job))
        (\<lambda>e. if e = StorageObjectMissing then fail sv job STORAGE_MISSING
          else if is_StorageError e
          then transient sv job STORAGE_READ_FAILURE final_attempt DocumentStatus.PENDING
          else if is_Exception e
          then transient sv job PROCESSING_FAILURE final_attempt DocumentStatus.PENDING
          else Raise e)
        (\<lambda>content.
          bindP (in_thread (Inr (sv_content_hash sv content))) (\<lambda>actual.
            if Some actual \<noteq> tgt_content_hash target then fail sv job CONTENT_HASH_MISMATCH
            else tryP (in_thread (sv_extract sv content (sv_max_pages sv)))
              (extraction_failed sv job final_attempt)
              (keep_parsed sv job target final_attempt))))"

section \<open>Chunking\<close>

definition store_chunks ::
  "('q, 'r) service \<Rightarrow> IngestionJob \<Rightarrow> ChunkingResult \<Rightarrow> database \<Rightarrow> (exn, bool \<times> database) result" where
  "store_chunks sv job chunking db =
     bind_result (documents_transition_status_for_user (sv_unicode sv) (job_document_id job)
         (job_owner_id job) DocumentStatus.PROCESSING DocumentStatus.CHUNKED None
         (Some (int (length (cr_chunks chunking)))) db)
       (\<lambda>(moved, db1).
         if \<not> moved then Inr (False, db)
         else bind_result (chunks_add_many (sv_unicode sv) (sv_uuid5 sv) (job_document_id job)
             (job_owner_id job) chunking db1) (\<lambda>(_, db2). Inr (True, db2)))"

definition read_pages ::
  "('q, 'r) service \<Rightarrow> IngestionJob \<Rightarrow> (('q, 'r) world, ExtractedPage list) prog" where
  "read_pages sv job = db_read (pages_list_for_document (sv_unicode sv) (job_document_id job) (job_owner_id job))"

definition chunk_claimed ::
  "('q, 'r) service \<Rightarrow> IngestionJob \<Rightarrow> bool \<Rightarrow> (('q, 'r) world, IngestionResult) prog" where
  "chunk_claimed sv job final_attempt =
     bindP (read_pages sv job) (\<lambda>pages.
       if pages = [] then fail sv job NO_EXTRACTED_PAGES
       else tryP (in_thread (sv_chunk sv pages))
         (\<lambda>e. if is_Exception e then transient sv job CHUNKING_FAILURE final_attempt DocumentStatus.PARSED
           else Raise e)
         (\<lambda>chunking.
           if cr_chunks chunking = [] then fail sv job NO_CHUNKS_PRODUCED
           else tryP (db_tx (store_chunks sv job chunking))
             (\<lambda>e. if is_Exception e then transient sv job CHUNKING_FAILURE final_attempt DocumentStatus.PARSED
               else Raise e)
             (\<lambda>stored. if \<not> stored then Return (claim_lost job)
               else Return (finished job IngestionOutcome.CHUNKED))))"

section \<open>Embedding\<close>

definition replace_chunks ::
  "('q, 'r) service \<Rightarrow> IngestionJob \<Rightarrow> ChunkingResult \<Rightarrow> database \<Rightarrow> (exn, bool \<times> database) result" where
  "replace_chunks sv job chunking db =
     bind_result (documents_transition_status_for_user (sv_unicode sv) (job_document_id job)
         (job_owner_id job) DocumentStatus.PROCESSING DocumentStatus.PROCESSING None
         (Some (int (length (cr_chunks chunking)))) db)
       (\<lambda>(moved, db1).
         if \<not> moved then Inr (False, db)
         else bind_result (chunks_delete_for_document (sv_unicode sv) (job_document_id job)
             (job_owner_id job) db1) (\<lambda>(_, db2).
           bind_result (chunks_add_many (sv_unicode sv) (sv_uuid5 sv) (job_document_id job)
             (job_owner_id job) chunking db2) (\<lambda>(_, db3). Inr (True, db3))))"

text \<open>\<open>None\<close>: the document is ready to embed; a result: the delivery is over.\<close>

definition rechunk ::
  "('q, 'r) service \<Rightarrow> IngestionJob \<Rightarrow> bool \<Rightarrow> (('q, 'r) world, IngestionResult option) prog" where
  "rechunk sv job final_attempt =
     bindP (read_pages sv job) (\<lambda>pages.
       if pages = [] then bindP (fail sv job NO_CHUNKS_TO_EMBED) (\<lambda>r. Return (Some r))
       else tryP (in_thread (sv_chunk sv pages))
         (\<lambda>e. if is_Exception e
           then bindP (transient sv job CHUNKING_FAILURE final_attempt DocumentStatus.CHUNKED) (\<lambda>r. Return (Some r))
           else Raise e)
         (\<lambda>chunking.
           if cr_chunks chunking = [] then bindP (fail sv job NO_CHUNKS_PRODUCED) (\<lambda>r. Return (Some r))
           else tryP (vectors_call (vectors_delete_document (sv_qdrant sv) (job_document_id job) (job_owner_id job)))
             (\<lambda>e. if e = VectorStoreError
               then bindP (transient sv job VECTOR_STORE_FAILURE final_attempt DocumentStatus.CHUNKED) (\<lambda>r. Return (Some r))
               else Raise e)
             (\<lambda>_. tryP (db_tx (replace_chunks sv job chunking))
               (\<lambda>e. if is_Exception e
                 then bindP (transient sv job CHUNKING_FAILURE final_attempt DocumentStatus.CHUNKED) (\<lambda>r. Return (Some r))
                 else Raise e)
               (\<lambda>replaced. if \<not> replaced then Return (Some (claim_lost job)) else Return None))))"

definition store_ready ::
  "('q, 'r) service \<Rightarrow> IngestionJob \<Rightarrow> database \<Rightarrow> (exn, bool \<times> database) result" where
  "store_ready sv job db =
     bind_result (documents_transition_status_for_user (sv_unicode sv) (job_document_id job)
         (job_owner_id job) DocumentStatus.PROCESSING DocumentStatus.READY None None db)
       (\<lambda>(moved, db1).
         if \<not> moved then Inr (False, db)
         else bind_result (chunks_mark_embedded (sv_unicode sv) (job_document_id job) (job_owner_id job)
             (sv_model_id sv) (sv_dimension sv) db1) (\<lambda>(_, db2). Inr (True, db2)))"

definition payload_for ::
  "('q, 'r) service \<Rightarrow> IngestionJob \<Rightarrow> DocumentChunk \<Rightarrow> (exn, VectorPayload) result" where
  "payload_for sv job c =
     (case (dc_page_start c, dc_page_end c) of
        (Some p1, Some p2) \<Rightarrow>
          Inr \<lparr>vp_user_id = job_owner_id job, vp_document_id = job_document_id job,
               vp_chunk_id = dc_id c, vp_chunk_index = dc_chunk_index c, vp_section = dc_section c,
               vp_page_start = p1, vp_page_end = p2, vp_strategy_version = fst (sv_version sv),
               vp_tokenizer_id = snd (sv_version sv), vp_embedding_model_id = sv_model_id sv,
               vp_dimension = sv_dimension sv\<rparr>
      | _ \<Rightarrow> Inl ValueError)"

definition vector_record ::
  "('q, 'r) service \<Rightarrow> IngestionJob \<Rightarrow> DocumentChunk \<times> vector \<Rightarrow> (exn, VectorRecord) result" where
  "vector_record sv job cv =
     bind_result (payload_for sv job (fst cv)) (\<lambda>p.
       Inr \<lparr>vr_id = dc_id (fst cv), vr_vector = snd cv, vr_payload = p\<rparr>)"

definition keep_ready ::
  "('q, 'r) service \<Rightarrow> IngestionJob \<Rightarrow> bool \<Rightarrow> DocumentChunk list \<Rightarrow> vector list
   \<Rightarrow> (('q, 'r) world, IngestionResult) prog" where
  "keep_ready sv job final_attempt chunks vectors =
     (if list_ex (\<lambda>v. int (length v) \<noteq> sv_dimension sv) vectors
      then fail sv job EMBEDDING_DIMENSION_MISMATCH
      else tryP (of_result (map_result (vector_record sv job) (zip chunks vectors)))
        (\<lambda>e. if is_ValueError e then fail sv job PROCESSING_FAILURE else Raise e)
        (\<lambda>records. tryP (vectors_call (vectors_upsert (sv_qdrant sv) records))
          (\<lambda>e. if e = VectorStoreError
            then transient sv job VECTOR_STORE_FAILURE final_attempt DocumentStatus.CHUNKED else Raise e)
          (\<lambda>_. tryP (db_tx (store_ready sv job))
            (\<lambda>e. if is_Exception e
              then transient sv job PROCESSING_FAILURE final_attempt DocumentStatus.CHUNKED else Raise e)
            (\<lambda>stored. if \<not> stored then Return (claim_lost job)
              else Return (finished job IngestionOutcome.READY)))))"

definition embed_chunks ::
  "('q, 'r) service \<Rightarrow> IngestionJob \<Rightarrow> bool \<Rightarrow> (('q, 'r) world, IngestionResult) prog" where
  "embed_chunks sv job final_attempt =
     bindP (db_read (\<lambda>db. Inr (chunks_list_for_document (sv_unicode sv) (job_document_id job) (job_owner_id job) db)))
       (\<lambda>chunks.
         if chunks = [] then fail sv job NO_CHUNKS_TO_EMBED
         else tryP (in_thread (sv_embed sv (map dc_content chunks)))
           (\<lambda>e. if e = EmbeddingError
             then transient sv job EMBEDDING_FAILURE final_attempt DocumentStatus.CHUNKED else Raise e)
           (keep_ready sv job final_attempt chunks))"

definition embed_claimed ::
  "('q, 'r) service \<Rightarrow> IngestionJob \<Rightarrow> bool \<Rightarrow> (('q, 'r) world, IngestionResult) prog" where
  "embed_claimed sv job final_attempt =
     bindP (db_read (\<lambda>db. Inr (chunks_provenance_for_document (sv_unicode sv) (job_document_id job) (job_owner_id job) db)))
       (\<lambda>provenance.
         if provenance = {} then fail sv job NO_CHUNKS_TO_EMBED
         else if provenance \<noteq> {sv_version sv}
         then bindP (rechunk sv job final_attempt) (\<lambda>over.
           case over of Some r \<Rightarrow> Return r | None \<Rightarrow> embed_chunks sv job final_attempt)
         else embed_chunks sv job final_attempt)"

section \<open>One delivery\<close>

definition run_claimed ::
  "('q, 'r) service \<Rightarrow> IngestionJob \<Rightarrow> IngestionTarget \<Rightarrow> Stage \<Rightarrow> bool
   \<Rightarrow> (('q, 'r) world, IngestionResult) prog" where
  "run_claimed sv job target stage final_attempt =
     (case stage of
        PARSE \<Rightarrow> process_claimed sv job target final_attempt
      | CHUNK \<Rightarrow> chunk_claimed sv job final_attempt
      | EMBED \<Rightarrow> embed_claimed sv job final_attempt)"

definition run_stage ::
  "('q, 'r) service \<Rightarrow> IngestionJob \<Rightarrow> IngestionTarget \<Rightarrow> Stage \<Rightarrow> bool
   \<Rightarrow> (('q, 'r) world, IngestionResult) prog" where
  "run_stage sv job target stage final_attempt =
     bindP (transition sv job (starts_at stage) DocumentStatus.PROCESSING None) (\<lambda>claimed.
       if \<not> claimed then Return (skipped job SKIPPED_IN_PROGRESS)
       else tryP (run_claimed sv job target stage final_attempt)
         (\<lambda>e. if e = CancelledError
           then bindP (release_after_interruption sv job (starts_at stage)) (\<lambda>_. Raise CancelledError)
           else Raise e)
         Return)"

definition run_from_parsed ::
  "('q, 'r) service \<Rightarrow> IngestionJob \<Rightarrow> IngestionTarget \<Rightarrow> bool \<Rightarrow> (('q, 'r) world, IngestionResult) prog" where
  "run_from_parsed sv job target final_attempt =
     (if tgt_status target \<noteq> DocumentStatus.CHUNKED
      then bindP (run_stage sv job target CHUNK final_attempt) (\<lambda>chunked.
        if res_outcome chunked \<noteq> IngestionOutcome.CHUNKED then Return chunked
        else run_stage sv job target EMBED final_attempt)
      else run_stage sv job target EMBED final_attempt)"

definition run_from ::
  "('q, 'r) service \<Rightarrow> IngestionJob \<Rightarrow> IngestionTarget \<Rightarrow> bool \<Rightarrow> (('q, 'r) world, IngestionResult) prog" where
  "run_from sv job target final_attempt =
     (if tgt_status target = DocumentStatus.PROCESSING then Return (skipped job SKIPPED_IN_PROGRESS)
      else if tgt_status target = DocumentStatus.READY \<or> tgt_status target = DocumentStatus.FAILED
      then Return (skipped job SKIPPED_TERMINAL)
      else if tgt_status target = DocumentStatus.PENDING
      then bindP (run_stage sv job target PARSE final_attempt) (\<lambda>parsed.
        if res_outcome parsed \<noteq> IngestionOutcome.PARSED then Return parsed
        else run_from_parsed sv job target final_attempt)
      else run_from_parsed sv job target final_attempt)"

definition not_found ::
  "('q, 'r) service \<Rightarrow> IngestionJob \<Rightarrow> (('q, 'r) world, IngestionResult) prog" where
  "not_found sv job =
     bindP (db_read (\<lambda>db. Inr (documents_live_document_exists (sv_unicode sv) (job_document_id job) db)))
       (\<lambda>exists. Return (rejected job (if exists then OWNERSHIP_MISMATCH else DOCUMENT_NOT_FOUND)))"

definition read_target ::
  "('q, 'r) service \<Rightarrow> IngestionJob \<Rightarrow> (('q, 'r) world, IngestionTarget option) prog" where
  "read_target sv job = db_read
     (documents_get_ingestion_target_for_user (sv_unicode sv) (job_document_id job) (job_owner_id job))"

definition ingest ::
  "('q, 'r) service \<Rightarrow> IngestionJob \<Rightarrow> bool \<Rightarrow> (('q, 'r) world, IngestionResult) prog" where
  "ingest sv job final_attempt =
     (case document_storage_key (sv_unicode sv) (job_owner_id job) (job_content_hash job) of
        Inl _ \<Rightarrow> Return (rejected job INVALID_JOB)
      | Inr derived_key \<Rightarrow>
          if derived_key \<noteq> job_storage_key job then Return (rejected job STORAGE_KEY_MISMATCH)
          else bindP (read_target sv job) (\<lambda>found.
            case found of
              None \<Rightarrow> not_found sv job
            | Some target \<Rightarrow>
                (case job_disagrees_with job target of
                   Some mismatch \<Rightarrow> Return (rejected job mismatch)
                 | None \<Rightarrow> run_from sv job target final_attempt)))"

section \<open>Maintenance\<close>

definition reap_stale_processing :: "int \<Rightarrow> (('q, 'r) world, ustr list) prog" where
  "reap_stale_processing seconds =
     db_tx (documents_fail_stale_processing seconds (py_str (reason_value STALE_PROCESSING)))"

definition job_from_row :: "unicode \<Rightarrow> IngestionTarget \<Rightarrow> IngestionJob option" where
  "job_from_row U target =
     (case (tgt_storage_key target, tgt_content_hash target, tgt_mime_type target) of
        (Some key, Some hash, Some mime) \<Rightarrow>
          (case document_storage_key U (tgt_owner_id target) hash of
             Inl _ \<Rightarrow> None
           | Inr derived \<Rightarrow>
               (if derived = key
                then Some \<lparr>job_document_id = tgt_document_id target, job_owner_id = tgt_owner_id target,
                       job_storage_key = key, job_content_hash = hash, job_mime_type = mime\<rparr>
                else None))
      | _ \<Rightarrow> None)"

definition enqueue :: "('q, 'r) service \<Rightarrow> IngestionJob \<Rightarrow> (('q, 'r) world, bool) prog" where
  "enqueue sv job = call (\<lambda>w. case sv_enqueue sv job (w_queue w) of (r, s) \<Rightarrow> (r, w\<lparr>w_queue := s\<rparr>))"

fun recover_loop ::
  "('q, 'r) service \<Rightarrow> IngestionTarget list \<Rightarrow> ustr list \<Rightarrow> nat \<Rightarrow> nat
   \<Rightarrow> (('q, 'r) world, RecoveryResult) prog" where
  "recover_loop sv [] requeued already skips =
     Return \<lparr>rec_requeued = requeued, rec_already_queued = already, rec_skipped = skips\<rparr>"
| "recover_loop sv (target # targets) requeued already skips =
     (case job_from_row (sv_unicode sv) target of
        None \<Rightarrow> recover_loop sv targets requeued already (skips + 1)
      | Some job \<Rightarrow>
          bindP (enqueue sv job) (\<lambda>queued.
            if queued then recover_loop sv targets (requeued @ [job_document_id job]) already skips
            else recover_loop sv targets requeued (already + 1) skips))"

definition recover_pending :: "('q, 'r) service \<Rightarrow> nat \<Rightarrow> (('q, 'r) world, RecoveryResult) prog" where
  "recover_pending sv limit =
     bindP (db_read (documents_list_for_recovery RECOVERABLE_STATUSES limit)) (\<lambda>candidates.
       recover_loop sv candidates [] 0 0)"

text \<open>The list inside \<open>any\<close> is built in full: every transition is tried, whatever the first ones said.\<close>

fun claim_any ::
  "('q, 'r) service \<Rightarrow> IngestionJob \<Rightarrow> DocumentStatus list \<Rightarrow> bool \<Rightarrow> (('q, 'r) world, bool) prog" where
  "claim_any sv job [] claimed = Return claimed"
| "claim_any sv job (status # statuses) claimed =
     bindP (transition sv job status DocumentStatus.PROCESSING None) (\<lambda>moved.
       claim_any sv job statuses (claimed \<or> moved))"

definition is_processing :: "('q, 'r) service \<Rightarrow> IngestionJob \<Rightarrow> (('q, 'r) world, bool) prog" where
  "is_processing sv job = bindP (read_target sv job) (\<lambda>found.
     Return (case found of None \<Rightarrow> False | Some target \<Rightarrow> tgt_status target = DocumentStatus.PROCESSING))"

definition record_given_up :: "('q, 'r) service \<Rightarrow> IngestionJob \<Rightarrow> (('q, 'r) world, bool) prog" where
  "record_given_up sv job =
     bindP (claim_any sv job RECOVERABLE_STATUSES False) (\<lambda>claimed.
     bindP (if claimed then Return True else is_processing sv job) (\<lambda>ours.
       if \<not> ours then Return False
       else transition sv job DocumentStatus.PROCESSING DocumentStatus.FAILED (Some PROCESSING_FAILURE)))"

end
