(* ===== verification/UploadValidation.thy ===== *)
theory UploadValidation
  imports Domain
begin

text \<open>
  \<open>document_processing/validation.py\<close>: what an upload must satisfy before anything is stored.
  SHA-256 and the PDF library are parameters: \<open>open_pdf\<close> answers whether a password is needed and
  how many pages there are, or \<open>None\<close> when opening raises.
\<close>

definition MAX_FILENAME_LENGTH :: nat where
  "MAX_FILENAME_LENGTH = 512"

definition read_chunk_bytes :: nat where
  "read_chunk_bytes = 1024 * 1024"

record ValidatedPdf =
  vpdf_content_hash :: ustr
  vpdf_size_bytes :: int
  vpdf_mime_type :: ustr
  vpdf_page_count :: int

section \<open>Reading\<close>

text \<open>The loop over \<open>stream.read\<close>: what is left of the stream, and what has been received.\<close>

function read_capped_loop :: "bytes \<Rightarrow> int \<Rightarrow> bytes \<Rightarrow> (exn, bytes) result" where
  "read_capped_loop stream max_bytes received =
     (let piece = take read_chunk_bytes stream in
      if piece = [] then Inr received
      else if max_bytes < int (length (received @ piece)) then Inl (UploadRejected TOO_LARGE)
      else read_capped_loop (drop read_chunk_bytes stream) max_bytes (received @ piece))"
  by pat_completeness auto
termination
  by (relation "measure (\<lambda>(stream, _, _). length stream)") (auto simp: read_chunk_bytes_def)

declare read_capped_loop.simps [simp del]

definition read_capped :: "bytes \<Rightarrow> int \<Rightarrow> (exn, bytes) result" where
  "read_capped stream max_bytes = read_capped_loop stream max_bytes []"

section \<open>Names\<close>

definition replace_char :: "nat \<Rightarrow> nat \<Rightarrow> ustr \<Rightarrow> ustr" where
  "replace_char a b s = map (\<lambda>c. if c = a then b else c) s"

text \<open>\<open>s.rsplit(c, 1)[-1]\<close>: what follows the last \<open>c\<close>, or everything.\<close>

definition after_last :: "nat \<Rightarrow> ustr \<Rightarrow> ustr" where
  "after_last c s = rev (takeWhile (\<lambda>x. x \<noteq> c) (rev s))"

definition stripped_categories :: "string list" where
  "stripped_categories = [''Cc'', ''Cf'', ''Cs'']"

definition clean_filename :: "unicode \<Rightarrow> ustr \<Rightarrow> ustr" where
  "clean_filename U raw =
     py_strip (filter (\<lambda>ch. u_category U ch \<notin> set stripped_categories)
       (after_last 47 (replace_char 92 47 (u_nfc U raw))))"

definition display_filename :: "unicode \<Rightarrow> ustr option \<Rightarrow> (exn, ustr) result" where
  "display_filename U raw =
     (case raw of
        None \<Rightarrow> Inl (UploadRejected INVALID_FILENAME)
      | Some r \<Rightarrow>
          (let name = clean_filename U r in
           if name = [] \<or> name = [46] \<or> name = [46, 46] then Inl (UploadRejected INVALID_FILENAME)
           else if MAX_FILENAME_LENGTH < length name then Inl (UploadRejected INVALID_FILENAME)
           else Inr name))"

section \<open>Content\<close>

definition pdf_magic :: bytes where
  "pdf_magic = [0x25, 0x50, 0x44, 0x46, 0x2D]"

definition validate_pdf ::
  "(bytes \<Rightarrow> ustr) \<Rightarrow> (bytes \<Rightarrow> (bool \<times> int) option) \<Rightarrow> bytes \<Rightarrow> int \<Rightarrow> (exn, ValidatedPdf) result" where
  "validate_pdf content_hash open_pdf data max_pages =
     (if data = [] then Inl (UploadRejected EMPTY)
      else if \<not> starts_with pdf_magic data then Inl (UploadRejected UNSUPPORTED_TYPE)
      else case open_pdf data of
        None \<Rightarrow> Inl (UploadRejected MALFORMED)
      | Some (needs_pass, page_count) \<Rightarrow>
          (if needs_pass then Inl (UploadRejected RejectionReason.ENCRYPTED)
           else if page_count < 1 then Inl (UploadRejected MALFORMED)
           else if max_pages < page_count then Inl (UploadRejected TOO_MANY_PAGES)
           else Inr \<lparr>vpdf_content_hash = content_hash data, vpdf_size_bytes = int (length data),
                  vpdf_mime_type = PDF_MIME_TYPE, vpdf_page_count = page_count\<rparr>))"

section \<open>What is read\<close>

lemma read_capped_loop_eq:
  "read_capped_loop stream m received =
     (if stream = [] \<or> int (length received + length stream) \<le> m then Inr (received @ stream)
      else Inl (UploadRejected TOO_LARGE))"
proof (induction stream m received rule: read_capped_loop.induct)
  case (1 stream m received)
  let ?piece = "take read_chunk_bytes stream"
  have pos: "0 < read_chunk_bytes" by (simp add: read_chunk_bytes_def)
  show ?case
  proof (cases "stream = []")
    case True
    then show ?thesis by (subst read_capped_loop.simps) simp
  next
    case False
    with pos have piece: "?piece \<noteq> []" by simp
    have split: "length stream = length ?piece + length (drop read_chunk_bytes stream)"
      by (metis append_take_drop_id length_append)
    show ?thesis
    proof (cases "m < int (length (received @ ?piece))")
      case True
      then have "m < int (length received + length stream)" using split unfolding length_append by linarith
      with True piece False show ?thesis
        by (subst read_capped_loop.simps) (simp del: length_take length_append)
    next
      case ok: False
      then have "read_capped_loop (drop read_chunk_bytes stream) m (received @ ?piece) =
          (if drop read_chunk_bytes stream = []
              \<or> int (length (received @ ?piece) + length (drop read_chunk_bytes stream)) \<le> m
           then Inr ((received @ ?piece) @ drop read_chunk_bytes stream)
           else Inl (UploadRejected TOO_LARGE))"
        using 1 piece by (simp add: Let_def)
      moreover have "int (length (received @ ?piece) + length (drop read_chunk_bytes stream)) \<le> m"
        if "drop read_chunk_bytes stream = []" using ok that by simp
      moreover have "length (received @ ?piece) + length (drop read_chunk_bytes stream) = length received + length stream"
        using split by simp
      ultimately have "read_capped_loop (drop read_chunk_bytes stream) m (received @ ?piece) =
          (if int (length received + length stream) \<le> m then Inr (received @ stream)
           else Inl (UploadRejected TOO_LARGE))"
        by (metis append.assoc append_take_drop_id)
      with piece ok False show ?thesis
        by (subst read_capped_loop.simps) (simp del: length_take length_append)
    qed
  qed
qed

section \<open>What a name is\<close>

text \<open>What the code relies on of the Unicode database: NUL is a control character and a surrogate is one.\<close>

definition categories_documented :: "unicode \<Rightarrow> bool" where
  "categories_documented U \<longleftrightarrow> u_category U 0 = ''Cc'' \<and> (\<forall>c. is_surrogate c \<longrightarrow> u_category U c = ''Cs'')"

lemma set_after_last: "set (after_last c s) \<subseteq> set s - {c}"
  unfolding after_last_def by (auto dest: set_takeWhileD)

lemma set_clean_filename:
  assumes "ch \<in> set (clean_filename U raw)"
  shows "ch \<noteq> 47 \<and> ch \<noteq> 92 \<and> u_category U ch \<notin> set stripped_categories"
proof -
  have "ch \<in> set (filter (\<lambda>ch. u_category U ch \<notin> set stripped_categories)
       (after_last 47 (replace_char 92 47 (u_nfc U raw))))"
    using assms set_strip_by unfolding clean_filename_def py_strip_def by blast
  then have "ch \<in> set (after_last 47 (replace_char 92 47 (u_nfc U raw)))"
    and c: "u_category U ch \<notin> set stripped_categories" by auto
  then have "ch \<in> set (replace_char 92 47 (u_nfc U raw))" "ch \<noteq> 47"
    using set_after_last by blast+
  with c show ?thesis by (auto simp: replace_char_def)
qed

end
