(* ===== verification/DocumentService.thy ===== *)
theory DocumentService
  imports IngestionService UploadValidation
begin

text \<open>
  \<open>backend/services/document_service.py\<close>: uploading, listing, reading and deleting documents, as
  coroutines over the same world as the ingestion service. The identity is a \<open>Principal\<close>.
\<close>

record uploads =
  ul_max_bytes :: int
  ul_max_pages :: int
  ul_open_pdf :: "bytes \<Rightarrow> (bool \<times> int) option"

definition storage_put :: "ustr \<Rightarrow> bytes \<Rightarrow> (('q, 'r) world, bool) prog" where
  "storage_put key data = call (\<lambda>w.
     if \<not> is_storage_key key then (Inl StorageError, w)
     else case object_put key data (w_objects w) of (b, objs) \<Rightarrow> (Inr b, w\<lparr>w_objects := objs\<rparr>))"

definition storage_delete :: "ustr \<Rightarrow> (('q, 'r) world, unit) prog" where
  "storage_delete key = call (\<lambda>w.
     if \<not> is_storage_key key then (Inl StorageError, w)
     else (Inr (), w\<lparr>w_objects := object_delete key (w_objects w)\<rparr>))"

definition is_duplicate_content :: "db_error \<Rightarrow> bool" where
  "is_duplicate_content e \<longleftrightarrow> e = IntegrityError ''uq_documents_user_id_content_hash''"

definition discard :: "ustr \<Rightarrow> bool \<Rightarrow> (('q, 'r) world, unit) prog" where
  "discard key created_blob =
     (if \<not> created_blob then Return ()
      else tryP (storage_delete key) (\<lambda>e. if is_StorageError e then Return () else Raise e) Return)"

definition soft_delete ::
  "('q, 'r) service \<Rightarrow> ustr \<Rightarrow> ustr \<Rightarrow> (('q, 'r) world, bool) prog" where
  "soft_delete sv document_id user_id =
     db_tx (documents_soft_delete_for_user (sv_unicode sv) document_id user_id)"

definition undo_unqueued_upload ::
  "('q, 'r) service \<Rightarrow> ustr \<Rightarrow> ustr \<Rightarrow> ustr \<Rightarrow> bool \<Rightarrow> (('q, 'r) world, unit) prog" where
  "undo_unqueued_upload sv document_id owner_id key created_blob =
     tryP (soft_delete sv document_id owner_id)
       (\<lambda>e. if is_Exception e then Return () else Raise e)
       (\<lambda>_. discard key created_blob)"

definition find_content ::
  "('q, 'r) service \<Rightarrow> ustr \<Rightarrow> ustr \<Rightarrow> (('q, 'r) world, Document option) prog" where
  "find_content sv hash owner_id =
     db_read (documents_find_live_by_content_hash_for_user (sv_unicode sv) hash owner_id)"

definition upload_values :: "ustr \<Rightarrow> ustr \<Rightarrow> ValidatedPdf \<Rightarrow> DocumentValues" where
  "upload_values name key v =
     \<lparr>nd_filename = name, nd_doc_type = PDF, nd_metadata = None, nd_status = DocumentStatus.PENDING,
      nd_storage_key = Some key, nd_content_hash = Some (vpdf_content_hash v),
      nd_size_bytes = Some (vpdf_size_bytes v), nd_mime_type = Some (vpdf_mime_type v),
      nd_page_count = Some (vpdf_page_count v)\<rparr>"

definition not_recorded ::
  "('q, 'r) service \<Rightarrow> ustr \<Rightarrow> ustr \<Rightarrow> ustr \<Rightarrow> bool \<Rightarrow> exn \<Rightarrow> (('q, 'r) world, UploadOutcome) prog" where
  "not_recorded sv hash owner_id key created_blob e =
     (let give_up = bindP (discard key created_blob) (\<lambda>_. Raise UploadPersistenceFailed) in
      case e of
        DatabaseError d \<Rightarrow>
          (if is_duplicate_content d
           then bindP (find_content sv hash owner_id) (\<lambda>winner.
             case winner of
               Some document \<Rightarrow> Return \<lparr>up_document = document, up_created = False\<rparr>
             | None \<Rightarrow> give_up)
           else give_up)
      | _ \<Rightarrow> if is_Exception e then give_up else Raise e)"

definition hand_over ::
  "('q, 'r) service \<Rightarrow> ustr \<Rightarrow> ustr \<Rightarrow> bool \<Rightarrow> ValidatedPdf \<Rightarrow> Document \<Rightarrow> (('q, 'r) world, UploadOutcome) prog" where
  "hand_over sv owner_id key created_blob v document =
     tryP (enqueue sv \<lparr>job_document_id = d_id document, job_owner_id = owner_id, job_storage_key = key,
             job_content_hash = vpdf_content_hash v, job_mime_type = vpdf_mime_type v\<rparr>)
       (\<lambda>e. if is_Exception e
         then bindP (undo_unqueued_upload sv (d_id document) owner_id key created_blob)
           (\<lambda>_. Raise IngestionUnavailable)
         else Raise e)
       (\<lambda>_. Return \<lparr>up_document = document, up_created = True\<rparr>)"

definition store_upload ::
  "('q, 'r) service \<Rightarrow> uuid \<Rightarrow> ustr \<Rightarrow> bytes \<Rightarrow> ustr \<Rightarrow> ValidatedPdf \<Rightarrow> (('q, 'r) world, UploadOutcome) prog" where
  "store_upload sv new_id name data owner_id v =
     bindP (find_content sv (vpdf_content_hash v) owner_id) (\<lambda>existing.
       case existing of
         Some document \<Rightarrow> Return \<lparr>up_document = document, up_created = False\<rparr>
       | None \<Rightarrow>
           bindP (of_result (document_storage_key (sv_unicode sv) owner_id (vpdf_content_hash v))) (\<lambda>key.
           bindP (storage_put key data) (\<lambda>created_blob.
             tryP (db_tx (documents_create (sv_unicode sv) new_id owner_id (upload_values name key v)))
               (not_recorded sv (vpdf_content_hash v) owner_id key created_blob)
               (hand_over sv owner_id key created_blob v))))"

text \<open>\<open>uuid4\<close> draws the new document's id, here the argument \<open>new_id\<close>.\<close>

definition upload_and_process ::
  "('q, 'r) service \<Rightarrow> uploads \<Rightarrow> uuid \<Rightarrow> ustr option \<Rightarrow> bytes \<Rightarrow> Principal
   \<Rightarrow> (('q, 'r) world, UploadOutcome) prog" where
  "upload_and_process sv ul new_id filename stream caller =
     bindP (of_result (display_filename (sv_unicode sv) filename)) (\<lambda>name.
     bindP (in_thread (read_capped stream (ul_max_bytes ul))) (\<lambda>data.
     bindP (in_thread (validate_pdf (sv_content_hash sv) (ul_open_pdf ul) data (ul_max_pages ul))) (\<lambda>v.
       store_upload sv new_id name data (p_user_id caller) v)))"

definition get_document ::
  "('q, 'r) service \<Rightarrow> ustr \<Rightarrow> Principal \<Rightarrow> (('q, 'r) world, Document option) prog" where
  "get_document sv document_id caller =
     db_read (documents_get_for_user (sv_unicode sv) document_id (p_user_id caller))"

definition list_user_documents ::
  "('q, 'r) service \<Rightarrow> Principal \<Rightarrow> (('q, 'r) world, Document list) prog" where
  "list_user_documents sv caller =
     db_read (\<lambda>db. Inr (documents_list_for_user (sv_unicode sv) (p_user_id caller) db))"

text \<open>A delete that matched nothing is not committed; it changed nothing either.\<close>

definition delete_document ::
  "('q, 'r) service \<Rightarrow> ustr \<Rightarrow> Principal \<Rightarrow> (('q, 'r) world, bool) prog" where
  "delete_document sv document_id caller = soft_delete sv document_id (p_user_id caller)"

end
