(* ===== verification/PipelineSafety.thy ===== *)
theory PipelineSafety
  imports DocumentService
begin

text \<open>
  What every process of the system keeps together, whatever the interleaving: uploads and deletions
  from the API, any number of deliveries of any jobs, the reaper, the recovery sweep and the record
  of a job that was given up. \<open>facts\<close> is what a document's status promises of its pages, its chunks
  and its vectors. A delivery that won a claim holds a \<open>phase\<close> on the document: while it does, the
  row is \<open>processing\<close>, or the reaper has failed it, and nobody else writes the document's children.
\<close>

section \<open>What a status promises\<close>

text \<open>A chunk's vector: one point under the chunk's id, of the right width, that cites the chunk.\<close>

definition vector_stored ::
  "'q qdrant \<Rightarrow> ustr \<Rightarrow> int \<Rightarrow> 'q \<Rightarrow> uuid \<Rightarrow> uuid \<Rightarrow> ChunkRow \<Rightarrow> bool" where
  "vector_stored Q model width s u d c =
     (case stored_vector Q s (uuid_str (chk_id c)) of
        None \<Rightarrow> False
      | Some (v, p) \<Rightarrow> int (length v) = width \<and> vp_user_id p = uuid_str u
          \<and> vp_document_id p = uuid_str d \<and> vp_chunk_id p = uuid_str (chk_id c)
          \<and> vp_chunk_index p = chk_chunk_index c \<and> vp_section p = chk_section c
          \<and> vp_page_start p = chk_page_start c \<and> vp_page_end p = chk_page_end c
          \<and> vp_embedding_model_id p = model \<and> vp_dimension p = width)"

text \<open>A chunk says which model embedded it, and that vector is in the store.\<close>

definition searchable :: "'q qdrant \<Rightarrow> 'q \<Rightarrow> uuid \<Rightarrow> uuid \<Rightarrow> ChunkRow \<Rightarrow> bool" where
  "searchable Q s u d c =
     (case (chk_embedding_model_id c, chk_dimension c) of
        (Some model, Some width) \<Rightarrow> vector_stored Q model width s u d c
      | _ \<Rightarrow> False)"

definition has_chunks :: "database \<Rightarrow> uuid \<Rightarrow> int \<Rightarrow> bool" where
  "has_chunks db d n \<longleftrightarrow> pages_of db d \<noteq> [] \<and> chunks_of db d \<noteq> [] \<and> n = int (length (chunks_of db d))"

fun facts :: "'q qdrant \<Rightarrow> database \<Rightarrow> 'q \<Rightarrow> uuid \<Rightarrow> uuid \<times> DocumentStatus \<times> int \<Rightarrow> bool" where
  "facts Q db s d (u, DocumentStatus.PENDING, n) \<longleftrightarrow> pages_of db d = [] \<and> chunks_of db d = []"
| "facts Q db s d (u, DocumentStatus.PROCESSING, n) \<longleftrightarrow> True"
| "facts Q db s d (u, DocumentStatus.PARSED, n) \<longleftrightarrow> pages_of db d \<noteq> [] \<and> chunks_of db d = []"
| "facts Q db s d (u, DocumentStatus.CHUNKED, n) \<longleftrightarrow> has_chunks db d n"
| "facts Q db s d (u, DocumentStatus.READY, n) \<longleftrightarrow>
     has_chunks db d n \<and> list_all (searchable Q s u d) (chunks_of db d)"
| "facts Q db s d (u, DocumentStatus.FAILED, n) \<longleftrightarrow> True"

text \<open>The invariant: the schema's constraints, and every document's status tells the truth.\<close>

definition documents_honest :: "'q qdrant \<Rightarrow> ('q, 'r) world \<Rightarrow> bool" where
  "documents_honest Q w \<longleftrightarrow> wf_db (w_db w)
     \<and> list_all (\<lambda>r. facts Q (w_db w) (w_points w) (doc_id r) (doc_user_id r, doc_status r, doc_chunk_count r))
         (db_documents (w_db w))"

section \<open>Phases\<close>

datatype hold = ToParse | ToChunk | ToEmbed | Embedding "ChunkRow list" | Embedded "ChunkRow list"
datatype phase = Idle | Hold uuid uuid hold

fun hold_facts :: "database \<Rightarrow> uuid \<Rightarrow> hold \<Rightarrow> int \<Rightarrow> bool" where
  "hold_facts db d ToParse n \<longleftrightarrow> pages_of db d = [] \<and> chunks_of db d = []"
| "hold_facts db d ToChunk n \<longleftrightarrow> pages_of db d \<noteq> [] \<and> chunks_of db d = []"
| "hold_facts db d ToEmbed n \<longleftrightarrow> has_chunks db d n"
| "hold_facts db d (Embedding cs) n \<longleftrightarrow> has_chunks db d n"
| "hold_facts db d (Embedded cs) n \<longleftrightarrow> has_chunks db d n"

fun hold_extra :: "('q, 'r) service \<Rightarrow> ('q, 'r) world \<Rightarrow> uuid \<Rightarrow> uuid \<Rightarrow> hold \<Rightarrow> bool" where
  "hold_extra sv w d u (Embedding cs) \<longleftrightarrow> chunks_of (w_db w) d = cs"
| "hold_extra sv w d u (Embedded cs) \<longleftrightarrow> chunks_of (w_db w) d = cs
     \<and> list_all (vector_stored (sv_qdrant sv) (sv_model_id sv) (sv_dimension sv) (w_points w) u d) cs"
| "hold_extra sv w d u _ \<longleftrightarrow> True"

fun holds :: "('q, 'r) service \<Rightarrow> phase \<Rightarrow> ('q, 'r) world \<Rightarrow> bool" where
  "holds sv Idle w \<longleftrightarrow> True"
| "holds sv (Hold d u h) w \<longleftrightarrow>
     (\<exists>st n. doc_view (w_db w) d = [(u, st, n)]
        \<and> (st = DocumentStatus.FAILED \<or> st = DocumentStatus.PROCESSING \<and> hold_facts (w_db w) d h n))
     \<and> hold_extra sv w d u h"

fun apart :: "phase \<Rightarrow> phase \<Rightarrow> bool" where
  "apart (Hold d u h) (Hold d' u' h') \<longleftrightarrow> d \<noteq> d'"
| "apart _ _ \<longleftrightarrow> True"

lemma apart_Idle [simp]: "apart Idle x" "apart x Idle"
  by (cases x; simp)+

lemma apart_sym: "apart x y \<Longrightarrow> apart y x"
  by (cases x; cases y) auto

interpretation pipeline: protocol "documents_honest Q" "holds sv" apart no_late_failure Idle
  for Q :: "'q qdrant" and sv :: "('q, 'r) service"
  by unfold_locales (auto intro: apart_sym)

section \<open>Steps that leave a document alone\<close>

text \<open>
  One step, as one document sees it: nothing about it changed, except that its claim may have been
  failed, and no vector of its chunks was lost.
\<close>

definition keeps :: "'q qdrant \<Rightarrow> uuid \<Rightarrow> ('q, 'r) world \<Rightarrow> ('q, 'r) world \<Rightarrow> bool" where
  "keeps Q d w w' \<longleftrightarrow>
     (doc_view (w_db w') d = doc_view (w_db w) d
      \<or> (\<exists>u n. doc_view (w_db w) d = [(u, DocumentStatus.PROCESSING, n)]
            \<and> doc_view (w_db w') d = [(u, DocumentStatus.FAILED, n)]))
     \<and> pages_of (w_db w') d = pages_of (w_db w) d \<and> chunks_of (w_db w') d = chunks_of (w_db w) d
     \<and> (\<forall>m k u. \<forall>c \<in> set (chunks_of (w_db w) d).
          vector_stored Q m k (w_points w) u d c \<longrightarrow> vector_stored Q m k (w_points w') u d c)"

lemma keeps_refl [simp]: "keeps Q d w w"
  by (simp add: keeps_def)

lemma keeps_facts:
  assumes "keeps Q d w w'" and "facts Q (w_db w) (w_points w) d (u, st, n)"
  shows "facts Q (w_db w') (w_points w') d (u, st, n)"
proof (cases st)
  case READY
  with assms show ?thesis
    by (auto simp: keeps_def has_chunks_def list_all_iff searchable_def split: option.splits)
qed (use assms in \<open>auto simp: keeps_def has_chunks_def\<close>)

lemma keeps_holds:
  assumes "keeps (sv_qdrant sv) d w w'" and "holds sv (Hold d u h) w"
  shows "holds sv (Hold d u h) w'"
  using assms by (cases h) (auto simp: keeps_def has_chunks_def list_all_iff)

lemma honest_view:
  assumes "documents_honest Q w" and "doc_view (w_db w) d = [(u, st, n)]"
  shows "facts Q (w_db w) (w_points w) d (u, st, n)"
proof -
  have "wf_db (w_db w)" using assms(1) by (simp add: documents_honest_def)
  then show ?thesis
  proof (cases rule: doc_view_cases [where d = d])
    case (row r)
    with assms show ?thesis by (auto simp: documents_honest_def list_all_iff)
  qed (use assms(2) in simp)
qed

lemma honestI:
  assumes "wf_db (w_db w)"
    and "\<And>d u st n. doc_view (w_db w) d = [(u, st, n)] \<Longrightarrow> facts Q (w_db w) (w_points w) d (u, st, n)"
  shows "documents_honest Q w"
  using assms doc_view_row [OF assms(1)] by (auto simp: documents_honest_def list_all_iff)

text \<open>
  The rule every step of the system is proved with: it leaves every document alone but at most one,
  \<open>t\<close>, that is this process's, or that no process holds; and of that one the facts hold after it.
\<close>

lemma honest_step:
  assumes "documents_honest Q w" and "wf_db (w_db w')"
    and "\<And>d. d \<noteq> t \<Longrightarrow> keeps Q d w w'"
    and "\<And>u st n. doc_view (w_db w') t = [(u, st, n)] \<Longrightarrow> facts Q (w_db w') (w_points w') t (u, st, n)"
  shows "documents_honest Q w'"
proof (rule honestI [OF assms(2)])
  fix d u st n assume v: "doc_view (w_db w') d = [(u, st, n)]"
  show "facts Q (w_db w') (w_points w') d (u, st, n)"
  proof (cases "d = t")
    case False
    then have k: "keeps Q d w w'" by (rule assms(3))
    with v consider "doc_view (w_db w) d = [(u, st, n)]" | "st = DocumentStatus.FAILED"
      by (auto simp: keeps_def)
    then show ?thesis
      using keeps_facts [OF k] honest_view [OF assms(1)] by cases auto
  qed (use v assms(4) in simp)
qed

text \<open>What a process must show of one awaited operation on the world.\<close>

definition good_step ::
  "('q, 'r) service \<Rightarrow> phase \<Rightarrow> ('q, 'r) world \<Rightarrow> ('q, 'r) world \<Rightarrow> phase \<Rightarrow> bool" where
  "good_step sv ph w w' ph' \<longleftrightarrow> documents_honest (sv_qdrant sv) w' \<and> holds sv ph' w' \<and>
     (\<forall>x. apart ph x \<longrightarrow> holds sv x w \<longrightarrow> apart ph' x \<and> holds sv x w')"

lemma good_step_refl: "documents_honest (sv_qdrant sv) w \<Longrightarrow> holds sv ph w \<Longrightarrow> good_step sv ph w w ph"
  by (simp add: good_step_def)

lemma good_step_same:
  "documents_honest (sv_qdrant sv) w \<Longrightarrow> holds sv ph' w \<Longrightarrow> (\<And>x. apart ph x \<Longrightarrow> apart ph' x)
     \<Longrightarrow> good_step sv ph w w ph'"
  by (simp add: good_step_def)

text \<open>A step of the holder of \<open>t\<close>, or a step on a \<open>t\<close> that nobody holds.\<close>

lemma good_stepI:
  assumes I: "documents_honest (sv_qdrant sv) w" and wf: "wf_db (w_db w')"
    and others: "\<And>d. d \<noteq> t \<Longrightarrow> keeps (sv_qdrant sv) d w w'"
    and own: "\<And>u st n. doc_view (w_db w') t = [(u, st, n)] \<Longrightarrow>
       facts (sv_qdrant sv) (w_db w') (w_points w') t (u, st, n)"
    and free: "(\<exists>u h. ph = Hold t u h) \<or> (\<forall>u h. \<not> holds sv (Hold t u h) w)"
    and ph': "holds sv ph' w'" "ph' = Idle \<or> (\<exists>u h. ph' = Hold t u h)"
  shows "good_step sv ph w w' ph'"
  unfolding good_step_def
proof (intro conjI allI impI)
  show "documents_honest (sv_qdrant sv) w'"
    using honest_step [OF I wf others own] by blast
  show "holds sv ph' w'" by (rule ph')
  fix x assume x: "apart ph x" "holds sv x w"
  show "apart ph' x"
    using ph'(2) x free by (cases x) auto
  show "holds sv x w'"
  proof (cases x)
    case (Hold d u h)
    with x free have "d \<noteq> t" by auto
    with keeps_holds others x(2) Hold show ?thesis by blast
  qed simp
qed

text \<open>A step that leaves every document alone is anybody's.\<close>

lemma good_step_keeps:
  assumes I: "documents_honest (sv_qdrant sv) w" and wf: "wf_db (w_db w')"
    and all: "\<And>d. keeps (sv_qdrant sv) d w w'" and ph: "holds sv ph w"
  shows "good_step sv ph w w' ph"
proof -
  have "holds sv x w'" if "holds sv x w" for x
  proof (cases x)
    case (Hold d u h)
    with that keeps_holds [OF all] show ?thesis by blast
  qed simp
  moreover have "documents_honest (sv_qdrant sv) w'"
  proof (rule honestI [OF wf])
    fix d u st n assume v: "doc_view (w_db w') d = [(u, st, n)]"
    then consider "doc_view (w_db w) d = [(u, st, n)]" | "st = DocumentStatus.FAILED"
      using all [of d] by (auto simp: keeps_def)
    then show "facts (sv_qdrant sv) (w_db w') (w_points w') d (u, st, n)"
      using keeps_facts [OF all] honest_view [OF I] by cases auto
  qed
  ultimately show ?thesis using ph by (simp add: good_step_def)
qed

section \<open>Awaits\<close>

abbreviation psafe ::
  "('q, 'r) service \<Rightarrow> (('q, 'r) world, 'a) prog \<Rightarrow> phase \<Rightarrow> ((exn, 'a) result \<Rightarrow> phase \<Rightarrow> bool) \<Rightarrow> bool" where
  "psafe sv \<equiv> safe (documents_honest (sv_qdrant sv)) (holds sv) apart no_late_failure"

lemma psafe_tx:
  assumes "\<And>w a db'. documents_honest (sv_qdrant sv) w \<Longrightarrow> holds sv ph w \<Longrightarrow> f (w_db w) = Inr (a, db') \<Longrightarrow>
      \<exists>ph'. good_step sv ph w (w\<lparr>w_db := db'\<rparr>) ph' \<and> R (Inr a) ph'"
    and "\<And>e. R (Inl e) ph"
  shows "psafe sv (db_tx f) ph R"
  unfolding db_tx_def
proof (rule safe_callI)
  fix w :: "('a, 'b) world" and r w'
  assume w: "documents_honest (sv_qdrant sv) w" "holds sv ph w"
    and f: "(case f (w_db w) of Inl e \<Rightarrow> (Inl e, w) | Inr (a, db') \<Rightarrow> (Inr a, w\<lparr>w_db := db'\<rparr>)) = (r, w')"
  show "documents_honest (sv_qdrant sv) w' \<and> (\<exists>ph'. holds sv ph' w' \<and> R r ph' \<and>
      (\<forall>o'. apart ph o' \<longrightarrow> holds sv o' w \<longrightarrow> apart ph' o' \<and> holds sv o' w'))"
  proof (cases "f (w_db w)")
    case (Inl e)
    with f w assms(2) show ?thesis by auto
  next
    case (Inr x)
    then obtain a db' where x: "f (w_db w) = Inr (a, db')" by (cases x) auto
    from assms(1) [OF w x] x f show ?thesis by (auto simp: good_step_def)
  qed
qed (rule assms(2))

lemma psafe_read:
  assumes "\<And>w. documents_honest (sv_qdrant sv) w \<Longrightarrow> holds sv ph w \<Longrightarrow>
      \<exists>ph'. holds sv ph' w \<and> (\<forall>x. apart ph x \<longrightarrow> apart ph' x) \<and> R (f (w_db w)) ph'"
    and "\<And>e. R (Inl e) ph"
  shows "psafe sv (db_read f) ph R"
  unfolding db_read_def by (rule safe_query) (use assms in blast)+

lemma psafe_plain_read: "(\<And>r. R r ph) \<Longrightarrow> psafe sv (db_read f) ph R"
  by (rule psafe_read) auto

lemma psafe_thread:
  assumes "R r ph" and "\<And>e. R (Inl e) ph"
  shows "psafe sv (in_thread r) ph R"
  unfolding in_thread_def by (rule safe_query) (use assms in auto)

lemma psafe_storage_get: "(\<And>r. R r ph) \<Longrightarrow> psafe sv (storage_get key) ph R"
  unfolding storage_get_def by (rule safe_query) auto

lemma keeps_stores [simp]:
  "keeps Q d w (w\<lparr>w_objects := objs\<rparr>)" "keeps Q d w (w\<lparr>w_queue := q\<rparr>)"
  by (simp_all add: keeps_def)

lemma psafe_store_call:
  assumes "\<And>w. w_db (snd (f w)) = w_db w \<and> w_points (snd (f w)) = w_points w" and "\<And>r. R r ph"
  shows "psafe sv (call f) ph R"
proof (rule safe_callI)
  fix w r w'
  assume w: "documents_honest (sv_qdrant sv) w" "holds sv ph w" and f: "f w = (r, w')"
  have eq: "w_db w' = w_db w" "w_points w' = w_points w" using assms(1) [of w] f by simp_all
  then have "good_step sv ph w w' ph"
    using w by (intro good_step_keeps) (auto simp: documents_honest_def keeps_def)
  with assms(2) show "documents_honest (sv_qdrant sv) w' \<and> (\<exists>ph'. holds sv ph' w' \<and> R r ph' \<and>
      (\<forall>o'. apart ph o' \<longrightarrow> holds sv o' w \<longrightarrow> apart ph' o' \<and> holds sv o' w'))"
    by (auto simp: good_step_def)
qed (rule assms(2))

text \<open>An operation that says whether it moved the document: the phase depends on the answer.\<close>

definition moved_post :: "phase \<Rightarrow> phase \<Rightarrow> (exn, bool) result \<Rightarrow> phase \<Rightarrow> bool" where
  "moved_post ph1 ph0 r ph \<longleftrightarrow> (r = Inr True \<and> ph = ph1) \<or> (r \<noteq> Inr True \<and> ph = ph0)"

lemma moved_post_Inl [simp]: "moved_post ph1 ph0 (Inl e) ph0"
  by (simp add: moved_post_def)

lemma safe_try_moved:
  assumes "psafe sv p ph (moved_post ph1 ph0)" and "psafe sv (k True) ph1 Q" and "psafe sv (k False) ph0 Q"
    and "\<And>e. psafe sv (h e) ph0 Q"
  shows "psafe sv (tryP p h k) ph Q"
proof (rule safe_tryP [OF assms(1)])
  fix a ph' assume "moved_post ph1 ph0 (Inr a) ph'"
  then show "psafe sv (k a) ph' Q" using assms(2,3) by (cases a) (auto simp: moved_post_def)
next
  fix e ph' assume "moved_post ph1 ph0 (Inl e) ph'"
  then show "psafe sv (h e) ph' Q" using assms(4) by (auto simp: moved_post_def)
qed

lemma safe_bind_moved:
  assumes "psafe sv p ph (moved_post ph1 ph0)" and "psafe sv (k True) ph1 Q" and "psafe sv (k False) ph0 Q"
    and "\<And>e. Q (Inl e) ph0"
  shows "psafe sv (bindP p k) ph Q"
  unfolding bindP_def using assms by (intro safe_try_moved) auto

section \<open>Transitions\<close>

fun release_to :: "hold \<Rightarrow> DocumentStatus" where
  "release_to ToParse = DocumentStatus.PENDING"
| "release_to ToChunk = DocumentStatus.PARSED"
| "release_to ToEmbed = DocumentStatus.CHUNKED"
| "release_to (Embedding cs) = DocumentStatus.CHUNKED"
| "release_to (Embedded cs) = DocumentStatus.CHUNKED"

fun claimed_hold :: "Stage \<Rightarrow> hold" where
  "claimed_hold PARSE = ToParse"
| "claimed_hold CHUNK = ToChunk"
| "claimed_hold EMBED = ToEmbed"

definition job_of :: "uuid \<Rightarrow> uuid \<Rightarrow> IngestionJob \<Rightarrow> bool" where
  "job_of d u job \<longleftrightarrow> job_document_id job = uuid_str d \<and> job_owner_id job = uuid_str u"

lemma job_of_parse:
  assumes "job_of d u job"
  shows "parse_text U (job_document_id job) = Some d" and "parse_text U (job_owner_id job) = Some u"
  using assms by (simp_all add: job_of_def)

lemma keeps_views:
  assumes "doc_view db' d = doc_view (w_db w) d" "pages_of db' d = pages_of (w_db w) d"
    "chunks_of db' d = chunks_of (w_db w) d"
  shows "keeps Q d w (w\<lparr>w_db := db'\<rparr>)"
  using assms by (simp add: keeps_def)

lemma honest_wf: "documents_honest Q w \<Longrightarrow> wf_db (w_db w)"
  by (simp add: documents_honest_def)

text \<open>A claim is released, or failed, by its holder.\<close>

lemma psafe_release:
  assumes j: "job_of d u job" and new: "new = release_to h \<or> new = DocumentStatus.FAILED"
  shows "psafe sv (transition sv job DocumentStatus.PROCESSING new reason) (Hold d u h)
    (moved_post Idle (Hold d u h))"
  unfolding transition_def
proof (rule psafe_tx)
  fix w moved db'
  assume I: "documents_honest (sv_qdrant sv) w" and A: "holds sv (Hold d u h) w"
    and f: "documents_transition_status_for_user (sv_unicode sv) (job_document_id job) (job_owner_id job)
      DocumentStatus.PROCESSING new (map_option (\<lambda>r. py_str (reason_value r)) reason) None (w_db w) = Inr (moved, db')"
  note v = transition_views [OF f honest_wf [OF I] job_of_parse [OF j]]
  show "\<exists>ph'. good_step sv (Hold d u h) w (w\<lparr>w_db := db'\<rparr>) ph' \<and>
      moved_post Idle (Hold d u h) (Inr moved) ph'"
  proof (cases moved)
    case False
    with v I A show ?thesis by (auto simp: moved_post_def intro: good_step_refl)
  next
    case True
    with v obtain n where n: "doc_view (w_db w) d = [(u, DocumentStatus.PROCESSING, n)]" "doc_view db' d = [(u, new, n)]"
      by auto
    have "good_step sv (Hold d u h) w (w\<lparr>w_db := db'\<rparr>) Idle"
    proof (rule good_stepI [OF I, where t = d])
      show "wf_db (w_db (w\<lparr>w_db := db'\<rparr>))" using v by simp
      show "keeps (sv_qdrant sv) d' w (w\<lparr>w_db := db'\<rparr>)" if "d' \<noteq> d" for d'
        using v that by (intro keeps_views) auto
      show "facts (sv_qdrant sv) (w_db (w\<lparr>w_db := db'\<rparr>)) (w_points (w\<lparr>w_db := db'\<rparr>)) d (u', st, n')"
        if "doc_view (w_db (w\<lparr>w_db := db'\<rparr>)) d = [(u', st, n')]" for u' st n'
        using that n A new v by (cases h) (auto simp: has_chunks_def)
    qed auto
    with True show ?thesis by (auto simp: moved_post_def)
  qed
qed simp

text \<open>A claim is won from a status that starts a stage, which nobody holds.\<close>

lemma not_held:
  assumes "doc_view (w_db w) d = [(u, st, n)]" and "st \<noteq> DocumentStatus.PROCESSING" and "st \<noteq> DocumentStatus.FAILED"
  shows "\<not> holds sv (Hold d u' h) w"
  using assms by auto

lemma psafe_claim:
  fixes sv :: "('q, 'r) service"
  assumes j: "job_of d u job"
  shows "psafe sv (transition sv job (starts_at stage) DocumentStatus.PROCESSING None) Idle
    (moved_post (Hold d u (claimed_hold stage)) Idle)"
  unfolding transition_def
proof (rule psafe_tx)
  fix w :: "('q, 'r) world" and moved db'
  assume I: "documents_honest (sv_qdrant sv) w"
    and f: "documents_transition_status_for_user (sv_unicode sv) (job_document_id job) (job_owner_id job)
      (starts_at stage) DocumentStatus.PROCESSING (map_option (\<lambda>r. py_str (reason_value r)) None) None (w_db w) = Inr (moved, db')"
  note v = transition_views [OF f honest_wf [OF I] job_of_parse [OF j]]
  show "\<exists>ph'. good_step sv Idle w (w\<lparr>w_db := db'\<rparr>) ph' \<and>
      moved_post (Hold d u (claimed_hold stage)) Idle (Inr moved) ph'"
  proof (cases moved)
    case False
    with v I show ?thesis by (auto simp: moved_post_def intro: good_step_refl)
  next
    case True
    with v obtain n where n: "doc_view (w_db w) d = [(u, starts_at stage, n)]" "doc_view db' d = [(u, DocumentStatus.PROCESSING, n)]"
      by auto
    have "good_step sv Idle w (w\<lparr>w_db := db'\<rparr>) (Hold d u (claimed_hold stage))"
    proof (rule good_stepI [OF I, where t = d])
      show "wf_db (w_db (w\<lparr>w_db := db'\<rparr>))" using v by simp
      show "keeps (sv_qdrant sv) d' w (w\<lparr>w_db := db'\<rparr>)" if "d' \<noteq> d" for d'
        using v that by (intro keeps_views) auto
      show "facts (sv_qdrant sv) (w_db (w\<lparr>w_db := db'\<rparr>)) (w_points (w\<lparr>w_db := db'\<rparr>)) d (u', st, n')"
        if "doc_view (w_db (w\<lparr>w_db := db'\<rparr>)) d = [(u', st, n')]" for u' st n'
        using that n by simp
      show "(\<exists>u h. Idle = Hold d u h) \<or> (\<forall>u h. \<not> holds sv (Hold d u h) w)"
        using not_held [OF n(1)] by (cases stage) auto
      show "holds sv (Hold d u (claimed_hold stage)) (w\<lparr>w_db := db'\<rparr>)"
        using honest_view [OF I n(1)] n v by (cases stage) (auto simp: has_chunks_def)
    qed auto
    with True show ?thesis by (auto simp: moved_post_def)
  qed
qed simp

section \<open>Stages\<close>

text \<open>
  How a stage may end: a stage that is done has given its claim up; one that was cancelled still has
  it, and its claim is released to the status \<open>st\<close> the stage started from.
\<close>

definition stage_post ::
  "uuid \<Rightarrow> uuid \<Rightarrow> DocumentStatus \<Rightarrow> (exn, IngestionResult) result \<Rightarrow> phase \<Rightarrow> bool" where
  "stage_post d u st r ph \<longleftrightarrow>
     (\<forall>x. r = Inr x \<longrightarrow> res_outcome x \<in> {IngestionOutcome.PARSED, IngestionOutcome.CHUNKED, IngestionOutcome.READY}
        \<longrightarrow> ph = Idle)
     \<and> (r = Inl CancelledError \<longrightarrow> (\<exists>h. ph = Hold d u h \<and> release_to h = st))"

lemma stage_post_raise [simp]: "release_to h = st \<Longrightarrow> stage_post d u st (Inl e) (Hold d u h)"
  by (simp add: stage_post_def)

lemma stage_post_results [simp]:
  "stage_post d u st (Inr (claim_lost job)) ph" "stage_post d u st (Inr (failed job reason)) ph"
  "stage_post d u st (Inr (finished job o')) Idle" "stage_post d u st (Inl (TransientIngestionError reason)) ph"
  by (auto simp: stage_post_def claim_lost_def failed_def)

lemma psafe_fail:
  assumes "job_of d u job" and "release_to h = st"
  shows "psafe sv (fail sv job reason) (Hold d u h) (stage_post d u st)"
  unfolding fail_def
  by (rule safe_bind_moved [OF psafe_release [OF assms(1)]]) (use assms(2) in auto)

lemma psafe_transient:
  assumes "job_of d u job" and "release_to h = st"
  shows "psafe sv (transient sv job reason final st) (Hold d u h) (stage_post d u st)"
  unfolding transient_def
proof (cases final)
  case True
  with psafe_fail [OF assms] show "psafe sv (if final then fail sv job reason else bindP (transition sv job DocumentStatus.PROCESSING st None)
      (\<lambda>released. if \<not> released then Return (claim_lost job) else Raise (TransientIngestionError reason))) (Hold d u h) (stage_post d u st)"
    by simp
next
  case False
  have "psafe sv (bindP (transition sv job DocumentStatus.PROCESSING st None)
      (\<lambda>released. if \<not> released then Return (claim_lost job) else Raise (TransientIngestionError reason))) (Hold d u h) (stage_post d u st)"
    by (rule safe_bind_moved [OF psafe_release [OF assms(1)]]) (use assms(2) in auto)
  with False show "psafe sv (if final then fail sv job reason else bindP (transition sv job DocumentStatus.PROCESSING st None)
      (\<lambda>released. if \<not> released then Return (claim_lost job) else Raise (TransientIngestionError reason))) (Hold d u h) (stage_post d u st)"
    by simp
qed

text \<open>Work in a thread, and the reads whose answer does not matter, keep the claim.\<close>

lemma psafe_thread_hold: "psafe sv (in_thread r) ph (\<lambda>_ ph'. ph' = ph)"
  by (rule psafe_thread) auto

lemma psafe_transient_if:
  assumes "job_of d u job" and "release_to h = st" and "ph = Hold d u h"
  shows "psafe sv (if b then transient sv job reason final st else Raise e) ph (stage_post d u st)"
  using psafe_transient [OF assms(1,2)] assms(2,3) by (cases b) auto

lemma store_parsed_cases:
  assumes "store_parsed sv job extracted db = Inr (moved, db')"
  obtains "\<not> moved" "db' = db"
  | db1 where "moved" "documents_transition_status_for_user (sv_unicode sv) (job_document_id job)
      (job_owner_id job) DocumentStatus.PROCESSING DocumentStatus.PARSED None None db = Inr (True, db1)"
      "pages_add_for_user (sv_unicode sv) (job_document_id job) (job_owner_id job) (et_pages extracted) db1 = Inr db'"
  using assms by (auto simp: store_parsed_def split: if_splits)

lemma psafe_store_parsed:
  assumes j: "job_of d u job" and readable: "has_text extracted"
  shows "psafe sv (db_tx (store_parsed sv job extracted)) (Hold d u ToParse)
    (moved_post Idle (Hold d u ToParse))"
proof (rule psafe_tx)
  fix w moved db'
  assume I: "documents_honest (sv_qdrant sv) w" and A: "holds sv (Hold d u ToParse) w"
    and f: "store_parsed sv job extracted (w_db w) = Inr (moved, db')"
  show "\<exists>ph'. good_step sv (Hold d u ToParse) w (w\<lparr>w_db := db'\<rparr>) ph' \<and>
      moved_post Idle (Hold d u ToParse) (Inr moved) ph'"
    using f
  proof (cases rule: store_parsed_cases)
    case 1
    with I A show ?thesis by (auto simp: moved_post_def intro: good_step_refl)
  next
    case (2 db1)
    note v = transition_views [OF 2(2) honest_wf [OF I] job_of_parse [OF j]]
    then have wf1: "wf_db db1" by simp
    note g = pages_add_views [OF 2(3) wf1 job_of_parse [OF j]]
    have "good_step sv (Hold d u ToParse) w (w\<lparr>w_db := db'\<rparr>) Idle"
    proof (rule good_stepI [OF I, where t = d])
      show "wf_db (w_db (w\<lparr>w_db := db'\<rparr>))" using g by simp
      show "keeps (sv_qdrant sv) d' w (w\<lparr>w_db := db'\<rparr>)" if "d' \<noteq> d" for d'
        using v g that by (intro keeps_views) auto
      show "facts (sv_qdrant sv) (w_db (w\<lparr>w_db := db'\<rparr>)) (w_points (w\<lparr>w_db := db'\<rparr>)) d (u', st, n')"
        if "doc_view (w_db (w\<lparr>w_db := db'\<rparr>)) d = [(u', st, n')]" for u' st n'
        using that A g v readable by (auto simp: has_text_def list_ex_iff)
    qed auto
    with 2 show ?thesis by (auto simp: moved_post_def)
  qed
qed simp

lemma psafe_process_claimed:
  assumes j: "job_of d u job"
  shows "psafe sv (process_claimed sv job target final) (Hold d u ToParse) (stage_post d u DocumentStatus.PENDING)"
proof -
  note fl = psafe_fail [OF j, of ToParse DocumentStatus.PENDING, simplified]
  note tr = psafe_transient [OF j, of ToParse DocumentStatus.PENDING, simplified]
  have keep: "psafe sv (keep_parsed sv job target final extracted) (Hold d u ToParse) (stage_post d u DocumentStatus.PENDING)" for extracted
    unfolding keep_parsed_def
    by (auto intro!: fl safe_try_moved [OF psafe_store_parsed [OF j]] tr)
  have failed: "psafe sv (extraction_failed sv job final e) (Hold d u ToParse) (stage_post d u DocumentStatus.PENDING)" for e
    unfolding extraction_failed_def by (auto intro: fl tr split: exn.split option.split)
  show ?thesis
    unfolding process_claimed_def
    by (auto intro!: fl tr keep failed safe_tryP [OF psafe_storage_get [where R = "\<lambda>_ ph. ph = Hold d u ToParse"]]
        safe_tryP [OF psafe_thread_hold] safe_bindP [OF psafe_thread_hold])
qed

lemma store_chunks_cases:
  assumes "store_chunks sv job chunking db = Inr (moved, db')"
  obtains "\<not> moved" "db' = db"
  | db1 cs where "moved" "documents_transition_status_for_user (sv_unicode sv) (job_document_id job)
      (job_owner_id job) DocumentStatus.PROCESSING DocumentStatus.CHUNKED None
      (Some (int (length (cr_chunks chunking)))) db = Inr (True, db1)"
      "chunks_add_many (sv_unicode sv) (sv_uuid5 sv) (job_document_id job) (job_owner_id job) chunking db1 = Inr (cs, db')"
  using assms by (auto simp: store_chunks_def split: if_splits prod.splits)

lemma psafe_store_chunks:
  assumes j: "job_of d u job" and some: "cr_chunks chunking \<noteq> []"
  shows "psafe sv (db_tx (store_chunks sv job chunking)) (Hold d u ToChunk) (moved_post Idle (Hold d u ToChunk))"
proof (rule psafe_tx)
  fix w moved db'
  assume I: "documents_honest (sv_qdrant sv) w" and A: "holds sv (Hold d u ToChunk) w"
    and f: "store_chunks sv job chunking (w_db w) = Inr (moved, db')"
  show "\<exists>ph'. good_step sv (Hold d u ToChunk) w (w\<lparr>w_db := db'\<rparr>) ph' \<and>
      moved_post Idle (Hold d u ToChunk) (Inr moved) ph'"
    using f
  proof (cases rule: store_chunks_cases)
    case 1
    with I A show ?thesis by (auto simp: moved_post_def intro: good_step_refl)
  next
    case (2 db1 cs)
    note v = transition_views [OF 2(2) honest_wf [OF I] job_of_parse [OF j]]
    then have wf1: "wf_db db1" by simp
    note g = chunks_add_views [OF 2(3) wf1 job_of_parse [OF j]]
    have "good_step sv (Hold d u ToChunk) w (w\<lparr>w_db := db'\<rparr>) Idle"
    proof (rule good_stepI [OF I, where t = d])
      show "wf_db (w_db (w\<lparr>w_db := db'\<rparr>))" using g by simp
      show "keeps (sv_qdrant sv) d' w (w\<lparr>w_db := db'\<rparr>)" if "d' \<noteq> d" for d'
        using v g that by (intro keeps_views) auto
      show "facts (sv_qdrant sv) (w_db (w\<lparr>w_db := db'\<rparr>)) (w_points (w\<lparr>w_db := db'\<rparr>)) d (u', st, n')"
        if "doc_view (w_db (w\<lparr>w_db := db'\<rparr>)) d = [(u', st, n')]" for u' st n'
        using that A g v some by (auto simp: has_chunks_def)
    qed auto
    with 2 show ?thesis by (auto simp: moved_post_def)
  qed
qed simp

lemma psafe_read_pages: "psafe sv (read_pages sv job) ph (\<lambda>_ ph'. ph' = ph)"
  unfolding read_pages_def by (rule psafe_plain_read) simp

lemma psafe_chunk_claimed:
  assumes j: "job_of d u job"
  shows "psafe sv (chunk_claimed sv job final) (Hold d u ToChunk) (stage_post d u DocumentStatus.PARSED)"
proof -
  note fl = psafe_fail [OF j, of ToChunk DocumentStatus.PARSED, simplified]
  note tr = psafe_transient [OF j, of ToChunk DocumentStatus.PARSED, simplified]
  show ?thesis
    unfolding chunk_claimed_def
    by (auto intro!: fl tr safe_bindP [OF psafe_read_pages] safe_tryP [OF psafe_thread_hold]
        safe_try_moved [OF psafe_store_chunks [OF j]])
qed

section \<open>Embedding\<close>

lemma replace_chunks_cases:
  assumes "replace_chunks sv job chunking db = Inr (moved, db')"
  obtains "\<not> moved" "db' = db"
  | db1 n db2 cs where "moved" "documents_transition_status_for_user (sv_unicode sv) (job_document_id job)
      (job_owner_id job) DocumentStatus.PROCESSING DocumentStatus.PROCESSING None
      (Some (int (length (cr_chunks chunking)))) db = Inr (True, db1)"
      "chunks_delete_for_document (sv_unicode sv) (job_document_id job) (job_owner_id job) db1 = Inr (n, db2)"
      "chunks_add_many (sv_unicode sv) (sv_uuid5 sv) (job_document_id job) (job_owner_id job) chunking db2 = Inr (cs, db')"
  using assms by (auto simp: replace_chunks_def split: if_splits prod.splits)

lemma psafe_replace_chunks:
  assumes j: "job_of d u job" and some: "cr_chunks chunking \<noteq> []"
  shows "psafe sv (db_tx (replace_chunks sv job chunking)) (Hold d u ToEmbed) (\<lambda>_ ph. ph = Hold d u ToEmbed)"
proof (rule psafe_tx)
  fix w moved db'
  assume I: "documents_honest (sv_qdrant sv) w" and A: "holds sv (Hold d u ToEmbed) w"
    and f: "replace_chunks sv job chunking (w_db w) = Inr (moved, db')"
  have "good_step sv (Hold d u ToEmbed) w (w\<lparr>w_db := db'\<rparr>) (Hold d u ToEmbed)"
    using f
  proof (cases rule: replace_chunks_cases)
    case 1
    with I A show ?thesis by (auto intro: good_step_refl)
  next
    case (2 db1 k db2 cs)
    note v = transition_views [OF 2(2) honest_wf [OF I] job_of_parse [OF j]]
    then have wf1: "wf_db db1" and ow: "owned_by (db_documents db1) u d" by simp_all
    note x = chunks_delete_views [OF 2(3) wf1 job_of_parse [OF j] ow]
    then have wf2: "wf_db db2" by simp
    note g = chunks_add_views [OF 2(4) wf2 job_of_parse [OF j]]
    show ?thesis
    proof (rule good_stepI [OF I, where t = d])
      show "wf_db (w_db (w\<lparr>w_db := db'\<rparr>))" using g by simp
      show "keeps (sv_qdrant sv) d' w (w\<lparr>w_db := db'\<rparr>)" if "d' \<noteq> d" for d'
        using v x g that by (intro keeps_views) auto
      show "facts (sv_qdrant sv) (w_db (w\<lparr>w_db := db'\<rparr>)) (w_points (w\<lparr>w_db := db'\<rparr>)) d (u', st, n')"
        if "doc_view (w_db (w\<lparr>w_db := db'\<rparr>)) d = [(u', st, n')]" for u' st n'
        using that g x v by auto
      show "holds sv (Hold d u ToEmbed) (w\<lparr>w_db := db'\<rparr>)"
        using A g x v some by (auto simp: has_chunks_def)
    qed auto
  qed
  then show "\<exists>ph'. good_step sv (Hold d u ToEmbed) w (w\<lparr>w_db := db'\<rparr>) ph' \<and> ph' = Hold d u ToEmbed"
    by blast
qed simp

lemma psafe_vectors:
  assumes "\<And>w r s. documents_honest (sv_qdrant sv) w \<Longrightarrow> holds sv ph w \<Longrightarrow> f (w_points w) = (r, s) \<Longrightarrow>
      \<exists>ph'. good_step sv ph w (w\<lparr>w_points := s\<rparr>) ph' \<and> R r ph'"
    and "\<And>e. R (Inl e) ph"
  shows "psafe sv (vectors_call f) ph R"
  unfolding vectors_call_def
proof (rule safe_callI)
  fix w :: "('a, 'b) world" and r w'
  assume w: "documents_honest (sv_qdrant sv) w" "holds sv ph w"
    and f: "(case f (w_points w) of (r, s) \<Rightarrow> (r, w\<lparr>w_points := s\<rparr>)) = (r, w')"
  obtain r0 s where s: "f (w_points w) = (r0, s)" by (cases "f (w_points w)")
  from assms(1) [OF w s] s f
  show "documents_honest (sv_qdrant sv) w' \<and> (\<exists>ph'. holds sv ph' w' \<and> R r ph' \<and>
      (\<forall>o'. apart ph o' \<longrightarrow> holds sv o' w \<longrightarrow> apart ph' o' \<and> holds sv o' w'))"
    by (auto simp: good_step_def)
qed (rule assms(2))

lemma vector_stored_delete:
  assumes "qdrant_writes Q" and "vectors_delete_document Q (uuid_str d) ow s = (Inr x, s')"
    and "vector_stored Q m k s u d' c" and "d' \<noteq> d"
  shows "vector_stored Q m k s' u d' c"
  using assms(3,4) delete_stored [OF assms(1,2)]
  by (auto simp: vector_stored_def split: option.splits)

lemma psafe_delete_vectors:
  assumes Q: "qdrant_writes (sv_qdrant sv)" and j: "job_of d u job"
  shows "psafe sv (vectors_call (vectors_delete_document (sv_qdrant sv) (job_document_id job) (job_owner_id job)))
    (Hold d u ToEmbed) (\<lambda>_ ph. ph = Hold d u ToEmbed)"
proof (rule psafe_vectors)
  fix w r s
  assume I: "documents_honest (sv_qdrant sv) w" and A: "holds sv (Hold d u ToEmbed) w"
    and f: "vectors_delete_document (sv_qdrant sv) (job_document_id job) (job_owner_id job) (w_points w) = (r, s)"
  have "good_step sv (Hold d u ToEmbed) w (w\<lparr>w_points := s\<rparr>) (Hold d u ToEmbed)"
  proof (cases r)
    case (Inl e)
    with f delete_failed have "w\<lparr>w_points := s\<rparr> = w" by fastforce
    with I A good_step_refl show ?thesis by metis
  next
    case (Inr x)
    note f' = f [unfolded Inr job_of_def [THEN iffD1, OF j, THEN conjunct1]]
    show ?thesis
    proof (rule good_stepI [OF I, where t = d])
      show "wf_db (w_db (w\<lparr>w_points := s\<rparr>))" using honest_wf [OF I] by simp
      show "keeps (sv_qdrant sv) d' w (w\<lparr>w_points := s\<rparr>)" if "d' \<noteq> d" for d'
        using vector_stored_delete [OF Q f'] that by (auto simp: keeps_def)
      show "facts (sv_qdrant sv) (w_db (w\<lparr>w_points := s\<rparr>)) (w_points (w\<lparr>w_points := s\<rparr>)) d (u', st, n')"
        if "doc_view (w_db (w\<lparr>w_points := s\<rparr>)) d = [(u', st, n')]" for u' st n'
        using that A by auto
    qed (use A in auto)
  qed
  then show "\<exists>ph'. good_step sv (Hold d u ToEmbed) w (w\<lparr>w_points := s\<rparr>) ph' \<and> ph' = Hold d u ToEmbed"
    by blast
qed simp

definition rechunk_post ::
  "uuid \<Rightarrow> uuid \<Rightarrow> (exn, IngestionResult option) result \<Rightarrow> phase \<Rightarrow> bool" where
  "rechunk_post d u r ph \<longleftrightarrow>
     (case r of
        Inl e \<Rightarrow> stage_post d u DocumentStatus.CHUNKED (Inl e) ph
      | Inr None \<Rightarrow> ph = Hold d u ToEmbed
      | Inr (Some x) \<Rightarrow> stage_post d u DocumentStatus.CHUNKED (Inr x) ph)"

lemma rechunk_postI [simp]:
  "rechunk_post d u (Inl e) (Hold d u ToEmbed)" "rechunk_post d u (Inr None) (Hold d u ToEmbed)"
  "rechunk_post d u (Inr (Some (claim_lost job))) ph"
  by (simp_all add: rechunk_post_def)

lemma psafe_over:
  assumes "psafe sv p ph (stage_post d u DocumentStatus.CHUNKED)"
  shows "psafe sv (bindP p (\<lambda>r. Return (Some r))) ph (rechunk_post d u)"
  by (rule safe_bindP [OF assms]) (auto simp: rechunk_post_def)

lemma psafe_rechunk:
  assumes Q: "qdrant_writes (sv_qdrant sv)" and j: "job_of d u job"
  shows "psafe sv (rechunk sv job final) (Hold d u ToEmbed) (rechunk_post d u)"
proof -
  note fl = psafe_over [OF psafe_fail [OF j, of ToEmbed DocumentStatus.CHUNKED, simplified]]
  note tr = psafe_over [OF psafe_transient [OF j, of ToEmbed DocumentStatus.CHUNKED, simplified]]
  show ?thesis
    unfolding rechunk_def
    by (auto intro!: fl tr safe_bindP [OF psafe_read_pages] safe_tryP [OF psafe_thread_hold]
        safe_tryP [OF psafe_delete_vectors [OF Q j]] safe_tryP [OF psafe_replace_chunks [OF j]])
qed

text \<open>What reading the chunks tells a holder, and what it may count on from then on.\<close>

definition chunks_read :: "uuid \<Rightarrow> uuid \<Rightarrow> (exn, DocumentChunk list) result \<Rightarrow> phase \<Rightarrow> bool" where
  "chunks_read d u r ph \<longleftrightarrow>
     (case r of
        Inl e \<Rightarrow> ph = Hold d u ToEmbed
      | Inr chunks \<Rightarrow>
          (chunks = [] \<and> ph = Hold d u ToEmbed)
          \<or> (\<exists>cs. chunks = map chunk_to_domain (sort_key chk_chunk_index cs) \<and> cs \<noteq> []
                \<and> (\<forall>c \<in> set cs. chk_document_id c = d) \<and> distinct (map chk_id cs)
                \<and> ph = Hold d u (Embedding cs)))"

lemma distinct_chunks_of: "wf_db db \<Longrightarrow> distinct (map chk_id (chunks_of db d))"
  unfolding chunks_of_def using wf_db_keys(2) by (simp add: distinct_map_filter)

lemma psafe_read_chunks:
  assumes j: "job_of d u job"
  shows "psafe sv (db_read (\<lambda>db. Inr (chunks_list_for_document (sv_unicode sv) (job_document_id job) (job_owner_id job) db)))
    (Hold d u ToEmbed) (chunks_read d u)"
proof (rule psafe_read)
  fix w assume I: "documents_honest (sv_qdrant sv) w" and A: "holds sv (Hold d u ToEmbed) w"
  let ?cs = "document_chunk_rows d u (w_db w)"
  have eq: "chunks_list_for_document (sv_unicode sv) (job_document_id job) (job_owner_id job) (w_db w) =
      map chunk_to_domain (sort_key chk_chunk_index ?cs)"
    using j by (simp add: chunks_list_for_document_def job_of_def)
  show "\<exists>ph'. holds sv ph' w \<and> (\<forall>x. apart (Hold d u ToEmbed) x \<longrightarrow> apart ph' x) \<and>
      chunks_read d u (Inr (chunks_list_for_document (sv_unicode sv) (job_document_id job) (job_owner_id job) (w_db w))) ph'"
  proof (cases "?cs = []")
    case True
    with A eq show ?thesis by (intro exI [of _ "Hold d u ToEmbed"]) (auto simp: chunks_read_def)
  next
    case False
    then have cs: "?cs = chunks_of (w_db w) d" by (auto simp: document_chunk_rows_eq split: if_splits)
    have "apart (Hold d u (Embedding ?cs)) x" if "apart (Hold d u ToEmbed) x" for x
      using that by (cases x) auto
    moreover have "holds sv (Hold d u (Embedding ?cs)) w" using A cs by auto
    moreover have "chunks_read d u (Inr (map chunk_to_domain (sort_key chk_chunk_index ?cs))) (Hold d u (Embedding ?cs))"
      using False cs distinct_chunks_of [OF honest_wf [OF I]]
      by (auto simp: chunks_read_def chunks_of_def intro!: exI [of _ ?cs])
    ultimately show ?thesis unfolding eq by blast
  qed
qed (simp add: chunks_read_def)

text \<open>The records a holder upserts: one per chunk, under its id, citing it.\<close>

definition record_for :: "('q, 'r) service \<Rightarrow> uuid \<Rightarrow> uuid \<Rightarrow> ChunkRow \<Rightarrow> vector \<Rightarrow> VectorRecord" where
  "record_for sv d u c v =
     \<lparr>vr_id = uuid_str (chk_id c), vr_vector = v,
      vr_payload = \<lparr>vp_user_id = uuid_str u, vp_document_id = uuid_str d,
        vp_chunk_id = uuid_str (chk_id c), vp_chunk_index = chk_chunk_index c,
        vp_section = chk_section c, vp_page_start = chk_page_start c, vp_page_end = chk_page_end c,
        vp_strategy_version = fst (sv_version sv), vp_tokenizer_id = snd (sv_version sv),
        vp_embedding_model_id = sv_model_id sv, vp_dimension = sv_dimension sv\<rparr>\<rparr>"

lemma vector_records:
  assumes "job_of d u job"
  shows "map_result (vector_record sv job) (zip (map chunk_to_domain xs) vs) =
    Inr (map (\<lambda>(c, v). record_for sv d u c v) (zip xs vs))"
  using assms
  by (induction xs vs rule: list_induct2')
    (simp_all add: vector_record_def payload_for_def chunk_to_domain_def record_for_def job_of_def)

lemma record_ids:
  "length vs = length xs \<Longrightarrow> map vr_id (map (\<lambda>(c, v). record_for sv d u c v) (zip xs vs)) = map (\<lambda>c. uuid_str (chk_id c)) xs"
  by (induction xs vs rule: list_induct2') (simp_all add: record_for_def)

lemma psafe_upsert:
  assumes Q: "qdrant_writes (sv_qdrant sv)" and len: "length vs = length xs" and xs: "set xs = set cs"
    "distinct (map chk_id xs)" and doc: "\<forall>c \<in> set cs. chk_document_id c = d"
    and width: "\<forall>v \<in> set vs. int (length v) = sv_dimension sv"
  shows "psafe sv (vectors_call (vectors_upsert (sv_qdrant sv) (map (\<lambda>(c, v). record_for sv d u c v) (zip xs vs))))
    (Hold d u (Embedding cs))
    (\<lambda>r ph. (\<exists>x. r = Inr x) \<and> ph = Hold d u (Embedded cs) \<or> (\<exists>e. r = Inl e) \<and> ph = Hold d u (Embedding cs))"
proof (rule psafe_vectors)
  fix w r s
  let ?rs = "map (\<lambda>(c, v). record_for sv d u c v) (zip xs vs)"
  assume I: "documents_honest (sv_qdrant sv) w" and A: "holds sv (Hold d u (Embedding cs)) w"
    and f: "vectors_upsert (sv_qdrant sv) ?rs (w_points w) = (r, s)"
  show "\<exists>ph'. good_step sv (Hold d u (Embedding cs)) w (w\<lparr>w_points := s\<rparr>) ph' \<and>
      ((\<exists>x. r = Inr x) \<and> ph' = Hold d u (Embedded cs) \<or> (\<exists>e. r = Inl e) \<and> ph' = Hold d u (Embedding cs))"
  proof (cases r)
    case (Inl e)
    with f upsert_failed have "w\<lparr>w_points := s\<rparr> = w" by fastforce
    with I A Inl good_step_refl show ?thesis by metis
  next
    case (Inr y)
    note f' = f [unfolded Inr]
    have ids: "vr_id ` set ?rs = (\<lambda>c. uuid_str (chk_id c)) ` set cs"
      using arg_cong [OF record_ids [OF len], of set] xs(1) by (simp only: set_map)
    have dist: "distinct (map vr_id ?rs)"
      unfolding record_ids [OF len] using xs(2) by (simp add: distinct_map inj_on_def)
    have stored: "vector_stored (sv_qdrant sv) (sv_model_id sv) (sv_dimension sv) s u d c" if c: "c \<in> set cs" for c
    proof -
      from c xs(1) len obtain v where v: "(c, v) \<in> set (zip xs vs)"
        by (metis in_set_impl_in_set_zip1)
      then have "record_for sv d u c v \<in> set ?rs" by force
      from upsert_stored_record [OF Q f' this dist] v width show ?thesis
        by (auto simp: vector_stored_def record_for_def dest: set_zip_rightD)
    qed
    have cs: "chunks_of (w_db w) d = cs" using A by simp
    have other: "stored_vector (sv_qdrant sv) s (uuid_str (chk_id c)) = stored_vector (sv_qdrant sv) (w_points w) (uuid_str (chk_id c))"
      if c: "c \<in> set (chunks_of (w_db w) d')" and "d' \<noteq> d" for c d'
    proof -
      have "chk_id c \<noteq> chk_id c0" if "c0 \<in> set cs" for c0
      proof
        assume "chk_id c = chk_id c0"
        moreover have "c \<in> set (db_chunks (w_db w))" "c0 \<in> set (db_chunks (w_db w))"
          using c that cs by (auto simp: chunks_of_def)
        ultimately have "c = c0"
          using distinct_key_eq [OF wf_db_keys(2) [OF honest_wf [OF I]]] by blast
        with c that doc \<open>d' \<noteq> d\<close> show False by (auto simp: chunks_of_def)
      qed
      then have "uuid_str (chk_id c) \<notin> vr_id ` set ?rs" unfolding ids by auto
      with upsert_stored [OF Q f'] show ?thesis by simp
    qed
    have "good_step sv (Hold d u (Embedding cs)) w (w\<lparr>w_points := s\<rparr>) (Hold d u (Embedded cs))"
    proof (rule good_stepI [OF I, where t = d])
      show "wf_db (w_db (w\<lparr>w_points := s\<rparr>))" using honest_wf [OF I] by simp
      show "keeps (sv_qdrant sv) d' w (w\<lparr>w_points := s\<rparr>)" if "d' \<noteq> d" for d'
        using other that by (auto simp: keeps_def vector_stored_def)
      show "facts (sv_qdrant sv) (w_db (w\<lparr>w_points := s\<rparr>)) (w_points (w\<lparr>w_points := s\<rparr>)) d (u', st, n')"
        if "doc_view (w_db (w\<lparr>w_points := s\<rparr>)) d = [(u', st, n')]" for u' st n'
        using that A by auto
      show "holds sv (Hold d u (Embedded cs)) (w\<lparr>w_points := s\<rparr>)"
        using A stored by (auto simp: list_all_iff)
    qed auto
    with Inr show ?thesis by blast
  qed
qed simp

lemma store_ready_cases:
  assumes "store_ready sv job db = Inr (moved, db')"
  obtains "\<not> moved" "db' = db"
  | db1 n where "moved" "documents_transition_status_for_user (sv_unicode sv) (job_document_id job)
      (job_owner_id job) DocumentStatus.PROCESSING DocumentStatus.READY None None db = Inr (True, db1)"
      "chunks_mark_embedded (sv_unicode sv) (job_document_id job) (job_owner_id job) (sv_model_id sv) (sv_dimension sv) db1
        = Inr (n, db')"
  using assms by (auto simp: store_ready_def split: if_splits prod.splits)

lemma searchable_embedded:
  "vector_stored Q m k s u d c \<Longrightarrow> searchable Q s u d (set_embedded m k c)"
  by (auto simp: searchable_def set_embedded_def vector_stored_def split: option.splits)

lemma psafe_store_ready:
  assumes j: "job_of d u job"
  shows "psafe sv (db_tx (store_ready sv job)) (Hold d u (Embedded cs)) (moved_post Idle (Hold d u (Embedded cs)))"
proof (rule psafe_tx)
  fix w moved db'
  assume I: "documents_honest (sv_qdrant sv) w" and A: "holds sv (Hold d u (Embedded cs)) w"
    and f: "store_ready sv job (w_db w) = Inr (moved, db')"
  show "\<exists>ph'. good_step sv (Hold d u (Embedded cs)) w (w\<lparr>w_db := db'\<rparr>) ph' \<and>
      moved_post Idle (Hold d u (Embedded cs)) (Inr moved) ph'"
    using f
  proof (cases rule: store_ready_cases)
    case 1
    with I A show ?thesis by (auto simp: moved_post_def intro: good_step_refl)
  next
    case (2 db1 n)
    note v = transition_views [OF 2(2) honest_wf [OF I] job_of_parse [OF j]]
    then have wf1: "wf_db db1" and ow: "owned_by (db_documents db1) u d" by simp_all
    note g = mark_embedded_views [OF 2(3) wf1 job_of_parse [OF j] ow]
    have "good_step sv (Hold d u (Embedded cs)) w (w\<lparr>w_db := db'\<rparr>) Idle"
    proof (rule good_stepI [OF I, where t = d])
      show "wf_db (w_db (w\<lparr>w_db := db'\<rparr>))" using g by simp
      show "keeps (sv_qdrant sv) d' w (w\<lparr>w_db := db'\<rparr>)" if "d' \<noteq> d" for d'
        using v g that by (intro keeps_views) auto
      show "facts (sv_qdrant sv) (w_db (w\<lparr>w_db := db'\<rparr>)) (w_points (w\<lparr>w_db := db'\<rparr>)) d (u', st, n')"
        if "doc_view (w_db (w\<lparr>w_db := db'\<rparr>)) d = [(u', st, n')]" for u' st n'
        using that A g v by (auto simp: has_chunks_def list_all_iff searchable_embedded)
    qed auto
    with 2 show ?thesis by (auto simp: moved_post_def)
  qed
qed simp

text \<open>The embedder's contract, which \<open>FastEmbedProvider\<close> keeps: one vector per text.\<close>

definition one_vector_each :: "(ustr list \<Rightarrow> (exn, vector list) result) \<Rightarrow> bool" where
  "one_vector_each f \<longleftrightarrow> (\<forall>texts vs. f texts = Inr vs \<longrightarrow> length vs = length texts)"

lemma psafe_keep_ready:
  assumes Q: "qdrant_writes (sv_qdrant sv)" and j: "job_of d u job"
    and chunks: "chunks = map chunk_to_domain (sort_key chk_chunk_index cs)"
    and cs: "\<forall>c \<in> set cs. chk_document_id c = d" "distinct (map chk_id cs)" and len: "length vs = length cs"
  shows "psafe sv (keep_ready sv job final chunks vs) (Hold d u (Embedding cs)) (stage_post d u DocumentStatus.CHUNKED)"
proof (cases "list_ex (\<lambda>v. int (length v) \<noteq> sv_dimension sv) vs")
  case True
  with psafe_fail [OF j, of "Embedding cs" DocumentStatus.CHUNKED] show ?thesis by (simp add: keep_ready_def)
next
  case False
  let ?xs = "sort_key chk_chunk_index cs"
  note tr1 = psafe_transient [OF j, of "Embedding cs" DocumentStatus.CHUNKED, simplified]
  note tr2 = psafe_transient [OF j, of "Embedded cs" DocumentStatus.CHUNKED, simplified]
  have width: "\<forall>v \<in> set vs. int (length v) = sv_dimension sv" using False by (auto simp: list_ex_iff)
  have dist: "distinct (map chk_id ?xs)" using cs(2) by (simp add: distinct_map)
  have up: "psafe sv (vectors_call (vectors_upsert (sv_qdrant sv) (map (\<lambda>(c, v). record_for sv d u c v) (zip ?xs vs))))
    (Hold d u (Embedding cs))
    (\<lambda>r ph. (\<exists>x. r = Inr x) \<and> ph = Hold d u (Embedded cs) \<or> (\<exists>e. r = Inl e) \<and> ph = Hold d u (Embedding cs))"
    by (rule psafe_upsert [OF Q _ _ dist cs(1) width]) (use len in auto)
  show ?thesis
    using False unfolding keep_ready_def chunks vector_records [OF j]
    by (auto intro!: tr1 tr2 safe_tryP [OF up] safe_try_moved [OF psafe_store_ready [OF j]])
qed

lemma psafe_embed_chunks:
  assumes Q: "qdrant_writes (sv_qdrant sv)" and E: "one_vector_each (sv_embed sv)" and j: "job_of d u job"
  shows "psafe sv (embed_chunks sv job final) (Hold d u ToEmbed) (stage_post d u DocumentStatus.CHUNKED)"
  unfolding embed_chunks_def
proof (rule safe_bindP [OF psafe_read_chunks [OF j]])
  fix chunks ph assume r: "chunks_read d u (Inr chunks) ph"
  note fl = psafe_fail [OF j, of ToEmbed DocumentStatus.CHUNKED, simplified]
  show "psafe sv (if chunks = [] then fail sv job NO_CHUNKS_TO_EMBED
      else tryP (in_thread (sv_embed sv (map dc_content chunks)))
        (\<lambda>e. if e = EmbeddingError then transient sv job EMBEDDING_FAILURE final DocumentStatus.CHUNKED else Raise e)
        (keep_ready sv job final chunks)) ph (stage_post d u DocumentStatus.CHUNKED)"
  proof (cases "chunks = []")
    case True
    with r fl show ?thesis by (auto simp: chunks_read_def)
  next
    case False
    with r obtain cs where c: "chunks = map chunk_to_domain (sort_key chk_chunk_index cs)"
      "\<forall>c \<in> set cs. chk_document_id c = d" "distinct (map chk_id cs)" and ph: "ph = Hold d u (Embedding cs)"
      by (auto simp: chunks_read_def)
    note tr = psafe_transient [OF j, of "Embedding cs" DocumentStatus.CHUNKED, simplified]
    have emb: "psafe sv (in_thread (sv_embed sv (map dc_content chunks))) ph
        (\<lambda>r ph'. ph' = ph \<and> (\<forall>vs. r = Inr vs \<longrightarrow> length vs = length cs))"
      using E c(1) by (intro psafe_thread) (auto simp: one_vector_each_def)
    have "psafe sv (tryP (in_thread (sv_embed sv (map dc_content chunks)))
        (\<lambda>e. if e = EmbeddingError then transient sv job EMBEDDING_FAILURE final DocumentStatus.CHUNKED else Raise e)
        (keep_ready sv job final chunks)) ph (stage_post d u DocumentStatus.CHUNKED)"
    proof (rule safe_tryP [OF emb])
      fix vs ph' assume "ph' = ph \<and> (\<forall>vs'. Inr vs = (Inr vs' :: (exn, vector list) result) \<longrightarrow> length vs' = length cs)"
      then show "psafe sv (keep_ready sv job final chunks vs) ph' (stage_post d u DocumentStatus.CHUNKED)"
        unfolding ph using psafe_keep_ready [OF Q j c] by auto
    next
      fix e ph' assume "ph' = ph \<and> (\<forall>vs'. Inl e = (Inr vs' :: (exn, vector list) result) \<longrightarrow> length vs' = length cs)"
      then show "psafe sv (if e = EmbeddingError then transient sv job EMBEDDING_FAILURE final DocumentStatus.CHUNKED else Raise e)
          ph' (stage_post d u DocumentStatus.CHUNKED)"
        unfolding ph using tr by auto
    qed
    with False show ?thesis by simp
  qed
next
  fix e ph assume "chunks_read d u (Inl e) ph"
  then show "stage_post d u DocumentStatus.CHUNKED (Inl e) ph" by (simp add: chunks_read_def)
qed

lemma psafe_embed_claimed:
  assumes Q: "qdrant_writes (sv_qdrant sv)" and E: "one_vector_each (sv_embed sv)" and j: "job_of d u job"
  shows "psafe sv (embed_claimed sv job final) (Hold d u ToEmbed) (stage_post d u DocumentStatus.CHUNKED)"
proof -
  note fl = psafe_fail [OF j, of ToEmbed DocumentStatus.CHUNKED, simplified]
  have rest: "psafe sv (case over of Some r \<Rightarrow> Return r | None \<Rightarrow> embed_chunks sv job final) ph
      (stage_post d u DocumentStatus.CHUNKED)" if "rechunk_post d u (Inr over) ph" for over ph
    using that psafe_embed_chunks [OF Q E j] by (cases over) (auto simp: rechunk_post_def)
  show ?thesis
    unfolding embed_claimed_def
    by (auto intro!: fl psafe_embed_chunks [OF Q E j] rest safe_bindP [OF psafe_rechunk [OF Q j]]
        safe_bindP [OF psafe_plain_read [where R = "\<lambda>_ ph. ph = Hold d u ToEmbed"]] simp: rechunk_post_def)
qed

section \<open>Deliveries\<close>

lemma psafe_run_claimed:
  assumes "qdrant_writes (sv_qdrant sv)" and "one_vector_each (sv_embed sv)" and "job_of d u job"
  shows "psafe sv (run_claimed sv job target stage final) (Hold d u (claimed_hold stage)) (stage_post d u (starts_at stage))"
  using psafe_process_claimed [OF assms(3)] psafe_chunk_claimed [OF assms(3)] psafe_embed_claimed [OF assms]
  by (cases stage) (simp_all add: run_claimed_def)

definition delivery_post :: "(exn, IngestionResult) result \<Rightarrow> phase \<Rightarrow> bool" where
  "delivery_post r ph \<longleftrightarrow>
     (\<forall>x. r = Inr x \<longrightarrow> res_outcome x \<in> {IngestionOutcome.PARSED, IngestionOutcome.CHUNKED, IngestionOutcome.READY}
        \<longrightarrow> ph = Idle)"

lemma delivery_post_raise [simp]: "delivery_post (Inl e) ph"
  by (simp add: delivery_post_def)

lemma psafe_release_after:
  assumes "job_of d u job"
  shows "psafe sv (release_after_interruption sv job (release_to h)) (Hold d u h) (\<lambda>_ _. True)"
  unfolding release_after_interruption_def
  by (rule safe_try_moved [OF psafe_release [OF assms]]) auto

lemma psafe_run_stage:
  assumes Q: "qdrant_writes (sv_qdrant sv)" and E: "one_vector_each (sv_embed sv)" and j: "job_of d u job"
  shows "psafe sv (run_stage sv job target stage final) Idle delivery_post"
proof -
  have body: "psafe sv (tryP (run_claimed sv job target stage final)
      (\<lambda>e. if e = CancelledError
         then bindP (release_after_interruption sv job (starts_at stage)) (\<lambda>_. Raise CancelledError) else Raise e)
      Return) (Hold d u (claimed_hold stage)) delivery_post"
  proof (rule safe_tryP [OF psafe_run_claimed [OF Q E j]])
    fix x ph assume "stage_post d u (starts_at stage) (Inr x) ph"
    then show "psafe sv (Return x) ph delivery_post" by (simp add: stage_post_def delivery_post_def)
  next
    fix e ph assume p: "stage_post d u (starts_at stage) (Inl e) ph"
    show "psafe sv (if e = CancelledError then bindP (release_after_interruption sv job (starts_at stage)) (\<lambda>_. Raise CancelledError)
        else Raise e) ph delivery_post"
    proof (cases "e = CancelledError")
      case True
      with p obtain h where h: "ph = Hold d u h" "release_to h = starts_at stage" by (auto simp: stage_post_def)
      from psafe_release_after [OF j, of sv h] show ?thesis
        unfolding h(1) h(2) [symmetric] by (auto simp: True intro: safe_bindP)
    qed simp
  qed
  show ?thesis
    unfolding run_stage_def
    by (rule safe_bind_moved [OF psafe_claim [OF j]]) (use body in \<open>auto simp: delivery_post_def skipped_def\<close>)
qed

lemma psafe_run_from_parsed:
  assumes "qdrant_writes (sv_qdrant sv)" and "one_vector_each (sv_embed sv)" and "job_of d u job"
  shows "psafe sv (run_from_parsed sv job target final) Idle (\<lambda>_ _. True)"
proof -
  have weak: "psafe sv p Idle (\<lambda>_ _. True)" if "psafe sv p Idle delivery_post" for p
    using that by (rule safe_conseq) simp
  note stage = psafe_run_stage [OF assms]
  have tail: "psafe sv (if res_outcome x \<noteq> IngestionOutcome.CHUNKED then Return x else run_stage sv job target EMBED final) ph (\<lambda>_ _. True)"
    if "delivery_post (Inr x) ph" for x ph
    using that weak [OF stage] by (auto simp: delivery_post_def)
  then show ?thesis
    unfolding run_from_parsed_def
    by (cases "tgt_status target = DocumentStatus.CHUNKED")
      (auto intro!: weak [OF stage] safe_bindP [OF stage] tail simp del: if_not_P)
qed

lemma psafe_run_from:
  assumes "qdrant_writes (sv_qdrant sv)" and "one_vector_each (sv_embed sv)" and "job_of d u job"
  shows "psafe sv (run_from sv job target final) Idle (\<lambda>_ _. True)"
proof -
  note stage = psafe_run_stage [OF assms] and rest = psafe_run_from_parsed [OF assms]
  have "psafe sv (if res_outcome x \<noteq> IngestionOutcome.PARSED then Return x else run_from_parsed sv job target final) ph (\<lambda>_ _. True)"
    if "delivery_post (Inr x) ph" for x ph
    using that rest by (auto simp: delivery_post_def)
  then show ?thesis
    unfolding run_from_def by (auto intro!: rest safe_bindP [OF stage])
qed

lemma target_owner:
  assumes "documents_get_ingestion_target_for_user U ds us db = Inr (Some target)"
  obtains d u where "parse_text U ds = Some d" "parse_text U us = Some u"
    "tgt_document_id target = uuid_str d" "tgt_owner_id target = uuid_str u"
proof (cases rule: scoped_cases [of U ds us])
  case malformed
  with assms show ?thesis by (auto simp: documents_get_ingestion_target_for_user_def scoped_none)
next
  case (parsed d u)
  then obtain r where "filter (owned_live d u) (db_documents db) = [r]" "target = ingestion_target r"
    using assms by (auto simp: documents_get_ingestion_target_for_user_def scoped_eq one_or_none_Some select_where_def)
  then have "owned_live d u r" "target = ingestion_target r"
    by (metis Cons_eq_filterD, simp)
  with parsed that show ?thesis by (auto simp: owned_live_def ingestion_target_def)
qed

lemma psafe_ingest:
  assumes Q: "qdrant_writes (sv_qdrant sv)" and E: "one_vector_each (sv_embed sv)"
    and id: "job_document_id job = uuid_str d"
  shows "psafe sv (ingest sv job final) Idle (\<lambda>_ _. True)"
proof -
  have nf: "psafe sv (not_found sv job) Idle (\<lambda>_ _. True)"
    unfolding not_found_def by (auto intro!: safe_bindP [OF psafe_plain_read [where R = "\<lambda>_ _. True"]])
  have rd: "psafe sv (read_target sv job) Idle (\<lambda>r ph. ph = Idle \<and>
      (\<forall>target. r = Inr (Some target) \<longrightarrow> (\<exists>u. tgt_owner_id target = uuid_str u)))"
    unfolding read_target_def by (rule psafe_read) (auto elim: target_owner)
  have go: "psafe sv (case found of None \<Rightarrow> not_found sv job
      | Some target \<Rightarrow> (case job_disagrees_with job target of
          Some mismatch \<Rightarrow> Return (rejected job mismatch) | None \<Rightarrow> run_from sv job target final)) Idle (\<lambda>_ _. True)"
    if f: "\<forall>target. Inr found = (Inr (Some target) :: (exn, IngestionTarget option) result) \<longrightarrow> (\<exists>u. tgt_owner_id target = uuid_str u)"
    for found
  proof (cases found)
    case (Some target)
    with f obtain u where u: "tgt_owner_id target = uuid_str u" by auto
    show ?thesis
    proof (cases "job_disagrees_with job target")
      case None
      then have "job_owner_id job = uuid_str u" using u by (auto simp: job_disagrees_with_def split: if_splits)
      with id have "job_of d u job" by (simp add: job_of_def)
      from psafe_run_from [OF Q E this] Some None show ?thesis by simp
    qed (simp add: Some)
  qed (simp add: nf)
  show ?thesis
    unfolding ingest_def by (auto intro!: safe_bindP [OF rd] go split: sum.split)
qed

section \<open>The other processes\<close>

text \<open>What they do, they do without holding anything.\<close>

abbreviation idle_safe :: "('q, 'r) service \<Rightarrow> (('q, 'r) world, 'a) prog \<Rightarrow> bool" where
  "idle_safe sv p \<equiv> psafe sv p Idle (\<lambda>_ ph. ph = Idle)"

lemma idle_bind: "idle_safe sv p \<Longrightarrow> (\<And>a. idle_safe sv (k a)) \<Longrightarrow> idle_safe sv (bindP p k)"
  by (rule safe_bindP) auto

lemma idle_try:
  "idle_safe sv p \<Longrightarrow> (\<And>a. idle_safe sv (k a)) \<Longrightarrow> (\<And>e. idle_safe sv (h e)) \<Longrightarrow> idle_safe sv (tryP p h k)"
  by (rule safe_tryP [where R = "\<lambda>_ ph. ph = Idle"]) auto

lemma good_step_idle: "documents_honest (sv_qdrant sv) w \<Longrightarrow> good_step sv Idle w w Idle"
  by (rule good_step_refl) auto

lemma idle_tx:
  fixes sv :: "('q, 'r) service"
  assumes "\<And>(w :: ('q, 'r) world) a db'. documents_honest (sv_qdrant sv) w \<Longrightarrow> f (w_db w) = Inr (a, db') \<Longrightarrow>
    good_step sv Idle w (w\<lparr>w_db := db'\<rparr>) Idle"
  shows "idle_safe sv (db_tx f)"
  by (rule psafe_tx) (use assms in auto)

lemma idle_claim:
  fixes sv :: "('q, 'r) service"
  assumes e: "e \<in> set RECOVERABLE_STATUSES"
  shows "idle_safe sv (transition sv job e DocumentStatus.PROCESSING None)"
  unfolding transition_def
proof (rule idle_tx)
  fix w :: "('q, 'r) world" and moved db'
  assume I: "documents_honest (sv_qdrant sv) w"
    and f: "documents_transition_status_for_user (sv_unicode sv) (job_document_id job) (job_owner_id job) e
      DocumentStatus.PROCESSING (map_option (\<lambda>r. py_str (reason_value r)) None) None (w_db w) = Inr (moved, db')"
  show "good_step sv Idle w (w\<lparr>w_db := db'\<rparr>) Idle"
  proof (cases rule: scoped_cases [of "sv_unicode sv" "job_document_id job" "job_owner_id job"])
    case malformed
    from transition_unparsed [OF malformed] f I show ?thesis by (auto intro: good_step_idle)
  next
    case (parsed d u)
    note v = transition_views [OF f honest_wf [OF I] parsed]
    show ?thesis
    proof (cases moved)
      case False
      with v I show ?thesis by (auto intro: good_step_refl)
    next
      case True
      with v obtain n where n: "doc_view (w_db w) d = [(u, e, n)]" "doc_view db' d = [(u, DocumentStatus.PROCESSING, n)]"
        by auto
      show ?thesis
      proof (rule good_stepI [OF I, where t = d])
        show "keeps (sv_qdrant sv) d' w (w\<lparr>w_db := db'\<rparr>)" if "d' \<noteq> d" for d'
          using v that by (intro keeps_views) auto
        show "facts (sv_qdrant sv) (w_db (w\<lparr>w_db := db'\<rparr>)) (w_points (w\<lparr>w_db := db'\<rparr>)) d (u', st, n')"
          if "doc_view (w_db (w\<lparr>w_db := db'\<rparr>)) d = [(u', st, n')]" for u' st n'
          using that n by simp
        show "(\<exists>u h. Idle = Hold d u h) \<or> (\<forall>u h. \<not> holds sv (Hold d u h) w)"
          using not_held [OF n(1)] e by (auto simp: RECOVERABLE_STATUSES_def)
      qed (use v in auto)
    qed
  qed
qed

lemma idle_fail:
  fixes sv :: "('q, 'r) service"
  shows "idle_safe sv (transition sv job DocumentStatus.PROCESSING DocumentStatus.FAILED reason)"
  unfolding transition_def
proof (rule idle_tx)
  fix w :: "('q, 'r) world" and moved db'
  assume I: "documents_honest (sv_qdrant sv) w"
    and f: "documents_transition_status_for_user (sv_unicode sv) (job_document_id job) (job_owner_id job)
      DocumentStatus.PROCESSING DocumentStatus.FAILED (map_option (\<lambda>r. py_str (reason_value r)) reason) None (w_db w) = Inr (moved, db')"
  show "good_step sv Idle w (w\<lparr>w_db := db'\<rparr>) Idle"
  proof (cases rule: scoped_cases [of "sv_unicode sv" "job_document_id job" "job_owner_id job"])
    case malformed
    from transition_unparsed [OF malformed] f I show ?thesis by (auto intro: good_step_idle)
  next
    case (parsed d u)
    note v = transition_views [OF f honest_wf [OF I] parsed]
    then have "keeps (sv_qdrant sv) d' w (w\<lparr>w_db := db'\<rparr>)" for d'
      by (cases "d' = d"; cases moved) (auto simp: keeps_def)
    with v I show ?thesis by (intro good_step_keeps) auto
  qed
qed

lemma idle_reap: "idle_safe sv (reap_stale_processing secs)"
  unfolding reap_stale_processing_def
proof (rule idle_tx)
  fix w :: "('a, 'b) world" and ids db'
  assume I: "documents_honest (sv_qdrant sv) w"
    and f: "documents_fail_stale_processing secs (py_str (reason_value STALE_PROCESSING)) (w_db w) = Inr (ids, db')"
  from reap_views [OF f honest_wf [OF I]] I show "good_step sv Idle w (w\<lparr>w_db := db'\<rparr>) Idle"
    by (intro good_step_keeps) (auto simp: keeps_def)
qed

lemma idle_store_call:
  assumes "\<And>w. w_db (snd (f w)) = w_db w \<and> w_points (snd (f w)) = w_points w"
  shows "idle_safe sv (call f)"
  by (rule psafe_store_call [OF assms]) simp

lemma idle_read: "idle_safe sv (db_read f)"
  by (rule psafe_plain_read) simp

lemma idle_thread: "idle_safe sv (in_thread r)"
  by (rule psafe_thread) auto

lemma idle_of_result: "idle_safe sv (of_result r)"
  by simp

lemma idle_enqueue: "idle_safe sv (enqueue sv job)"
  unfolding enqueue_def by (rule idle_store_call) (simp add: split_beta)

lemma idle_storage_put: "idle_safe sv (storage_put key data)"
  unfolding storage_put_def by (rule idle_store_call) (simp add: split_beta)

lemma idle_storage_delete: "idle_safe sv (storage_delete key)"
  unfolding storage_delete_def by (rule idle_store_call) simp

lemma idle_recover_loop: "idle_safe sv (recover_loop sv targets requeued already skips)"
  by (induction targets arbitrary: requeued already skips)
    (auto intro!: idle_bind idle_enqueue split: option.split)

lemma idle_recover: "idle_safe sv (recover_pending sv limit)"
  unfolding recover_pending_def by (intro idle_bind idle_read idle_recover_loop)

lemma idle_claim_any: "set statuses \<subseteq> set RECOVERABLE_STATUSES \<Longrightarrow> idle_safe sv (claim_any sv job statuses claimed)"
  by (induction statuses arbitrary: claimed) (auto intro!: idle_bind idle_claim)

lemma idle_given_up: "idle_safe sv (record_given_up sv job)"
  unfolding record_given_up_def is_processing_def read_target_def
  by (auto intro!: idle_bind idle_claim_any idle_read idle_fail)

lemma idle_create:
  fixes sv :: "('q, 'r) service"
  assumes "nd_status v = DocumentStatus.PENDING"
  shows "idle_safe sv (db_tx (documents_create U new_id user_id v))"
proof (rule idle_tx)
  fix w :: "('q, 'r) world" and doc db'
  assume I: "documents_honest (sv_qdrant sv) w" and f: "documents_create U new_id user_id v (w_db w) = Inr (doc, db')"
  note c = create_views [OF f honest_wf [OF I]]
  show "good_step sv Idle w (w\<lparr>w_db := db'\<rparr>) Idle"
  proof (rule good_stepI [OF I, where t = new_id])
    show "keeps (sv_qdrant sv) d' w (w\<lparr>w_db := db'\<rparr>)" if "d' \<noteq> new_id" for d'
      using c that by (intro keeps_views) auto
    show "facts (sv_qdrant sv) (w_db (w\<lparr>w_db := db'\<rparr>)) (w_points (w\<lparr>w_db := db'\<rparr>)) new_id (u', st, n')"
      if "doc_view (w_db (w\<lparr>w_db := db'\<rparr>)) new_id = [(u', st, n')]" for u' st n'
      using that c assms absent_children [OF honest_wf [OF I], of new_id] by auto
    show "(\<exists>u h. Idle = Hold new_id u h) \<or> (\<forall>u h. \<not> holds sv (Hold new_id u h) w)"
      using c by auto
  qed (use c in auto)
qed

lemma idle_soft_delete:
  fixes sv :: "('q, 'r) service"
  shows "idle_safe sv (soft_delete sv document_id user_id)"
  unfolding soft_delete_def
proof (rule idle_tx)
  fix w :: "('q, 'r) world" and b db'
  assume I: "documents_honest (sv_qdrant sv) w"
    and f: "documents_soft_delete_for_user (sv_unicode sv) document_id user_id (w_db w) = Inr (b, db')"
  from soft_delete_views [OF f honest_wf [OF I]] I show "good_step sv Idle w (w\<lparr>w_db := db'\<rparr>) Idle"
    by (intro good_step_keeps keeps_views) auto
qed

lemma idle_discard: "idle_safe sv (discard key created)"
  unfolding discard_def by (auto intro!: idle_try idle_storage_delete)

lemma idle_upload: "idle_safe sv (upload_and_process sv ul new_id filename stream caller)"
proof -
  have find: "idle_safe sv (find_content sv hash owner)" for hash owner
    unfolding find_content_def by (rule idle_read)
  have undo: "idle_safe sv (undo_unqueued_upload sv doc owner key created)" for doc owner key created
    unfolding undo_unqueued_upload_def by (auto intro!: idle_try idle_soft_delete idle_discard)
  have rec: "idle_safe sv (not_recorded sv hash owner key created e)" for hash owner key created e
    unfolding not_recorded_def Let_def
    by (auto intro!: idle_bind idle_discard find split: exn.split option.split)
  have over: "idle_safe sv (hand_over sv owner key created v doc)" for owner key created v doc
    unfolding hand_over_def by (auto intro!: idle_try idle_bind idle_enqueue undo)
  have store: "idle_safe sv (store_upload sv new_id name data owner v)" for name data owner v
    unfolding store_upload_def
    by (auto intro!: idle_bind idle_try find idle_of_result idle_storage_put idle_create rec over
        simp: upload_values_def simp del: safe_of_result split: option.split)
  show ?thesis
    unfolding upload_and_process_def by (intro idle_bind idle_of_result idle_thread store)
qed

section \<open>The system\<close>

text \<open>A process whose result nobody looks at, and the database clock, which moves as it likes.\<close>

definition background :: "('w, 'a) prog \<Rightarrow> ('w, unit) prog" where
  "background p = bindP p (\<lambda>_. Return ())"

definition clock :: "timestamp \<Rightarrow> (('q, 'r) world, unit) prog" where
  "clock now = call (\<lambda>w. (Inr (), w\<lparr>w_db := (w_db w)\<lparr>db_now := now\<rparr>\<rparr>))"

text \<open>
  Everything that runs: deliveries of jobs whose document id is a canonical one (as the upload
  service and the recovery sweep build them), the maintenance passes, and the document use cases.
\<close>

inductive system_process :: "('q, 'r) service \<Rightarrow> uploads \<Rightarrow> (('q, 'r) world, unit) prog \<Rightarrow> bool"
  for sv ul where
  delivery: "job_document_id job = uuid_str d \<Longrightarrow> system_process sv ul (background (ingest sv job final))"
| reaper: "system_process sv ul (background (reap_stale_processing seconds))"
| recovery: "system_process sv ul (background (recover_pending sv limit))"
| given_up: "system_process sv ul (background (record_given_up sv job))"
| upload: "system_process sv ul (background (upload_and_process sv ul new_id filename stream caller))"
| deletion: "system_process sv ul (background (delete_document sv document_id caller))"
| reading: "system_process sv ul (background (get_document sv document_id caller))"
| listing: "system_process sv ul (background (list_user_documents sv caller))"
| ticking: "system_process sv ul (clock now)"

lemma wf_db_now [simp]: "wf_db (db\<lparr>db_now := t\<rparr>) = wf_db db"
  by (simp add: wf_db_def)

lemma idle_clock: "idle_safe sv (clock now)"
  unfolding clock_def
proof (rule safe_callI)
  fix w :: "('a, 'b) world" and r w'
  assume I: "documents_honest (sv_qdrant sv) w" "holds sv Idle w"
    and f: "(Inr (), w\<lparr>w_db := (w_db w)\<lparr>db_now := now\<rparr>\<rparr>) = (r, w')"
  have "good_step sv Idle w w' Idle"
    using I f honest_wf [OF I(1)]
    by (intro good_step_keeps) (auto simp: keeps_def doc_view_def pages_of_def chunks_of_def)
  then show "documents_honest (sv_qdrant sv) w' \<and> (\<exists>ph'. holds sv ph' w' \<and> ph' = Idle \<and>
      (\<forall>o'. apart Idle o' \<longrightarrow> holds sv o' w \<longrightarrow> apart ph' o' \<and> holds sv o' w'))"
    by (auto simp: good_step_def)
qed simp

lemma psafe_background: "psafe sv p Idle (\<lambda>_ _. True) \<Longrightarrow> psafe sv (background p) Idle (\<lambda>_ _. True)"
  unfolding background_def by (rule safe_bindP) auto

lemma psafe_system:
  assumes "system_process sv ul p" and "qdrant_writes (sv_qdrant sv)" and "one_vector_each (sv_embed sv)"
  shows "psafe sv p Idle (\<lambda>_ _. True)"
proof -
  show ?thesis
    using assms(1)
  proof cases
    case (delivery job d final)
    with psafe_ingest [OF assms(2,3)] show ?thesis by (auto intro: psafe_background)
  qed (auto intro!: psafe_background safe_conseq [OF idle_reap] safe_conseq [OF idle_recover]
      safe_conseq [OF idle_given_up] safe_conseq [OF idle_upload] safe_conseq [OF idle_clock]
      safe_conseq [OF idle_soft_delete] safe_conseq [OF idle_read]
      simp: delete_document_def get_document_def list_user_documents_def)
qed

end
