(* ===== verification/Effects.thy ===== *)
theory Effects
  imports PipelineSafety
begin

text \<open>
  What a coroutine may do to the world and how it may end. \<open>does allowed R Q p\<close>: every step of \<open>p\<close>,
  whatever the world is when it is resumed and whichever allowed choice is made, takes the world
  from \<open>w\<close> to a \<open>w'\<close> with \<open>R w w'\<close>, and \<open>p\<close> ends only in a result with \<open>Q\<close>. It is a weaker
  obligation than \<open>safe\<close>, without phases, and it allows lost acknowledgements; it says of a pool
  that the world only ever moves by \<open>R\<close>. The locale \<open>system_effects\<close> is the list of the
  transactions of the whole system: a relation that contains them contains every step of it.
\<close>

primrec does ::
  "(choice \<Rightarrow> bool) \<Rightarrow> ('w \<Rightarrow> 'w \<Rightarrow> bool) \<Rightarrow> ((exn, 'a) result \<Rightarrow> bool) \<Rightarrow> ('w, 'a) prog \<Rightarrow> bool" where
  "does allowed R Q (Return a) = Q (Inr a)"
| "does allowed R Q (Raise e) = Q (Inl e)"
| "does allowed R Q (Await f) =
     (\<forall>c w. allowed c \<longrightarrow> (case map_prod id (does allowed R Q) (f c w) of (w', b) \<Rightarrow> R w w' \<and> b))"

lemma does_Await:
  "does allowed R Q (Await f) \<longleftrightarrow>
     (\<forall>c w. allowed c \<longrightarrow> R w (fst (f c w)) \<and> does allowed R Q (snd (f c w)))"
  by (simp add: map_prod_def split_beta)

declare does.simps(3) [simp del]

lemma does_AwaitD:
  "does allowed R Q (Await f) \<Longrightarrow> allowed c \<Longrightarrow> f c w = (w', p) \<Longrightarrow> R w w' \<and> does allowed R Q p"
  unfolding does_Await by (metis fst_conv snd_conv)

section \<open>Composition\<close>

lemma does_tryP:
  assumes "does allowed R P p" and "\<And>a. P (Inr a) \<Longrightarrow> does allowed R Q (k a)" and "\<And>e. P (Inl e) \<Longrightarrow> does allowed R Q (h e)"
  shows "does allowed R Q (tryP p h k)"
  using assms
proof (induction p)
  case (Await f)
  have "does allowed R Q (tryP (snd (f c w)) h k)" if "allowed c" for c w
    using Await.IH [of "f c" "f c w" "snd (f c w)"] Await.prems that by (auto simp: snds.simps does_Await)
  with Await.prems(1) show ?case by (simp add: does_Await)
qed auto

lemma does_bindP:
  assumes "does allowed R P p" and "\<And>a. P (Inr a) \<Longrightarrow> does allowed R Q (k a)" and "\<And>e. P (Inl e) \<Longrightarrow> Q (Inl e)"
  shows "does allowed R Q (bindP p k)"
  unfolding bindP_def using assms by (intro does_tryP [where P = P]) auto

lemma does_conseq:
  assumes "does allowed R P p" and "\<And>r. P r \<Longrightarrow> Q r"
  shows "does allowed R Q p"
  using assms
proof (induction p)
  case (Await f)
  have "does allowed R Q (snd (f c w))" if "allowed c" for c w
    using Await.IH [of "f c" "f c w" "snd (f c w)"] Await.prems that by (auto simp: snds.simps does_Await)
  with Await.prems(1) show ?case by (simp add: does_Await)
qed auto

lemma does_of_result [simp]: "does allowed R Q (of_result r) \<longleftrightarrow> Q r"
  by (cases r) simp_all

text \<open>The exceptions that may come from outside, at any \<open>await\<close>, before or after it took effect.\<close>

definition raising :: "(exn \<Rightarrow> bool) \<Rightarrow> choice \<Rightarrow> bool" where
  "raising ext c \<longleftrightarrow> (case c of Proceed \<Rightarrow> True | FailBefore e \<Rightarrow> ext e | FailAfter e \<Rightarrow> ext e)"

lemma raising_simps [simp]:
  "raising ext Proceed" "raising ext (FailBefore e) = ext e" "raising ext (FailAfter e) = ext e"
  by (simp_all add: raising_def)

lemma does_call:
  assumes "\<And>w. R w w" and "\<And>w. R w (snd (f w))" and "\<And>w. Q (fst (f w))" and "\<And>e. ext e \<Longrightarrow> Q (Inl e)"
  shows "does (raising ext) R Q (call f)"
  unfolding call_def does_Await using assms by (auto split: choice.split)

lemma does_query:
  assumes "\<And>w. R w w" and "\<And>w. Q (f w)" and "\<And>e. ext e \<Longrightarrow> Q (Inl e)"
  shows "does (raising ext) R Q (query f)"
  unfolding query_def using assms by (intro does_call) auto

section \<open>One run, and a pool\<close>

lemma does_run:
  assumes "does allowed R Q p" and "allowed Proceed" and "list_all allowed cs"
  shows "Q (fst (run p cs w)) \<and> R\<^sup>*\<^sup>* w (snd (snd (run p cs w)))"
  using assms
proof (induction p arbitrary: cs w)
  case (Await f)
  obtain w' p' where f: "f (next_choice cs) w = (w', p')" by fastforce
  have c: "allowed (next_choice cs)" "list_all allowed (tl cs)"
    using Await.prems(2,3) by (cases cs; simp)+
  with does_AwaitD [OF Await.prems(1) _ f] have R: "R w w'" and p': "does allowed R Q p'" by simp_all
  have "Q (fst (run p' (tl cs) w')) \<and> R\<^sup>*\<^sup>* w' (snd (snd (run p' (tl cs) w')))"
    using Await.IH [of "f (next_choice cs)" "f (next_choice cs) w" p' "tl cs" w'] f p' Await.prems(2) c(2) rangeI [of "f (next_choice cs)" w]
    by (simp add: snds.simps)
  with R f show ?case by (auto intro: converse_rtranclp_into_rtranclp)
qed auto

lemma does_pool:
  assumes "reachable allowed startable w0 s"
    and "\<And>p. startable p \<Longrightarrow> does allowed R (\<lambda>_. True) p"
  shows "R\<^sup>*\<^sup>* w0 (fst s) \<and> list_all (does allowed R (\<lambda>_. True)) (snd s)"
  using assms(1)
proof induction
  case (further s s')
  from further(2) show ?case
  proof (cases rule: pool_step.cases)
    case (resume c f w w' p' xs ys)
    with further.IH have "does allowed R (\<lambda>_. True) (Await f)" by simp
    from does_AwaitD [OF this resume(3,4)] have "R w w'" "does allowed R (\<lambda>_. True) p'" by simp_all
    with resume further.IH show ?thesis by (auto intro: rtranclp.rtrancl_into_rtrancl)
  qed (use further.IH assms(2) in auto)
qed simp

text \<open>A property that every step keeps holds in every reachable state.\<close>

lemma pool_keeps:
  assumes "reachable allowed startable w0 s" and "\<And>p. startable p \<Longrightarrow> does allowed R (\<lambda>_. True) p"
    and "J w0" and "\<And>w w'. R w w' \<Longrightarrow> J w \<Longrightarrow> J w'"
  shows "J (fst s)"
proof -
  have "R\<^sup>*\<^sup>* w0 (fst s)" using does_pool [OF assms(1,2)] by simp
  then show ?thesis by (induction rule: rtranclp_induct) (use assms(3,4) in auto)
qed

section \<open>The transactions of the system\<close>

definition on_db :: "(database \<Rightarrow> database \<Rightarrow> bool) \<Rightarrow> ('q, 'r) world \<Rightarrow> ('q, 'r) world \<Rightarrow> bool" where
  "on_db D w w' \<longleftrightarrow> D (w_db w) (w_db w')"

lemma on_db_simps [simp]:
  "on_db D (w\<lparr>w_points := s\<rparr>) w' = on_db D w w'" "on_db D w (w'\<lparr>w_points := s\<rparr>) = on_db D w w'"
  "on_db D w (w'\<lparr>w_objects := x\<rparr>) = on_db D w w'" "on_db D w (w'\<lparr>w_queue := q\<rparr>) = on_db D w w'"
  "on_db D w (w'\<lparr>w_db := db\<rparr>) = D (w_db w) db"
  by (simp_all add: on_db_def)

text \<open>The moves of the state machine that are not combined with writing pages or chunks.\<close>

definition legal_move :: "DocumentStatus \<Rightarrow> DocumentStatus \<Rightarrow> IngestionReason option \<Rightarrow> bool" where
  "legal_move expected new reason \<longleftrightarrow>
     expected \<in> set RECOVERABLE_STATUSES \<and> new = DocumentStatus.PROCESSING \<and> reason = None
     \<or> expected = DocumentStatus.PROCESSING \<and> new \<in> set RECOVERABLE_STATUSES \<and> reason = None
     \<or> expected = DocumentStatus.PROCESSING \<and> new = DocumentStatus.FAILED \<and> reason \<noteq> None"

lemma starts_recoverable [simp]: "starts_at stage \<in> set RECOVERABLE_STATUSES"
  by (cases stage) (simp_all add: RECOVERABLE_STATUSES_def)

lemma legal_moves [simp]:
  "st \<in> set RECOVERABLE_STATUSES \<Longrightarrow> legal_move st DocumentStatus.PROCESSING None"
  "st \<in> set RECOVERABLE_STATUSES \<Longrightarrow> legal_move DocumentStatus.PROCESSING st None"
  "legal_move DocumentStatus.PROCESSING DocumentStatus.FAILED (Some r)"
  by (simp_all add: legal_move_def)

text \<open>Exceptions that only the ingestion service or the worker raises, as a signal to its caller.\<close>

definition is_signal :: "exn \<Rightarrow> bool" where
  "is_signal e \<longleftrightarrow> (\<exists>r. e = TransientIngestionError r) \<or> (\<exists>n. e = Retry n)"

lemma is_signal_simps [simp]:
  "is_signal (TransientIngestionError r)" "is_signal (Retry n)" "\<not> is_signal (DatabaseError d)"
  "\<not> is_signal ValueError" "\<not> is_signal StorageError" "\<not> is_signal StorageObjectMissing"
  "\<not> is_signal VectorStoreError" "\<not> is_signal CancelledError" "\<not> is_signal EmbeddingError"
  by (simp_all add: is_signal_def)

lemma write_errors:
  "write_documents rows db = Inl e \<Longrightarrow> \<not> is_signal e"
  "write_pages pages db = Inl e \<Longrightarrow> \<not> is_signal e"
  "write_chunks chunks db = Inl e \<Longrightarrow> \<not> is_signal e"
  "one_or_none xs = Inl e \<Longrightarrow> \<not> is_signal e"
  by (auto simp: write_documents_def write_pages_def write_chunks_def one_or_none_def split: option.splits list.splits)

lemma scoped_error: "scoped U d u n k = Inl e \<Longrightarrow> n = Inl e \<or> (\<exists>t ow. k t ow = Inl e)"
  by (auto simp: scoped_def split: option.splits)

lemma transition_error:
  "documents_transition_status_for_user U d u x y r c db = Inl e \<Longrightarrow> \<not> is_signal e"
  by (auto simp: documents_transition_status_for_user_def bind_result_eq_Inl dest!: scoped_error dest: write_errors)

lemma load_page_error: "load_page r = Inl e \<Longrightarrow> \<not> is_signal e"
proof -
  have blocks: "map_result (\<lambda>b. mk_text_block (tb_text b) (tb_font_size b)) bs = Inl e \<Longrightarrow> \<not> is_signal e" for bs
    by (induction bs) (auto simp: bind_result_eq_Inl mk_text_block_def split: if_splits)
  show "load_page r = Inl e \<Longrightarrow> \<not> is_signal e"
    by (auto simp: load_page_def bind_result_eq_Inl mk_page_def dest: blocks split: if_splits)
qed

lemma pages_list_error: "pages_list_for_document U d u db = Inl e \<Longrightarrow> \<not> is_signal e"
proof -
  have "map_result load_page rows = Inl e \<Longrightarrow> \<not> is_signal e" for rows
    by (induction rows) (auto simp: bind_result_eq_Inl dest: load_page_error)
  then show "pages_list_for_document U d u db = Inl e \<Longrightarrow> \<not> is_signal e"
    unfolding pages_list_for_document_def by (blast dest: scoped_error)
qed

lemma loaded_page_wf: "load_page r = Inr p \<Longrightarrow> wf_page p"
proof -
  have "map_result (\<lambda>b. mk_text_block (tb_text b) (tb_font_size b)) bs = Inr bs' \<Longrightarrow> list_all wf_text_block bs'" for bs bs'
    by (induction bs arbitrary: bs') (auto simp: bind_result_eq_Inr)
  then show "load_page r = Inr p \<Longrightarrow> wf_page p"
    by (auto simp: load_page_def bind_result_eq_Inr mk_page_def wf_page_def split: if_splits)
qed

lemma loaded_pages_wf: "pages_list_for_document U d u db = Inr pages \<Longrightarrow> list_all wf_page pages"
proof -
  have "map_result load_page rows = Inr pages \<Longrightarrow> list_all wf_page pages" for rows pages
    by (induction rows arbitrary: pages) (auto simp: bind_result_eq_Inr dest: loaded_page_wf)
  then show "pages_list_for_document U d u db = Inr pages \<Longrightarrow> list_all wf_page pages"
    by (cases rule: scoped_cases [of U d u]) (auto simp: pages_list_for_document_def scoped_none scoped_eq)
qed

lemma owned_document_id_error: "owned_document_id U d u db = Inl e \<Longrightarrow> \<not> is_signal e"
  by (auto simp: owned_document_id_def bind_result_eq_Inl dest!: scoped_error dest: write_errors)

lemma repository_errors:
  "pages_add_for_user U d u pages db = Inl e \<Longrightarrow> \<not> is_signal e"
  "chunks_add_many U h d u chunking db = Inl e \<Longrightarrow> \<not> is_signal e"
  "chunks_delete_for_document U d u db = Inl e \<Longrightarrow> \<not> is_signal e"
  "chunks_mark_embedded U d u model width db = Inl e \<Longrightarrow> \<not> is_signal e"
  "documents_create U i u v db = Inl e \<Longrightarrow> \<not> is_signal e"
  "documents_soft_delete_for_user U d u db = Inl e \<Longrightarrow> \<not> is_signal e"
  "documents_get_for_user U d u db = Inl e \<Longrightarrow> \<not> is_signal e"
  "documents_get_ingestion_target_for_user U d u db = Inl e \<Longrightarrow> \<not> is_signal e"
  "documents_find_live_by_content_hash_for_user U hash u db = Inl e \<Longrightarrow> \<not> is_signal e"
  "documents_fail_stale_processing n reason db = Inl e \<Longrightarrow> \<not> is_signal e"
  "documents_list_for_recovery sts n db = Inl e \<Longrightarrow> \<not> is_signal e"
  by (auto simp: pages_add_for_user_def chunks_add_many_def chunks_delete_for_document_def chunks_mark_embedded_def
      documents_create_def documents_soft_delete_for_user_def documents_get_for_user_def
      documents_get_ingestion_target_for_user_def documents_find_live_by_content_hash_for_user_def
      documents_fail_stale_processing_def documents_list_for_recovery_def bind_result_eq_Inl Let_def
      dest!: scoped_error owned_document_id_error dest: write_errors split: option.splits if_splits)
    (simp_all add: is_signal_def)

lemma store_errors:
  "store_parsed sv job x db = Inl e \<Longrightarrow> \<not> is_signal e"
  "store_chunks sv job y db = Inl e \<Longrightarrow> \<not> is_signal e"
  "replace_chunks sv job y db = Inl e \<Longrightarrow> \<not> is_signal e"
  "store_ready sv job db = Inl e \<Longrightarrow> \<not> is_signal e"
  by (auto simp: store_parsed_def store_chunks_def replace_chunks_def store_ready_def bind_result_eq_Inl
      dest: transition_error repository_errors split: prod.splits if_splits)

lemma vectors_errors:
  "vectors_upsert Q records s = (Inl e, s') \<Longrightarrow> e = VectorStoreError"
  "vectors_delete_document Q d u s = (Inl e, s') \<Longrightarrow> e = VectorStoreError"
  by (auto dest: upsert_failed delete_failed)

section \<open>Every step of the system\<close>

text \<open>
  What a relation \<open>D\<close> on databases has to contain to contain every step of the processes that act
  for the users \<open>acts\<close>; \<open>ext\<close> are the exceptions that may come from outside, from a collaborator or
  at an \<open>await\<close>.
\<close>

locale system_effects =
  fixes sv :: "('q, 'r) service" and acts :: "ustr \<Rightarrow> bool" and D :: "database \<Rightarrow> database \<Rightarrow> bool" and ext :: "exn \<Rightarrow> bool"
  assumes same: "D db db"
    and moves: "acts owner \<Longrightarrow> legal_move x y reason \<Longrightarrow>
      documents_transition_status_for_user (sv_unicode sv) d owner x y (map_option (\<lambda>r. py_str (reason_value r)) reason) None db = Inr (b, db') \<Longrightarrow>
      D db db'"
    and parses: "acts (job_owner_id job) \<Longrightarrow> sv_extract sv content (sv_max_pages sv) = Inr extracted \<Longrightarrow>
      store_parsed sv job extracted db = Inr (b, db') \<Longrightarrow> D db db'"
    and chunks: "acts (job_owner_id job) \<Longrightarrow> list_all wf_page pages \<Longrightarrow> sv_chunk sv pages = Inr chunking \<Longrightarrow>
      store_chunks sv job chunking db = Inr (b, db') \<Longrightarrow> D db db'"
    and rechunks: "acts (job_owner_id job) \<Longrightarrow> list_all wf_page pages \<Longrightarrow> sv_chunk sv pages = Inr chunking \<Longrightarrow>
      replace_chunks sv job chunking db = Inr (b, db') \<Longrightarrow> D db db'"
    and readies: "acts (job_owner_id job) \<Longrightarrow> store_ready sv job db = Inr (b, db') \<Longrightarrow> D db db'"
    and creates: "acts owner \<Longrightarrow> documents_create (sv_unicode sv) i owner (upload_values name key v) db = Inr (document, db') \<Longrightarrow> D db db'"
    and deletes: "acts owner \<Longrightarrow> documents_soft_delete_for_user (sv_unicode sv) d owner db = Inr (b, db') \<Longrightarrow> D db db'"
    and outside: "\<not> is_signal e \<Longrightarrow> ext e"
    and embeds: "sv_embed sv texts = Inl e \<Longrightarrow> ext e"
    and enqueues: "sv_enqueue sv job q = (Inl e, q') \<Longrightarrow> ext e"
begin

definition ends :: "(exn, 'a) result \<Rightarrow> bool" where
  "ends r \<longleftrightarrow> (\<forall>e. r = Inl e \<longrightarrow> ext e)"

definition delivers :: "bool \<Rightarrow> (exn, 'a) result \<Rightarrow> bool" where
  "delivers final r \<longleftrightarrow> (\<forall>e. r = Inl e \<longrightarrow> ext e \<or> \<not> final \<and> (\<exists>x. e = TransientIngestionError x))"

abbreviation fine :: "(('q, 'r) world, 'a) prog \<Rightarrow> bool" where
  "fine p \<equiv> does (raising ext) (on_db D) ends p"

abbreviation delivery :: "bool \<Rightarrow> (('q, 'r) world, 'a) prog \<Rightarrow> bool" where
  "delivery final p \<equiv> does (raising ext) (on_db D) (delivers final) p"

lemma ends_simps [simp]: "ends (Inr a)" "ends (Inl e) = ext e"
  by (simp_all add: ends_def)

lemma delivers_simps [simp]: "delivers final (Inr a)" "ext e \<Longrightarrow> delivers final (Inl e)"
  "\<not> final \<Longrightarrow> delivers final (Inl (TransientIngestionError x))"
  by (simp_all add: delivers_def)

lemma same_world [simp]: "on_db D w w"
  by (simp add: on_db_def same)

lemma outside_simps [simp]:
  "ext (DatabaseError d)" "ext ValueError" "ext StorageError" "ext VectorStoreError" "ext CancelledError"
  "ext UploadPersistenceFailed" "ext IngestionUnavailable" "ext (UploadRejected x)" "ext UploadNotConfigured"
  by (auto intro!: outside simp: is_signal_def)

lemma fine_bind: "fine p \<Longrightarrow> (\<And>a. fine (k a)) \<Longrightarrow> fine (bindP p k)"
  by (rule does_bindP [where P = ends]) auto

lemma fine_try: "fine p \<Longrightarrow> (\<And>a. fine (k a)) \<Longrightarrow> (\<And>e. ext e \<Longrightarrow> fine (h e)) \<Longrightarrow> fine (tryP p h k)"
  by (rule does_tryP [where P = ends]) auto

lemma fine_tx:
  assumes "\<And>db a db'. f db = Inr (a, db') \<Longrightarrow> D db db'" and "\<And>db e. f db = Inl e \<Longrightarrow> ext e"
  shows "fine (db_tx f)"
  unfolding db_tx_def using assms by (intro does_call) (auto simp: same split: sum.splits)

lemma fine_read: "(\<And>db e. f db = Inl e \<Longrightarrow> ext e) \<Longrightarrow> fine (db_read f)"
  unfolding db_read_def by (intro does_query) (auto simp: ends_def)

lemma fine_vectors: "(\<And>s e s'. f s = (Inl e, s') \<Longrightarrow> ext e) \<Longrightarrow> fine (vectors_call f)"
  unfolding vectors_call_def by (intro does_call) (auto simp: ends_def same split: prod.split)

lemma fine_transition: "acts (job_owner_id job) \<Longrightarrow> legal_move x y reason \<Longrightarrow> fine (transition sv job x y reason)"
  unfolding transition_def by (rule fine_tx, erule (2) moves, rule outside, erule transition_error)

lemma fine_delivery: "fine p \<Longrightarrow> delivery final p"
  by (erule does_conseq) (auto simp: ends_def delivers_def)

lemma delivery_bind: "fine p \<Longrightarrow> (\<And>a. delivery final (k a)) \<Longrightarrow> delivery final (bindP p k)"
  by (rule does_bindP [where P = ends]) auto

lemma delivery_try:
  "fine p \<Longrightarrow> (\<And>a. delivery final (k a)) \<Longrightarrow> (\<And>e. ext e \<Longrightarrow> delivery final (h e)) \<Longrightarrow> delivery final (tryP p h k)"
  by (rule does_tryP [where P = ends]) auto

text \<open>Under handlers that let only \<open>CancelledError\<close> through, anything may be raised.\<close>

abbreviation steps :: "(('q, 'r) world, 'a) prog \<Rightarrow> bool" where
  "steps p \<equiv> does (raising ext) (on_db D) (\<lambda>_. True) p"

lemma delivery_try_any:
  "steps p \<Longrightarrow> (\<And>a. delivery final (k a)) \<Longrightarrow> (\<And>e. delivery final (h e)) \<Longrightarrow> delivery final (tryP p h k)"
  by (rule does_tryP [where P = "\<lambda>_. True"]) auto

lemma steps_thread: "steps (in_thread r)"
  unfolding in_thread_def by (rule does_query) simp_all

lemma steps_storage_get: "steps (storage_get key)"
  unfolding storage_get_def by (rule does_query) simp_all

lemma steps_tx: "(\<And>db a db'. f db = Inr (a, db') \<Longrightarrow> D db db') \<Longrightarrow> steps (db_tx f)"
  unfolding db_tx_def by (intro does_call) (auto simp: same split: sum.splits)

lemma delivery_try_thread:
  assumes "\<And>a. r = Inr a \<Longrightarrow> delivery final (k a)" and "\<And>e. delivery final (h e)"
  shows "delivery final (tryP (in_thread r) h k)"
proof (rule does_tryP [where P = "\<lambda>r'. \<forall>a. r' = Inr a \<longrightarrow> r = Inr a"])
  show "does (raising ext) (on_db D) (\<lambda>r'. \<forall>a. r' = Inr a \<longrightarrow> r = Inr a) (in_thread r)"
    unfolding in_thread_def by (rule does_query) simp_all
qed (use assms in auto)

lemma fine_thread: "ends r \<Longrightarrow> fine (in_thread r)"
  unfolding in_thread_def by (rule does_query) simp_all

lemmas quiet = store_errors [THEN outside] pages_list_error [THEN outside] repository_errors [THEN outside]

lemma delivery_join: "delivery final p \<Longrightarrow> (\<And>a. delivery final (k a)) \<Longrightarrow> delivery final (bindP p k)"
  by (rule does_bindP [where P = "delivers final"]) (auto simp: delivers_def)

lemma delivery_fail: "acts (job_owner_id job) \<Longrightarrow> delivery final (fail sv job reason)"
  unfolding fail_def by (rule delivery_bind) (auto intro: fine_transition)

lemma delivery_transient:
  "acts (job_owner_id job) \<Longrightarrow> st \<in> set RECOVERABLE_STATUSES \<Longrightarrow> delivery final (transient sv job reason final st)"
  unfolding transient_def by (auto intro!: delivery_bind delivery_fail fine_transition)

lemma recoverable_simps [simp]:
  "DocumentStatus.PENDING \<in> set RECOVERABLE_STATUSES" "DocumentStatus.PARSED \<in> set RECOVERABLE_STATUSES"
  "DocumentStatus.CHUNKED \<in> set RECOVERABLE_STATUSES"
  by (simp_all add: RECOVERABLE_STATUSES_def)

lemma cancelled_only: "\<not> is_Exception e \<Longrightarrow> ext e"
  by (simp add: is_Exception_def)

section \<open>Deliveries\<close>

lemmas delivery_steps = delivery_fail delivery_transient cancelled_only

lemma delivery_extraction_failed:
  "acts (job_owner_id job) \<Longrightarrow> delivery final (extraction_failed sv job final e)"
  unfolding extraction_failed_def by (auto simp: delivery_steps split: exn.split option.split)

lemma delivery_keep_parsed:
  "acts (job_owner_id job) \<Longrightarrow> sv_extract sv content (sv_max_pages sv) = Inr extracted \<Longrightarrow>
    delivery final (keep_parsed sv job target final extracted)"
  unfolding keep_parsed_def
  by (auto intro!: delivery_try_any steps_tx simp: delivery_steps intro: parses)

lemma delivery_process_claimed:
  "acts (job_owner_id job) \<Longrightarrow> delivery final (process_claimed sv job target final)"
  unfolding process_claimed_def
  by (auto intro!: delivery_try_any [OF steps_storage_get] delivery_bind [OF fine_thread] delivery_try_thread
      delivery_extraction_failed intro: delivery_keep_parsed simp: delivery_steps)

text \<open>What is chunked was read through the validators.\<close>

lemma delivery_read_pages:
  assumes "\<And>pages. list_all wf_page pages \<Longrightarrow> delivery final (k pages)"
  shows "delivery final (bindP (read_pages sv job) k)"
proof (rule does_bindP [where P = "\<lambda>r. case r of Inr pages \<Rightarrow> list_all wf_page pages | Inl e \<Rightarrow> ext e"])
  show "does (raising ext) (on_db D) (\<lambda>r. case r of Inr pages \<Rightarrow> list_all wf_page pages | Inl e \<Rightarrow> ext e) (read_pages sv job)"
    unfolding read_pages_def db_read_def
    by (rule does_query) (auto dest: quiet loaded_pages_wf split: sum.split)
qed (use assms in auto)

lemma delivery_chunk_claimed: "acts (job_owner_id job) \<Longrightarrow> delivery final (chunk_claimed sv job final)"
  unfolding chunk_claimed_def
  by (auto intro!: delivery_read_pages delivery_try_thread delivery_try_any steps_tx simp: delivery_steps)
    (rule chunks)

lemma delivery_rechunk: "acts (job_owner_id job) \<Longrightarrow> delivery final (rechunk sv job final)"
proof -
  assume u: "acts (job_owner_id job)"
  have over: "delivery final (bindP p (\<lambda>r. Return (Some r)))" if "delivery final p" for p :: "(('q, 'r) world, IngestionResult) prog"
    using that by (auto intro: delivery_join)
  have replace: "delivery final (tryP (db_tx (replace_chunks sv job chunking))
      (\<lambda>e. if is_Exception e then bindP (transient sv job CHUNKING_FAILURE final DocumentStatus.CHUNKED) (\<lambda>r. Return (Some r)) else Raise e)
      (\<lambda>replaced. if \<not> replaced then Return (Some (claim_lost job)) else Return None))"
    if "list_all wf_page pages" "sv_chunk sv pages = Inr chunking" for pages chunking
    using u that by (auto intro!: delivery_try_any steps_tx over simp: delivery_steps) (rule rechunks)
  show ?thesis
    unfolding rechunk_def
  proof (rule delivery_read_pages)
    fix pages :: "ExtractedPage list" assume wf: "list_all wf_page pages"
    show "delivery final (if pages = [] then bindP (fail sv job NO_CHUNKS_TO_EMBED) (\<lambda>r. Return (Some r))
      else tryP (in_thread (sv_chunk sv pages))
         (\<lambda>e. if is_Exception e
           then bindP (transient sv job CHUNKING_FAILURE final DocumentStatus.CHUNKED) (\<lambda>r. Return (Some r)) else Raise e)
         (\<lambda>chunking. if cr_chunks chunking = [] then bindP (fail sv job NO_CHUNKS_PRODUCED) (\<lambda>r. Return (Some r))
           else tryP (vectors_call (vectors_delete_document (sv_qdrant sv) (job_document_id job) (job_owner_id job)))
             (\<lambda>e. if e = VectorStoreError
               then bindP (transient sv job VECTOR_STORE_FAILURE final DocumentStatus.CHUNKED) (\<lambda>r. Return (Some r)) else Raise e)
             (\<lambda>_. tryP (db_tx (replace_chunks sv job chunking))
               (\<lambda>e. if is_Exception e
                 then bindP (transient sv job CHUNKING_FAILURE final DocumentStatus.CHUNKED) (\<lambda>r. Return (Some r)) else Raise e)
               (\<lambda>replaced. if \<not> replaced then Return (Some (claim_lost job)) else Return None))))"
      using u wf by (auto intro!: delivery_try_thread over delivery_try [OF fine_vectors] replace
          simp: delivery_steps) (drule vectors_errors, simp)
  qed
qed

lemma delivery_keep_ready: "acts (job_owner_id job) \<Longrightarrow> delivery final (keep_ready sv job final xs vs)"
proof -
  have "ends (map_result (vector_record sv job) cvs)" for cvs
    by (induction cvs) (auto simp: ends_def bind_result_eq_Inl vector_record_def payload_for_def split: option.splits)
  moreover have "fine (vectors_call (vectors_upsert (sv_qdrant sv) records))" for records
    by (rule fine_vectors) (drule vectors_errors, simp)
  moreover have "acts (job_owner_id job) \<Longrightarrow> fine (db_tx (store_ready sv job))"
    by (rule fine_tx) (erule (1) readies, auto dest: quiet)
  ultimately show "acts (job_owner_id job) \<Longrightarrow> delivery final (keep_ready sv job final xs vs)"
    unfolding keep_ready_def by (auto intro!: delivery_try does_tryP [where P = ends] simp: delivery_steps)
qed

lemma delivery_embed_chunks: "acts (job_owner_id job) \<Longrightarrow> delivery final (embed_chunks sv job final)"
  unfolding embed_chunks_def
  by (auto intro!: delivery_bind delivery_try fine_read fine_thread delivery_keep_ready simp: delivery_steps ends_def)
    (rule embeds)

lemma delivery_embed_claimed: "acts (job_owner_id job) \<Longrightarrow> delivery final (embed_claimed sv job final)"
proof -
  assume u: "acts (job_owner_id job)"
  have "delivery final (case over of Some r \<Rightarrow> Return r | None \<Rightarrow> embed_chunks sv job final)" for over
    using u by (cases over) (auto intro: delivery_embed_chunks)
  then show ?thesis
    unfolding embed_claimed_def using u
    by (auto intro!: delivery_bind [OF fine_read] delivery_join [OF delivery_rechunk] delivery_embed_chunks delivery_fail)
qed

lemma delivery_run_stage: "acts (job_owner_id job) \<Longrightarrow> delivery final (run_stage sv job target stage final)"
proof -
  assume u: "acts (job_owner_id job)"
  have claimed: "delivery final (run_claimed sv job target stage final)"
    unfolding run_claimed_def using u
    by (cases stage) (auto intro: delivery_process_claimed delivery_chunk_claimed delivery_embed_claimed)
  have release: "fine (release_after_interruption sv job (starts_at stage))"
    unfolding release_after_interruption_def using u by (auto intro!: fine_try fine_transition)
  have "delivery final (tryP (run_claimed sv job target stage final)
      (\<lambda>e. if e = CancelledError then bindP (release_after_interruption sv job (starts_at stage)) (\<lambda>_. Raise CancelledError) else Raise e) Return)"
    by (rule does_tryP [where P = "delivers final", OF claimed]) (auto intro!: delivery_bind release simp: delivers_def)
  then show ?thesis unfolding run_stage_def using u by (auto intro!: delivery_bind fine_transition)
qed

lemma delivery_run_from: "acts (job_owner_id job) \<Longrightarrow> delivery final (run_from sv job target final)"
  unfolding run_from_def run_from_parsed_def by (auto intro!: delivery_join delivery_run_stage)

lemma fine_read_target: "fine (read_target sv job)"
  unfolding read_target_def by (rule fine_read) (auto dest: quiet)

lemma delivery_ingest: "acts (job_owner_id job) \<Longrightarrow> delivery final (ingest sv job final)"
  unfolding ingest_def not_found_def
  by (auto intro!: delivery_bind delivery_run_from fine_read_target fine_read split: sum.split option.split)

section \<open>Use cases\<close>

lemma fine_storage_put: "fine (storage_put key data)"
  unfolding storage_put_def by (rule does_call) (auto split: prod.split)

lemma fine_discard: "fine (discard key created)"
proof -
  have "fine (storage_delete key)" unfolding storage_delete_def by (rule does_call) auto
  then show ?thesis unfolding discard_def by (auto intro!: fine_try)
qed

lemma fine_soft_delete: "acts owner \<Longrightarrow> fine (soft_delete sv d owner)"
  unfolding soft_delete_def by (rule fine_tx) (auto dest: deletes quiet)

lemma fine_enqueue: "fine (enqueue sv job)"
  unfolding enqueue_def by (rule does_call) (auto simp: ends_def dest: enqueues split: prod.split)

lemma fine_find_content: "fine (find_content sv hash owner)"
  unfolding find_content_def by (rule fine_read) (auto dest: quiet)

lemma fine_upload: "acts (p_user_id caller) \<Longrightarrow> fine (upload_and_process sv ul i filename stream caller)"
proof -
  assume u: "acts (p_user_id caller)"
  have key: "ends (document_storage_key (sv_unicode sv) ow h)" for ow h
    by (auto simp: ends_def document_storage_key_def split: option.splits if_splits)
  have not_recorded: "fine (not_recorded sv hash ow key created e)" if "ext e" for hash ow key created e
    unfolding not_recorded_def Let_def using that
    by (auto intro!: fine_bind fine_discard fine_find_content split: exn.split option.split)
  have hand_over: "fine (hand_over sv (p_user_id caller) key created v document)" for key created v document
    unfolding hand_over_def undo_unqueued_upload_def using u
    by (auto intro!: fine_bind fine_try fine_enqueue fine_soft_delete fine_discard)
  have create: "fine (db_tx (documents_create (sv_unicode sv) i (p_user_id caller) (upload_values name key v)))" for name key v
    by (rule fine_tx) (auto dest: creates [OF u] quiet)
  have store: "fine (store_upload sv i name data (p_user_id caller) v)" for name data v
    unfolding store_upload_def
    by (auto intro!: fine_bind fine_try fine_find_content fine_storage_put create not_recorded hand_over key split: option.split)
  have "ends (display_filename (sv_unicode sv) filename)" "ends (read_capped stream n)"
    "ends (validate_pdf (sv_content_hash sv) (ul_open_pdf ul) data n)" for n data
    by (auto simp: ends_def display_filename_def read_capped_def read_capped_loop_eq validate_pdf_def Let_def
        split: option.splits if_splits prod.splits)
  then show ?thesis unfolding upload_and_process_def by (auto intro!: fine_bind fine_thread store)
qed

lemma fine_claim_any:
  "acts (job_owner_id job) \<Longrightarrow> set statuses \<subseteq> set RECOVERABLE_STATUSES \<Longrightarrow> fine (claim_any sv job statuses claimed)"
  by (induction statuses arbitrary: claimed) (auto intro!: fine_bind fine_transition)

lemma fine_given_up: "acts (job_owner_id job) \<Longrightarrow> fine (record_given_up sv job)"
  unfolding record_given_up_def is_processing_def
  by (auto intro!: fine_bind fine_claim_any fine_read_target fine_transition)

lemma fine_recover_loop: "fine (recover_loop sv targets requeued already skips)"
  by (induction targets arbitrary: requeued already skips) (auto intro!: fine_bind fine_enqueue split: option.split)

lemma fine_recover: "fine (recover_pending sv limit)"
  unfolding recover_pending_def by (auto intro!: fine_bind fine_read fine_recover_loop dest: quiet)

lemma fine_deletion: "acts (p_user_id caller) \<Longrightarrow> fine (delete_document sv d caller)"
  unfolding delete_document_def by (rule fine_soft_delete)

lemma fine_reads: "fine (get_document sv d caller)" "fine (list_user_documents sv caller)"
  unfolding get_document_def list_user_documents_def by (auto intro!: fine_read dest: quiet)

lemma steps_background: "steps p \<Longrightarrow> steps (background p)"
  unfolding background_def by (erule does_bindP) auto

lemma steps_of: "fine p \<Longrightarrow> steps p" "delivery final p \<Longrightarrow> steps p"
  by (auto elim: does_conseq)

end

text \<open>The processes that act for everybody.\<close>

locale maintenance_effects = system_effects +
  assumes everybody: "acts u"
    and reaps: "documents_fail_stale_processing seconds (py_str (reason_value STALE_PROCESSING)) db = Inr (ids, db') \<Longrightarrow> D db db'"
    and ticks: "D db (db\<lparr>db_now := t\<rparr>)"
begin

lemma steps_system: "system_process sv ul p \<Longrightarrow> steps p"
proof (induction rule: system_process.induct)
  case (reaper seconds)
  have "steps (reap_stale_processing seconds)"
    unfolding reap_stale_processing_def by (rule steps_tx) (rule reaps)
  then show ?case by (rule steps_background)
next
  case (ticking now)
  show ?case unfolding clock_def by (rule does_call) (simp_all add: ticks)
qed (auto intro!: steps_background intro: steps_of delivery_ingest fine_recover fine_given_up fine_upload fine_deletion fine_reads everybody)

lemma system_moves:
  assumes "reachable (raising ext) (system_process sv ul) w0 (w, ps)"
  shows "D\<^sup>*\<^sup>* (w_db w0) (w_db w)"
proof -
  from does_pool [OF assms steps_system] have "(on_db D)\<^sup>*\<^sup>* w0 w" by simp
  then show ?thesis by (induction rule: rtranclp_induct) (auto simp: on_db_def intro: rtranclp.rtrancl_into_rtrancl)
qed

end

end
