(* ===== verification/ReadyDocuments.thy ===== *)
theory ReadyDocuments
  imports PipelineSafety
begin

text \<open>
  What the status of a document means, in every state the whole system can reach: the interpretation
  \<open>pipeline\<close> of the protocol, applied to the processes of \<open>system_process\<close>. The example is a store
  of points kept as an association list, and a database with one ready document.
\<close>

lemma system_honest:
  assumes "reachable no_late_failure (system_process sv ul) w0 s"
    and "documents_honest (sv_qdrant sv) w0" and "qdrant_writes (sv_qdrant sv)" and "one_vector_each (sv_embed sv)"
  shows "documents_honest (sv_qdrant sv) (fst s)"
  using assms(1,2) psafe_system [OF _ assms(3,4)] by (rule pipeline.pool_invariant)

lemma system_facts:
  assumes "reachable no_late_failure (system_process sv ul) w0 (w, ps)"
    and "documents_honest (sv_qdrant sv) w0" and "qdrant_writes (sv_qdrant sv)" and "one_vector_each (sv_embed sv)"
    and "r \<in> set (db_documents (w_db w))"
  shows "facts (sv_qdrant sv) (w_db w) (w_points w) (doc_id r) (doc_user_id r, doc_status r, doc_chunk_count r)"
  using system_honest [OF assms(1-4)] assms(5) by (auto simp: documents_honest_def list_all_iff)

section \<open>A concrete system\<close>

text \<open>A store of points that keeps its promises: upsert and delete are their laws, read as functions.\<close>

definition example_qdrant :: "(ustr \<Rightarrow> (vector \<times> mapping) option) qdrant" where
  "example_qdrant =
     \<lparr>q_exists = \<lambda>_. Some True, q_width = \<lambda>_. Some (Some 2), q_create = \<lambda>_ s. Some s, q_index = \<lambda>_ s. Some s,
      q_upsert = \<lambda>pts s. Some (\<lambda>i. case point_of pts i of None \<Rightarrow> s i | Some x \<Rightarrow> Some x),
      q_query = \<lambda>_ _ _ _ _. Some [], q_count = \<lambda>_ _. Some 0,
      q_delete = \<lambda>conds s. Some (\<lambda>i. case s i of None \<Rightarrow> None
        | Some (v, m) \<Rightarrow> (if filter_matches conds m then None else Some (v, m))),
      q_point = id\<rparr>"

lemma example_qdrant_writes: "qdrant_writes example_qdrant"
  by (auto simp: qdrant_writes_def example_qdrant_def split: option.split)

definition example_page :: ExtractedPage where
  "example_page = \<lparr>ep_page_number = 1, ep_blocks = [\<lparr>tb_text = py_str ''word'', tb_font_size = 10\<rparr>]\<rparr>"

definition example_chunk :: Chunk where
  "example_chunk = \<lparr>c_chunk_index = 0, c_content = py_str ''word'', c_section = None,
     c_page_start = 1, c_page_end = 1, c_token_count = 1\<rparr>"

definition example_service :: "(ustr \<Rightarrow> (vector \<times> mapping) option, IngestionJob list) service" where
  "example_service =
     \<lparr>sv_unicode = ascii_unicode, sv_uuid5 = \<lambda>_ _. 3, sv_content_hash = \<lambda>_. replicate 64 97,
      sv_extract = \<lambda>_ _. Inr \<lparr>et_page_count = 1, et_pages = [example_page]\<rparr>,
      sv_chunk = \<lambda>_. Inr \<lparr>cr_chunks = [example_chunk], cr_strategy_version = py_str ''s'', cr_tokenizer_id = py_str ''t''\<rparr>,
      sv_embed = \<lambda>ts. Inr (map (\<lambda>_. [1, 0]) ts), sv_model_id = py_str ''m'', sv_dimension = 2,
      sv_qdrant = example_qdrant, sv_enqueue = \<lambda>job q. (Inr True, q @ [job]), sv_max_pages = 10,
      sv_version = (py_str ''s'', py_str ''t'')\<rparr>"

lemma example_service_qdrant: "sv_qdrant example_service = example_qdrant"
  by (simp add: example_service_def)

definition example_uploads :: uploads where
  "example_uploads = \<lparr>ul_max_bytes = 1000, ul_max_pages = 10, ul_open_pdf = \<lambda>_. Some (False, 1)\<rparr>"

lemma example_embed: "one_vector_each (sv_embed example_service)"
  by (auto simp: one_vector_each_def example_service_def)

definition example_user :: UserRow where
  "example_user = \<lparr>usr_id = 1, usr_email = py_str ''a@b'', usr_full_name = py_str ''A'', usr_role = RESEARCHER,
     usr_is_active = True, usr_password_hash = None, usr_created_at = 0, usr_updated_at = 0\<rparr>"

definition example_row :: "DocumentStatus \<Rightarrow> int \<Rightarrow> DocumentRow" where
  "example_row status n =
     \<lparr>doc_id = 2, doc_user_id = 1, doc_filename = py_str ''p.pdf'', doc_doc_type = PDF, doc_status = status,
      doc_metadata = empty_metadata, doc_chunk_count = n,
      doc_storage_key = Some (uuid_str 1 @ [47] @ replicate 64 97 @ py_str ''.pdf''),
      doc_content_hash = Some (replicate 64 97), doc_size_bytes = Some 9, doc_mime_type = Some PDF_MIME_TYPE,
      doc_page_count = Some 1, doc_failure_reason = None, doc_created_at = 0, doc_updated_at = 0, doc_deleted_at = None\<rparr>"

definition example_chunk_row :: ChunkRow where
  "example_chunk_row =
     \<lparr>chk_id = 3, chk_document_id = 2, chk_chunk_index = 0, chk_content = py_str ''word'', chk_section = None,
      chk_page_start = 1, chk_page_end = 1, chk_token_count = 1, chk_strategy_version = py_str ''s'',
      chk_tokenizer_id = py_str ''t'', chk_embedding_model_id = Some (py_str ''m''), chk_dimension = Some 2,
      chk_created_at = 0\<rparr>"

definition staged_db :: "DocumentStatus \<Rightarrow> database" where
  "staged_db st = \<lparr>db_users = [example_user], db_documents = [example_row st 1],
     db_pages = [\<lparr>pg_document_id = 2, pg_page_number = 1, pg_blocks = ep_blocks example_page, pg_created_at = 0\<rparr>],
     db_chunks = [example_chunk_row], db_now = 5\<rparr>"

definition example_payload :: VectorPayload where
  "example_payload =
     \<lparr>vp_user_id = uuid_str 1, vp_document_id = uuid_str 2, vp_chunk_id = uuid_str 3, vp_chunk_index = 0,
      vp_section = None, vp_page_start = 1, vp_page_end = 1, vp_strategy_version = py_str ''s'',
      vp_tokenizer_id = py_str ''t'', vp_embedding_model_id = py_str ''m'', vp_dimension = 2\<rparr>"

definition staged_world :: "DocumentStatus \<Rightarrow> (ustr \<Rightarrow> (vector \<times> mapping) option, IngestionJob list) world" where
  "staged_world st = \<lparr>w_db = staged_db st, w_objects = Map.empty,
     w_points = [uuid_str 3 \<mapsto> ([1, 0], as_mapping example_payload)], w_queue = []\<rparr>"

lemma uuid_str_scalar: "c \<in> set (uuid_str w) \<Longrightarrow> c \<noteq> 0 \<and> \<not> is_surrogate c"
  using uuid_str_chars [of c w] by (auto simp: is_surrogate_def is_lower_hex_def)

lemma uuid_str_text [simp]: "text_fits (uuid_str w)"
  using uuid_str_scalar by (auto simp: text_fits_def list_all_iff)

lemma text_fits_append [simp]: "text_fits (s @ t) \<longleftrightarrow> text_fits s \<and> text_fits t"
  by (simp add: text_fits_def)

lemma text_fits_Cons [simp]: "text_fits (c # t) \<longleftrightarrow> c \<noteq> 0 \<and> \<not> is_surrogate c \<and> text_fits t"
  by (simp add: text_fits_def)

lemma text_fits_Nil [simp]: "text_fits []"
  by (simp add: text_fits_def)

lemma text_fits_replicate [simp]: "text_fits (replicate n c) \<longleftrightarrow> n = 0 \<or> c \<noteq> 0 \<and> \<not> is_surrogate c"
  by (auto simp: text_fits_def list_all_iff)

lemma example_row_fits:
  "document_fits (example_row status n) = int4_fits n"
  by (simp add: document_fits_def example_row_def varchar_fits_def int8_fits_def int4_fits_def
      is_surrogate_def PDF_MIME_TYPE_def)

lemma staged_db_wf: "st \<noteq> DocumentStatus.FAILED \<Longrightarrow> wf_db (staged_db st)"
  by (simp add: wf_db_def staged_db_def users_error_def documents_error_def pages_error_def chunks_error_def
      example_row_fits)
     (simp add: user_fits_def example_user_def varchar_fits_def text_fits_def is_surrogate_def example_row_def
      int4_fits_def reason_iff_failed_def content_index_def page_fits_def example_page_def chunk_fits_def
      example_chunk_row_def)

lemma staged_world_honest:
  assumes "st = DocumentStatus.CHUNKED \<or> st = DocumentStatus.READY"
  shows "documents_honest (sv_qdrant example_service) (staged_world st)"
  using assms staged_db_wf [of st]
  by (auto simp: documents_honest_def staged_world_def staged_db_def example_service_def example_row_def
      has_chunks_def pages_of_def chunks_of_def example_chunk_row_def searchable_def vector_stored_def
      stored_vector_def example_qdrant_def example_payload_def)

text \<open>The clock has ticked once.\<close>

lemma staged_world_reachable:
  "reachable no_late_failure (system_process example_service ul) (staged_world st)
     (staged_world st\<lparr>w_db := (staged_db st)\<lparr>db_now := 6\<rparr>\<rparr>, [Return ()])"
proof -
  have "reachable no_late_failure (system_process example_service ul) (staged_world st) (staged_world st, [] @ clock 6 # [])"
    using reachable.further [OF reachable.initial pool_step.start, of "system_process example_service ul" "clock 6"]
    by (simp add: system_process.ticking)
  then have "reachable no_late_failure (system_process example_service ul) (staged_world st)
     (staged_world st\<lparr>w_db := (staged_db st)\<lparr>db_now := 6\<rparr>\<rparr>, [] @ Return () # [])"
    unfolding clock_def call_def
    by (rule reachable.further) (rule pool_step.resume [where c = Proceed],
      simp_all add: no_late_failure_def staged_world_def)
  then show ?thesis by simp
qed

section \<open>Properties\<close>

text \<open>
  C2. The status of a document tells the truth about its pages and chunks, in every state that any
  interleaving of uploads, deletions, deliveries, reapings and recoveries can reach, processes dying
  anywhere: a pending document has none of them, a parsed one has pages and no chunk, and a chunked
  one has pages and exactly as many chunks, not zero, as its counter says.
\<close>

theorem status_tells_the_truth:
  assumes "reachable no_late_failure (system_process sv ul) w0 (w, ps)"
    and "documents_honest (sv_qdrant sv) w0" and "qdrant_writes (sv_qdrant sv)" and "one_vector_each (sv_embed sv)"
    and "r \<in> set (db_documents (w_db w))"
  shows "case doc_status r of
      DocumentStatus.PENDING \<Rightarrow> pages_of (w_db w) (doc_id r) = [] \<and> chunks_of (w_db w) (doc_id r) = []
    | DocumentStatus.PARSED \<Rightarrow> pages_of (w_db w) (doc_id r) \<noteq> [] \<and> chunks_of (w_db w) (doc_id r) = []
    | DocumentStatus.CHUNKED \<Rightarrow> pages_of (w_db w) (doc_id r) \<noteq> [] \<and> chunks_of (w_db w) (doc_id r) \<noteq> []
        \<and> doc_chunk_count r = int (length (chunks_of (w_db w) (doc_id r)))
    | _ \<Rightarrow> True"
  using system_facts [OF assms] by (cases "doc_status r") (simp_all add: has_chunks_def)

theorem status_tells_the_truth_witness:
  "\<exists>w ps. reachable no_late_failure (system_process example_service example_uploads) (staged_world DocumentStatus.CHUNKED) (w, ps)
    \<and> chunks_of (w_db w) 2 \<noteq> []"
  using status_tells_the_truth [OF staged_world_reachable [of example_uploads DocumentStatus.CHUNKED] staged_world_honest
      example_qdrant_writes [folded example_service_qdrant] example_embed, of "example_row DocumentStatus.CHUNKED 1"]
    staged_world_reachable [of example_uploads DocumentStatus.CHUNKED]
  by (auto simp: staged_world_def staged_db_def example_row_def)

text \<open>
  C1. Ready means searchable. In every reachable state, every chunk of a ready document names the
  model that embedded it, and the vector store holds, under the chunk's id, a vector of that model's
  width whose payload cites the chunk, its pages, its document and its owner; there is at least one
  chunk, and the counter is their number.
\<close>

theorem ready_means_searchable:
  assumes "reachable no_late_failure (system_process sv ul) w0 (w, ps)"
    and "documents_honest (sv_qdrant sv) w0" and "qdrant_writes (sv_qdrant sv)" and "one_vector_each (sv_embed sv)"
    and "r \<in> set (db_documents (w_db w))" and "doc_status r = DocumentStatus.READY"
  shows "chunks_of (w_db w) (doc_id r) \<noteq> [] \<and> doc_chunk_count r = int (length (chunks_of (w_db w) (doc_id r)))
    \<and> (\<forall>c \<in> set (chunks_of (w_db w) (doc_id r)). \<exists>model width v p.
        chk_embedding_model_id c = Some model \<and> chk_dimension c = Some width
        \<and> stored_vector (sv_qdrant sv) (w_points w) (uuid_str (chk_id c)) = Some (v, p) \<and> int (length v) = width
        \<and> vp_user_id p = uuid_str (doc_user_id r) \<and> vp_document_id p = uuid_str (doc_id r)
        \<and> vp_chunk_id p = uuid_str (chk_id c) \<and> vp_chunk_index p = chk_chunk_index c
        \<and> vp_page_start p = chk_page_start c \<and> vp_page_end p = chk_page_end c
        \<and> vp_embedding_model_id p = model \<and> vp_dimension p = width)"
  using system_facts [OF assms(1-5)] assms(6)
  by (fastforce simp: has_chunks_def list_all_iff searchable_def vector_stored_def split: option.splits)

theorem ready_means_searchable_witness:
  "\<exists>w ps. reachable no_late_failure (system_process example_service example_uploads) (staged_world DocumentStatus.READY) (w, ps)
    \<and> (\<exists>v p. stored_vector (sv_qdrant example_service) (w_points w) (uuid_str 3) = Some (v, p) \<and> vp_chunk_id p = uuid_str 3)"
  using ready_means_searchable [OF staged_world_reachable [of example_uploads DocumentStatus.READY] staged_world_honest
      example_qdrant_writes [folded example_service_qdrant] example_embed, of "example_row DocumentStatus.READY 1"]
    staged_world_reachable [of example_uploads DocumentStatus.READY]
  by (fastforce simp: staged_world_def staged_db_def example_row_def chunks_of_def example_chunk_row_def)



text \<open>
  A claim is exclusive. Once a transition has moved a document to \<open>PROCESSING\<close>, every other
  transition on it that expects another status, by anybody, finds nothing to move and leaves the
  database as it is; so of any number of deliveries that read the same status only the first goes on.
\<close>

lemma claims_are_exclusive:
  assumes "documents_transition_status_for_user U d user e DocumentStatus.PROCESSING None None db = Inr (True, db1)" and "wf_db db"
    and "parse_text U d' = parse_text U d" and "e' \<noteq> DocumentStatus.PROCESSING"
  shows "documents_transition_status_for_user U d' user' e' new reason cnt db1 = Inr (False, db1)"
  using assms(1,2)
proof (cases rule: transition_cases)
  case (moved t ow r)
  have wf: "wf_db db1"
    using transition_accepted [OF assms(2), of DocumentStatus.PROCESSING None None U d user e] assms(1) by simp
  have status: "doc_status x = DocumentStatus.PROCESSING" if "x \<in> set (db_documents db1)" "doc_id x = t" for x
  proof -
    have "x \<in> set (update_where (\<lambda>x. doc_id x = t) (move_status DocumentStatus.PROCESSING None None (db_now db)) (db_documents db))"
      using that(1) by (simp add: moved(6))
    then show ?thesis by (rule in_update_whereE) (use that(2) in auto)
  qed
  show ?thesis
  proof (cases rule: scoped_cases [of U d' user'])
    case malformed
    then show ?thesis by (simp add: documents_transition_status_for_user_def scoped_none)
  next
    case (parsed t' ow')
    with assms(3) moved(2) have none: "\<forall>x \<in> set (db_documents db1). \<not> claimable t' ow' e' x"
      using status assms(4) by (auto simp: claimable_def owned_live_def)
    have "documents_error (db_users db1) (db_documents db1) = None" using wf by (simp add: wf_db_def)
    then have "write_documents (db_documents db1) db1 = Inr db1" by simp
    moreover have "\<not> 0 < rowcount (claimable t' ow' e') (db_documents db1)"
      using none by (simp only: rowcount_pos_iff) blast
    ultimately show ?thesis
      using parsed none by (simp add: documents_transition_status_for_user_def scoped_eq update_where_none)
  qed
qed simp

end
