(* ===== verification/Lifecycle.thy ===== *)
theory Lifecycle
  imports Effects ReadyDocuments
begin

text \<open>
  The lifecycle of a document, as a relation between databases that every step of the system is in:
  what a row may become, what it keeps for ever, and when it can no longer change at all. Unlike the
  safety of the pipeline it does not depend on how failures arrive: a commit whose acknowledgement
  is lost is allowed.
\<close>

section \<open>The state machine\<close>

inductive status_step :: "DocumentStatus \<Rightarrow> DocumentStatus \<Rightarrow> bool" where
  claim: "st \<in> set RECOVERABLE_STATUSES \<Longrightarrow> status_step st DocumentStatus.PROCESSING"
| release: "st \<in> set RECOVERABLE_STATUSES \<Longrightarrow> status_step DocumentStatus.PROCESSING st"
| finish: "status_step DocumentStatus.PROCESSING DocumentStatus.READY"
| give_up: "status_step DocumentStatus.PROCESSING DocumentStatus.FAILED"
| replace: "status_step DocumentStatus.PROCESSING DocumentStatus.PROCESSING"

inductive_cases status_stepE: "status_step st st'"
inductive_simps status_step_simps:
  "status_step DocumentStatus.READY st" "status_step DocumentStatus.FAILED st" "status_step DocumentStatus.PENDING st"

definition same_upload :: "DocumentRow \<Rightarrow> DocumentRow \<Rightarrow> bool" where
  "same_upload r r' \<longleftrightarrow> doc_id r' = doc_id r \<and> doc_user_id r' = doc_user_id r \<and> doc_filename r' = doc_filename r
     \<and> doc_doc_type r' = doc_doc_type r \<and> doc_metadata r' = doc_metadata r \<and> doc_storage_key r' = doc_storage_key r
     \<and> doc_content_hash r' = doc_content_hash r \<and> doc_size_bytes r' = doc_size_bytes r
     \<and> doc_mime_type r' = doc_mime_type r \<and> doc_page_count r' = doc_page_count r \<and> doc_created_at r' = doc_created_at r"

text \<open>
  One step of a row: nothing, a soft deletion, or a move of the state machine, which only a live row
  makes; a row that is not being processed keeps its counter, and its reason unless it starts to be.
\<close>

inductive row_step :: "DocumentRow \<Rightarrow> DocumentRow \<Rightarrow> bool" where
  stay: "row_step r r"
| delete: "is_live r \<Longrightarrow> same_upload r r' \<Longrightarrow> doc_status r' = doc_status r \<Longrightarrow> doc_failure_reason r' = doc_failure_reason r \<Longrightarrow>
    doc_chunk_count r' = doc_chunk_count r \<Longrightarrow> doc_deleted_at r' \<noteq> None \<Longrightarrow> row_step r r'"
| move: "is_live r \<Longrightarrow> is_live r' \<Longrightarrow> same_upload r r' \<Longrightarrow> status_step (doc_status r) (doc_status r') \<Longrightarrow>
    (doc_failure_reason r' \<noteq> None \<longleftrightarrow> doc_status r' = DocumentStatus.FAILED) \<Longrightarrow> row_step r r'"

inductive_cases row_stepE: "row_step r r'"

lemma same_upload_refl [simp]: "same_upload r r"
  by (simp add: same_upload_def)

lemma same_upload_trans: "same_upload r r' \<Longrightarrow> same_upload r' r'' \<Longrightarrow> same_upload r r''"
  by (simp add: same_upload_def)

lemma row_step_upload: "row_step r r' \<Longrightarrow> same_upload r r'"
  by (auto elim: row_stepE)

definition documents_move :: "database \<Rightarrow> database \<Rightarrow> bool" where
  "documents_move db db' \<longleftrightarrow> (\<exists>rows new. db_documents db' = rows @ new \<and> list_all2 row_step (db_documents db) rows
     \<and> list_all (\<lambda>r. doc_status r = DocumentStatus.PENDING \<and> is_live r \<and> doc_chunk_count r = 0) new)"

lemma documents_move_same: "db_documents db' = db_documents db \<Longrightarrow> documents_move db db'"
  unfolding documents_move_def by (intro exI [of _ "db_documents db"] exI [of _ "[]"]) (simp add: list_all2_same stay)

lemma documents_move_update:
  assumes "db_documents db' = update_where p f (db_documents db)" and "\<And>r. p r \<Longrightarrow> row_step r (f r)"
  shows "documents_move db db'"
  unfolding documents_move_def using assms
  by (intro exI [of _ "update_where p f (db_documents db)"] exI [of _ "[]"])
    (auto simp: update_where_def list_all2_conv_all_nth stay)

lemma documents_move_then: "documents_move db db1 \<Longrightarrow> db_documents db' = db_documents db1 \<Longrightarrow> documents_move db db'"
  by (simp add: documents_move_def)

section \<open>The transactions are moves\<close>

lemma transition_rows:
  assumes "documents_transition_status_for_user U d u x y reason cnt db = Inr (b, db')"
  obtains (none) "db' = db"
  | (rows) t ow where "db' = db\<lparr>db_documents := update_where (claimable t ow x) (move_status y reason cnt (db_now db)) (db_documents db)\<rparr>"
  using assms by (cases rule: scoped_cases [of U d u])
    (auto simp: documents_transition_status_for_user_def scoped_none scoped_eq)

lemma transition_moves:
  assumes "documents_transition_status_for_user U d u x y reason cnt db = Inr (b, db')"
    and "status_step x y" and "reason \<noteq> None \<longleftrightarrow> y = DocumentStatus.FAILED"
  shows "documents_move db db'"
  using assms(1)
proof (cases rule: transition_rows)
  case (rows t ow)
  show ?thesis
  proof (rule documents_move_update)
    show "db_documents db' = update_where (claimable t ow x) (move_status y reason cnt (db_now db)) (db_documents db)"
      using rows by simp
    show "row_step r (move_status y reason cnt (db_now db) r)" if "claimable t ow x r" for r
      using that assms(2,3)
      by (intro row_step.move) (auto simp: claimable_def owned_live_def same_upload_def move_status_def is_live_def)
  qed
qed (simp add: documents_move_same)

lemma other_tables [simp]:
  "pages_add_for_user U d u pages db = Inr db' \<Longrightarrow> db_documents db' = db_documents db"
  "chunks_add_many U h d u chunking db = Inr (xs, db') \<Longrightarrow> db_documents db' = db_documents db"
  "chunks_delete_for_document U d u db = Inr (n, db') \<Longrightarrow> db_documents db' = db_documents db"
  "chunks_mark_embedded U d u model width db = Inr (n, db') \<Longrightarrow> db_documents db' = db_documents db"
  by (auto simp: pages_add_for_user_def chunks_add_many_def chunks_delete_for_document_def chunks_mark_embedded_def
      scoped_def Let_def split: option.splits)

lemma create_moves:
  assumes "documents_create U i owner (upload_values name key v) db = Inr (document, db')"
  shows "documents_move db db'"
proof -
  obtain u where "db_documents db' = db_documents db @ [new_document_row i u (upload_values name key v) (db_now db)]"
    using assms by (auto simp: documents_create_def Let_def split: option.splits)
  then show ?thesis
    unfolding documents_move_def
    by (intro exI [of _ "db_documents db"] exI [of _ "[new_document_row i u (upload_values name key v) (db_now db)]"])
      (simp add: new_document_row_def upload_values_def is_live_def list_all2_same stay)
qed

lemma soft_delete_moves:
  assumes "documents_soft_delete_for_user U d owner db = Inr (b, db')"
  shows "documents_move db db'"
proof (cases rule: scoped_cases [of U d owner])
  case malformed
  with assms show ?thesis by (auto simp: documents_soft_delete_for_user_def scoped_none documents_move_same)
next
  case (parsed t ow)
  let ?f = "\<lambda>r. r\<lparr>doc_deleted_at := Some (db_now db), doc_updated_at := db_now db\<rparr>"
  show ?thesis
  proof (rule documents_move_update)
    show "db_documents db' = update_where (owned_live t ow) ?f (db_documents db)"
      using assms parsed by (auto simp: documents_soft_delete_for_user_def scoped_eq)
    show "row_step r (?f r)" if "owned_live t ow r" for r
      using that by (intro row_step.delete) (auto simp: owned_live_def same_upload_def)
  qed
qed

lemma reap_moves:
  assumes "documents_fail_stale_processing secs reason db = Inr (ids, db')"
  shows "documents_move db db'"
proof (rule documents_move_update)
  show "db_documents db' = update_where (is_stale secs (db_now db)) (move_status DocumentStatus.FAILED (Some reason) None (db_now db)) (db_documents db)"
    using assms by (auto simp: documents_fail_stale_processing_def)
  show "row_step r (move_status DocumentStatus.FAILED (Some reason) None (db_now db) r)" if "is_stale secs (db_now db) r" for r
    using that by (intro row_step.move) (auto simp: is_stale_def same_upload_def move_status_def is_live_def intro: status_step.give_up)
qed

lemma legal_status_step: "legal_move x y reason \<Longrightarrow> status_step x y \<and> (reason \<noteq> None \<longleftrightarrow> y = DocumentStatus.FAILED)"
  by (auto simp: legal_move_def intro: status_step.intros) (auto simp: RECOVERABLE_STATUSES_def)

interpretation lifecycle: maintenance_effects sv "\<lambda>_. True" documents_move "\<lambda>_. True" for sv :: "('q, 'r) service"
proof unfold_locales
  show "documents_move db db" for db by (simp add: documents_move_same)
  show "documents_move db db'"
    if "legal_move x y reason" "documents_transition_status_for_user (sv_unicode sv) d owner x y
      (map_option (\<lambda>r. py_str (reason_value r)) reason) None db = Inr (b, db')" for x y reason d owner db b db'
    using transition_moves [OF that(2)] legal_status_step [OF that(1)] by simp
  show "store_parsed sv job extracted db = Inr (b, db') \<Longrightarrow> documents_move db db'" for job extracted db b db'
    by (erule store_parsed_cases) (simp add: documents_move_same, auto intro!: documents_move_then [OF transition_moves] status_step.release
      simp: RECOVERABLE_STATUSES_def)
  show "store_chunks sv job chunking db = Inr (b, db') \<Longrightarrow> documents_move db db'" for job chunking db b db'
    by (erule store_chunks_cases) (simp add: documents_move_same, auto intro!: documents_move_then [OF transition_moves] status_step.release
      simp: RECOVERABLE_STATUSES_def)
  show "replace_chunks sv job chunking db = Inr (b, db') \<Longrightarrow> documents_move db db'" for job chunking db b db'
    by (erule replace_chunks_cases) (simp add: documents_move_same, auto intro!: documents_move_then [OF transition_moves] status_step.replace)
  show "store_ready sv job db = Inr (b, db') \<Longrightarrow> documents_move db db'" for job db b db'
    by (erule store_ready_cases) (simp add: documents_move_same, auto intro!: documents_move_then [OF transition_moves] status_step.finish)
qed (auto intro: create_moves soft_delete_moves reap_moves documents_move_same)

section \<open>Long runs\<close>

lemma list_all2_partner:
  assumes "list_all2 P xs ys"
  shows "x \<in> set xs \<Longrightarrow> \<exists>y \<in> set ys. P x y" and "y \<in> set ys \<Longrightarrow> \<exists>x \<in> set xs. P x y"
  using assms by (induction rule: list_all2_induct) auto

lemma moves_forward:
  assumes "documents_move\<^sup>*\<^sup>* db db'" and "r \<in> set (db_documents db)"
  shows "\<exists>r' \<in> set (db_documents db'). row_step\<^sup>*\<^sup>* r r'"
  using assms
proof (induction rule: rtranclp_induct)
  case (step db1 db2)
  then obtain r1 where r1: "r1 \<in> set (db_documents db1)" "row_step\<^sup>*\<^sup>* r r1" by blast
  obtain rows new where rows: "db_documents db2 = rows @ new" "list_all2 row_step (db_documents db1) rows"
    using step.hyps(2) by (auto simp: documents_move_def)
  then obtain r2 where "r2 \<in> set rows" "row_step r1 r2"
    using list_all2_partner(1) [OF rows(2) r1(1)] by blast
  with rows(1) r1(2) show ?case by (auto intro: rtranclp.rtrancl_into_rtrancl)
qed blast

lemma moves_backward:
  assumes "documents_move\<^sup>*\<^sup>* db db'" and "r' \<in> set (db_documents db')"
  shows "\<exists>r. row_step\<^sup>*\<^sup>* r r' \<and> (r \<in> set (db_documents db) \<or> doc_status r = DocumentStatus.PENDING \<and> is_live r \<and> doc_chunk_count r = 0)"
  using assms
proof (induction arbitrary: r' rule: rtranclp_induct)
  case (step db1 db2)
  obtain rows new where new: "db_documents db2 = rows @ new" "list_all2 row_step (db_documents db1) rows"
    "list_all (\<lambda>r. doc_status r = DocumentStatus.PENDING \<and> is_live r \<and> doc_chunk_count r = 0) new"
    using step.hyps(2) by (auto simp: documents_move_def)
  with step.prems consider "r' \<in> set new" | "r' \<in> set rows" by auto
  then show ?case
  proof cases
    case 2
    obtain r1 where "r1 \<in> set (db_documents db1)" "row_step r1 r'"
      using list_all2_partner(2) [OF new(2) 2] by blast
    with step.IH show ?thesis by (meson rtranclp.rtrancl_into_rtrancl)
  qed (use new(3) in \<open>auto simp: list_all_iff\<close>)
qed blast

definition is_terminal :: "DocumentStatus \<Rightarrow> bool" where
  "is_terminal st \<longleftrightarrow> st = DocumentStatus.READY \<or> st = DocumentStatus.FAILED"

lemma terminal_step: "status_step st st' \<Longrightarrow> \<not> is_terminal st"
  by (auto simp: is_terminal_def status_step_simps RECOVERABLE_STATUSES_def)

lemma row_steps:
  assumes "row_step\<^sup>*\<^sup>* r r'"
  shows "same_upload r r' \<and> status_step\<^sup>*\<^sup>* (doc_status r) (doc_status r') \<and> (\<not> is_live r \<longrightarrow> r' = r)
    \<and> (is_terminal (doc_status r) \<longrightarrow> doc_status r' = doc_status r \<and> doc_failure_reason r' = doc_failure_reason r
        \<and> doc_chunk_count r' = doc_chunk_count r)"
  using assms
proof (induction rule: rtranclp_induct)
  case (step r1 r2)
  from step.hyps(2) show ?case
  proof cases
    case delete
    with step.IH show ?thesis by (auto intro: same_upload_trans)
  next
    case move
    with step.IH terminal_step [OF move(4)] show ?thesis
      by (auto intro: same_upload_trans rtranclp.rtrancl_into_rtrancl)
  qed (use step.IH in simp)
qed simp

section \<open>Properties\<close>


lemma reachable_weaken:
  "reachable allowed startable w0 s \<Longrightarrow> (\<And>c. allowed c \<Longrightarrow> allowed' c) \<Longrightarrow> reachable allowed' startable w0 s"
proof (induction rule: reachable.induct)
  case (further s s')
  from further.hyps(2) have "pool_step allowed' startable s s'"
    by cases (use further.prems in \<open>auto intro: pool_step.intros\<close>)
  with further show ?case by (auto intro: reachable.further)
qed (rule reachable.initial)


end
