(* ===== verification/Tenancy.thy ===== *)
theory Tenancy
  imports Effects ReadyDocuments
begin

text \<open>
  Tenants are isolated: whatever processes act for one user, in any interleaving and with any
  failures, the documents of every other user, their pages and their chunks stay exactly as they
  are. The argument is that every statement carries the owner in its predicate.
\<close>

definition foreign :: "database \<Rightarrow> uuid \<Rightarrow> uuid \<Rightarrow> bool" where
  "foreign db u d \<longleftrightarrow> (\<exists>r \<in> set (db_documents db). doc_id r = d \<and> doc_user_id r \<noteq> u)"

definition others_rows :: "database \<Rightarrow> uuid \<Rightarrow> DocumentRow list" where
  "others_rows db u = filter (\<lambda>r. doc_user_id r \<noteq> u) (db_documents db)"

definition others_untouched :: "uuid \<Rightarrow> database \<Rightarrow> database \<Rightarrow> bool" where
  "others_untouched u db db' \<longleftrightarrow> others_rows db' u = others_rows db u
     \<and> (\<forall>d. foreign db u d \<longrightarrow> pages_of db' d = pages_of db d \<and> chunks_of db' d = chunks_of db d)"

text \<open>The step relation: from a database that keeps its constraints.\<close>

definition tenant_step :: "uuid \<Rightarrow> database \<Rightarrow> database \<Rightarrow> bool" where
  "tenant_step u db db' \<longleftrightarrow> (wf_db db \<longrightarrow> wf_db db' \<and> others_untouched u db db')"

definition acts_for :: "unicode \<Rightarrow> uuid \<Rightarrow> ustr \<Rightarrow> bool" where
  "acts_for U u user \<longleftrightarrow> parse_text U user = None \<or> parse_text U user = Some u"

lemma foreign_others: "foreign db u d \<longleftrightarrow> d \<in> doc_id ` set (others_rows db u)"
  by (auto simp: foreign_def others_rows_def)

lemma foreign_not_owned: "wf_db db \<Longrightarrow> foreign db u d \<Longrightarrow> \<not> owned_by (db_documents db) u d"
  using wf_db_document_eq by (fastforce simp: foreign_def owned_by_iff owned_live_def)

lemma untouched_same [simp]: "others_untouched u db db"
  by (simp add: others_untouched_def)

lemma untouched_trans: "others_untouched u a b \<Longrightarrow> others_untouched u b c \<Longrightarrow> others_untouched u a c"
  by (simp add: others_untouched_def foreign_others)

lemma tenant_step_same: "tenant_step u db db"
  by (simp add: tenant_step_def)

lemma tenant_step_trans: "tenant_step u a b \<Longrightarrow> tenant_step u b c \<Longrightarrow> tenant_step u a c"
  by (auto simp: tenant_step_def intro: untouched_trans)

section \<open>Statements\<close>

lemma others_update:
  assumes "\<And>r. p r \<Longrightarrow> doc_user_id r = u \<and> doc_user_id (f r) = u"
  shows "filter (\<lambda>r. doc_user_id r \<noteq> u) (update_where p f rows) = filter (\<lambda>r. doc_user_id r \<noteq> u) rows"
  using assms by (induction rows) (auto simp: update_where_def)

lemma documents_untouched:
  "others_rows (db\<lparr>db_documents := rows\<rparr>) u = others_rows db u \<Longrightarrow> others_untouched u db (db\<lparr>db_documents := rows\<rparr>)"
  by (simp add: others_untouched_def)

lemma tenant_transition:
  assumes "documents_transition_status_for_user U d user x y reason cnt db = Inr (b, db')" and "acts_for U u user"
  shows "tenant_step u db db'"
proof (cases rule: scoped_cases [of U d user])
  case malformed
  with assms(1) show ?thesis by (simp add: transition_unparsed tenant_step_same)
next
  case (parsed t ow)
  with assms(2) have ow: "ow = u" by (simp add: acts_for_def)
  show ?thesis
    unfolding tenant_step_def
  proof
    assume wf: "wf_db db"
    have "db' = db\<lparr>db_documents := update_where (claimable t u x) (move_status y reason cnt (db_now db)) (db_documents db)\<rparr>"
      using assms(1) parsed ow by (auto simp: documents_transition_status_for_user_def scoped_eq)
    moreover have "others_rows (db\<lparr>db_documents := update_where (claimable t u x) (move_status y reason cnt (db_now db)) (db_documents db)\<rparr>) u = others_rows db u"
      unfolding others_rows_def by simp (rule others_update, auto simp: claimable_def owned_live_def)
    ultimately show "wf_db db' \<and> others_untouched u db db'"
      using transition_views [OF assms(1) wf parsed] documents_untouched by auto
  qed
qed

lemma tenant_soft_delete:
  assumes "documents_soft_delete_for_user U d user db = Inr (b, db')" and "acts_for U u user"
  shows "tenant_step u db db'"
  unfolding tenant_step_def
proof
  assume wf: "wf_db db"
  note views = soft_delete_views [OF assms(1) wf]
  have "others_rows db' u = others_rows db u"
  proof (cases rule: scoped_cases [of U d user])
    case malformed
    with assms(1) show ?thesis by (auto simp: documents_soft_delete_for_user_def scoped_none)
  next
    case (parsed t ow)
    with assms(2) have "ow = u" by (simp add: acts_for_def)
    then show ?thesis
      using assms(1) parsed
      by (auto simp: documents_soft_delete_for_user_def scoped_eq others_rows_def owned_live_def intro!: others_update)
  qed
  with views show "wf_db db' \<and> others_untouched u db db'" by (simp add: others_untouched_def)
qed

lemma tenant_create:
  assumes "documents_create U i user v db = Inr (document, db')" and "acts_for U u user"
  shows "tenant_step u db db'"
  unfolding tenant_step_def
proof
  assume wf: "wf_db db"
  have "others_rows db' u = others_rows db u"
    using assms by (auto simp: documents_create_def Let_def acts_for_def others_rows_def new_document_row_def split: option.splits)
  with create_views [OF assms(1) wf] show "wf_db db' \<and> others_untouched u db db'" by (simp add: others_untouched_def)
qed

text \<open>Pages and chunks: what is written belongs to a document of the user.\<close>

lemma children_untouched:
  assumes "wf_db db" and "owned_by (db_documents db) u d" and "db_documents db' = db_documents db"
    and "\<forall>d'. d' \<noteq> d \<longrightarrow> pages_of db' d' = pages_of db d' \<and> chunks_of db' d' = chunks_of db d'"
  shows "others_untouched u db db'"
  using assms foreign_not_owned [OF assms(1)] unfolding others_untouched_def others_rows_def by metis

lemma tenant_pages_add:
  assumes "pages_add_for_user U d user pages db = Inr db'" and "acts_for U u user"
  shows "tenant_step u db db'"
proof (cases rule: scoped_cases [of U d user])
  case malformed
  with assms(1) show ?thesis by (auto simp: pages_add_for_user_def owned_document_id_def scoped_none)
next
  case (parsed t ow)
  with assms(2) have ow: "ow = u" by (simp add: acts_for_def)
  show ?thesis
    unfolding tenant_step_def
  proof
    assume wf: "wf_db db"
    have "owned_by (db_documents db) u t" "db_documents db' = db_documents db"
      using assms(1) owned_document_id_eq [OF wf parsed] ow by (auto simp: pages_add_for_user_def split: if_splits)
    with pages_add_views [OF assms(1) wf parsed] show "wf_db db' \<and> others_untouched u db db'"
      using children_untouched [OF wf] by metis
  qed
qed

lemma tenant_chunks_add:
  assumes "chunks_add_many U h d user chunking db = Inr (cs, db')" and "acts_for U u user"
  shows "tenant_step u db db'"
proof (cases rule: scoped_cases [of U d user])
  case malformed
  with assms(1) show ?thesis by (auto simp: chunks_add_many_def owned_document_id_def scoped_none)
next
  case (parsed t ow)
  with assms(2) have ow: "ow = u" by (simp add: acts_for_def)
  show ?thesis
    unfolding tenant_step_def
  proof
    assume wf: "wf_db db"
    have "owned_by (db_documents db) u t" "db_documents db' = db_documents db"
      using assms(1) owned_document_id_eq [OF wf parsed] ow by (auto simp: chunks_add_many_def Let_def split: if_splits)
    with chunks_add_views [OF assms(1) wf parsed] show "wf_db db' \<and> others_untouched u db db'"
      using children_untouched [OF wf] by metis
  qed
qed

lemma tenant_chunks_delete:
  assumes "chunks_delete_for_document U d user db = Inr (n, db')" and "acts_for U u user"
  shows "tenant_step u db db'"
proof (cases rule: scoped_cases [of U d user])
  case malformed
  with assms(1) show ?thesis by (auto simp: chunks_delete_for_document_def scoped_none tenant_step_same)
next
  case (parsed t ow)
  with assms(2) have ow: "ow = u" by (simp add: acts_for_def)
  show ?thesis
    unfolding tenant_step_def
  proof
    assume wf: "wf_db db"
    show "wf_db db' \<and> others_untouched u db db'"
    proof (cases "owned_by (db_documents db) u t")
      case True
      from chunks_delete_views [OF assms(1) wf parsed True [folded ow]] children_untouched [OF wf True, of db'] show ?thesis
        by simp
    next
      case False
      then have "delete_where (of_owned_document db t u) (db_chunks db) = db_chunks db"
        by (simp add: delete_where_def of_owned_document_def)
      then have "db' = db" using assms(1) parsed ow by (auto simp: chunks_delete_for_document_def scoped_eq)
      with wf show ?thesis by simp
    qed
  qed
qed

lemma tenant_mark_embedded:
  assumes "chunks_mark_embedded U d user model width db = Inr (n, db')" and "acts_for U u user"
  shows "tenant_step u db db'"
proof (cases rule: scoped_cases [of U d user])
  case malformed
  with assms(1) show ?thesis by (auto simp: chunks_mark_embedded_def scoped_none tenant_step_same)
next
  case (parsed t ow)
  with assms(2) have ow: "ow = u" by (simp add: acts_for_def)
  show ?thesis
    unfolding tenant_step_def
  proof
    assume wf: "wf_db db"
    have docs: "db_documents db' = db_documents db"
      using assms(1) parsed by (auto simp: chunks_mark_embedded_def scoped_eq)
    show "wf_db db' \<and> others_untouched u db db'"
    proof (cases "owned_by (db_documents db) u t")
      case True
      from mark_embedded_views [OF assms(1) wf parsed True [folded ow]] children_untouched [OF wf True docs] show ?thesis
        by simp
    next
      case False
      then have "update_where (of_owned_document db t u) (set_embedded model width) (db_chunks db) = db_chunks db"
        by (intro update_where_none) (simp add: of_owned_document_def)
      then have "db' = db" using assms(1) parsed ow by (auto simp: chunks_mark_embedded_def scoped_eq)
      with wf show ?thesis by simp
    qed
  qed
qed

lemmas tenant_statements =
  tenant_transition tenant_soft_delete tenant_create tenant_pages_add tenant_chunks_add tenant_chunks_delete tenant_mark_embedded

interpretation tenant: system_effects sv "acts_for (sv_unicode sv) u" "tenant_step u" "\<lambda>_. True"
  for sv :: "('q, 'r) service" and u :: uuid
proof unfold_locales
  fix job :: IngestionJob and db b db' assume u: "acts_for (sv_unicode sv) u (job_owner_id job)"
  show "store_parsed sv job extracted db = Inr (b, db') \<Longrightarrow> tenant_step u db db'" for extracted
    by (erule store_parsed_cases) (use u in \<open>auto intro: tenant_step_same tenant_step_trans tenant_statements\<close>)
  show "store_chunks sv job chunking db = Inr (b, db') \<Longrightarrow> tenant_step u db db'" for chunking
    by (erule store_chunks_cases) (use u in \<open>auto intro: tenant_step_same tenant_step_trans tenant_statements\<close>)
  show "replace_chunks sv job chunking db = Inr (b, db') \<Longrightarrow> tenant_step u db db'" for chunking
    by (erule replace_chunks_cases) (use u in \<open>auto intro: tenant_step_same tenant_step_trans [OF tenant_transition tenant_step_trans]
        tenant_statements\<close>)
  show "store_ready sv job db = Inr (b, db') \<Longrightarrow> tenant_step u db db'"
    by (erule store_ready_cases) (use u in \<open>auto intro: tenant_step_same tenant_step_trans tenant_statements\<close>)
qed (auto intro: tenant_step_same tenant_statements)

section \<open>Properties\<close>

text \<open>What runs for one user: the deliveries of the user's jobs and the user's use cases.\<close>

inductive user_process :: "('q, 'r) service \<Rightarrow> uploads \<Rightarrow> uuid \<Rightarrow> (('q, 'r) world, unit) prog \<Rightarrow> bool"
  for sv ul u where
  delivery: "acts_for (sv_unicode sv) u (job_owner_id job) \<Longrightarrow> user_process sv ul u (background (ingest sv job final))"
| given_up: "acts_for (sv_unicode sv) u (job_owner_id job) \<Longrightarrow> user_process sv ul u (background (record_given_up sv job))"
| upload: "acts_for (sv_unicode sv) u (p_user_id caller) \<Longrightarrow>
    user_process sv ul u (background (upload_and_process sv ul new_id filename stream caller))"
| deletion: "acts_for (sv_unicode sv) u (p_user_id caller) \<Longrightarrow>
    user_process sv ul u (background (delete_document sv document_id caller))"
| reading: "user_process sv ul u (background (get_document sv document_id caller))"
| listing: "user_process sv ul u (background (list_user_documents sv caller))"

lemma steps_user: "user_process sv ul u p \<Longrightarrow> tenant.steps u p"
  by (induction rule: user_process.induct)
    (auto intro!: tenant.steps_background intro: tenant.steps_of tenant.delivery_ingest tenant.fine_given_up
      tenant.fine_upload tenant.fine_deletion tenant.fine_reads)

text \<open>
  C7. Tenants are isolated. Whatever processes act for one user, in any number and interleaving,
  with any document id in a job or a request, forged ones included, and whatever fails, the rows of
  every other user's documents stay as they are, and so do those documents' pages and chunks.
\<close>

theorem tenants_are_isolated:
  assumes "reachable (\<lambda>_. True) (user_process sv ul u) w0 (w, ps)" and "wf_db (w_db w0)"
  shows "others_rows (w_db w) u = others_rows (w_db w0) u
    \<and> (\<forall>r \<in> set (db_documents (w_db w0)). doc_user_id r \<noteq> u \<longrightarrow>
        r \<in> set (db_documents (w_db w)) \<and> pages_of (w_db w) (doc_id r) = pages_of (w_db w0) (doc_id r)
        \<and> chunks_of (w_db w) (doc_id r) = chunks_of (w_db w0) (doc_id r))"
proof -
  have all: "raising (\<lambda>_. True) = (\<lambda>_. True)" by (auto simp: raising_def fun_eq_iff split: choice.split)
  have "wf_db (w_db (fst (w, ps))) \<and> others_untouched u (w_db w0) (w_db (fst (w, ps)))"
  proof (rule pool_keeps [OF assms(1)])
    show "does (\<lambda>_. True) (on_db (tenant_step u)) (\<lambda>_. True) p" if "user_process sv ul u p" for p
      using steps_user [OF that] by (simp add: all)
    show "wf_db (w_db w0) \<and> others_untouched u (w_db w0) (w_db w0)" using assms(2) by simp
    show "wf_db (w_db x) \<and> others_untouched u (w_db w0) (w_db x) \<Longrightarrow> on_db (tenant_step u) x y \<Longrightarrow>
        wf_db (w_db y) \<and> others_untouched u (w_db w0) (w_db y)" for x y
      by (auto simp: on_db_def tenant_step_def intro: untouched_trans)
  qed
  then have "others_untouched u (w_db w0) (w_db w)" by simp
  moreover then have "set (others_rows (w_db w) u) = set (others_rows (w_db w0) u)" by (simp add: others_untouched_def)
  then have "r \<in> set (db_documents (w_db w))" if "r \<in> set (db_documents (w_db w0))" "doc_user_id r \<noteq> u" for r
    using that by (auto simp: others_rows_def)
  ultimately show ?thesis
    by (auto simp: others_untouched_def foreign_def)
qed

theorem tenants_are_isolated_witness:
  "\<exists>w ps. reachable (\<lambda>_. True) (user_process example_service example_uploads 7) (staged_world DocumentStatus.READY) (w, ps)
    \<and> ps \<noteq> [] \<and> example_row DocumentStatus.READY 1 \<in> set (db_documents (w_db w)) \<and> length (chunks_of (w_db w) 2) = 1"
proof -
  let ?R = "reachable (\<lambda>_. True) (user_process example_service example_uploads 7) (staged_world DocumentStatus.READY)"
  let ?caller = "\<lparr>p_user_id = uuid_str 7, p_email = [], p_role = RESEARCHER\<rparr>"
  let ?p = "background (delete_document example_service (uuid_str 2) ?caller)"
  have "user_process example_service example_uploads 7 ?p"
    by (rule user_process.deletion) (simp add: acts_for_def)
  then have start: "?R (staged_world DocumentStatus.READY, [] @ ?p # [])"
    using reachable.further [OF reachable.initial pool_step.start, of "user_process example_service example_uploads 7" ?p] by simp
  obtain f where f: "?p = Await f"
    by (simp add: background_def delete_document_def soft_delete_def db_tx_def call_def bindP_def)
  obtain w q where "f Proceed (staged_world DocumentStatus.READY) = (w, q)" by fastforce
  then have "?R (w, [] @ q # [])"
    using reachable.further [OF start [unfolded f] pool_step.resume] by simp
  then have reach: "?R (w, [q])" by simp
  have "wf_db (w_db (staged_world DocumentStatus.READY))"
    using staged_db_wf [of DocumentStatus.READY] by (simp add: staged_world_def)
  from tenants_are_isolated [OF reach this] reach show ?thesis
    by (fastforce simp: staged_world_def staged_db_def example_row_def chunks_of_def example_chunk_row_def)
qed

end
