(* ===== verification/Queue.thy ===== *)
theory Queue
  imports IngestionService
begin

text \<open>
  \<open>backend/ingestion/queue.py\<close> and the job as it crosses the queue (\<open>model_dump\<close> on the way in,
  \<open>model_validate\<close> on the way out). ARQ and Redis are not part of the program: \<open>arq_enqueue\<close> is ARQ's
  \<open>enqueue_job\<close> over an abstract state, where \<open>None\<close> is a call that raised and \<open>Some None\<close> its answer
  for a job id that is taken. \<open>arq_laws\<close> states ARQ's documented behaviour.
\<close>

section \<open>The payload\<close>

definition job_fields :: "ustr list" where
  "job_fields = map py_str [''document_id'', ''owner_id'', ''storage_key'', ''content_hash'', ''mime_type'']"

definition job_dump :: "IngestionJob \<Rightarrow> json" where
  "job_dump job = JDict (zip job_fields (map JStr
     [job_document_id job, job_owner_id job, job_storage_key job, job_content_hash job, job_mime_type job]))"

definition str_field :: "(ustr \<times> json) list \<Rightarrow> string \<Rightarrow> ustr option" where
  "str_field m key = (case map_of m (py_str key) of Some (JStr s) \<Rightarrow> Some s | _ \<Rightarrow> None)"

text \<open>\<open>extra="forbid"\<close>: a key that is not a field is refused, like a field that is missing or not text.\<close>

definition job_validate :: "json \<Rightarrow> IngestionJob option" where
  "job_validate payload =
     (case payload of
        JDict m \<Rightarrow>
          (if \<not> list_all (\<lambda>kv. fst kv \<in> set job_fields) m then None
           else case (str_field m ''document_id'', str_field m ''owner_id'', str_field m ''storage_key'',
                      str_field m ''content_hash'', str_field m ''mime_type'') of
             (Some d, Some u, Some k, Some h, Some t) \<Rightarrow>
               Some \<lparr>job_document_id = d, job_owner_id = u, job_storage_key = k, job_content_hash = h, job_mime_type = t\<rparr>
           | _ \<Rightarrow> None)
      | _ \<Rightarrow> None)"

section \<open>Enqueueing\<close>

definition INGEST_DOCUMENT_TASK :: ustr where
  "INGEST_DOCUMENT_TASK = py_str ''ingest_document''"

definition ingestion_job_id :: "ustr \<Rightarrow> ustr" where
  "ingestion_job_id document_id = py_str ''ingest-document:'' @ document_id"

record 'r arq =
  arq_open :: "'r \<Rightarrow> 'r option"
  arq_enqueue :: "ustr \<Rightarrow> json \<Rightarrow> ustr \<Rightarrow> 'r \<Rightarrow> ustr option option \<times> 'r"
  arq_live :: "'r \<Rightarrow> ustr \<Rightarrow> (ustr \<times> json) option"

definition enqueue_ingestion_job :: "'r arq \<Rightarrow> IngestionJob \<Rightarrow> 'r \<Rightarrow> (exn, bool) result \<times> 'r" where
  "enqueue_ingestion_job A job s =
     (case arq_enqueue A INGEST_DOCUMENT_TASK (job_dump job) (ingestion_job_id (job_document_id job)) s of
        (None, s') \<Rightarrow> (Inl OtherError, s')
      | (Some queued, s') \<Rightarrow> (Inr (queued \<noteq> None), s'))"

text \<open>A connection of its own for each call (the API), or the one it was handed (the worker).\<close>

definition arq_queue_enqueue :: "'r arq \<Rightarrow> IngestionJob \<Rightarrow> 'r \<Rightarrow> (exn, bool) result \<times> 'r" where
  "arq_queue_enqueue A job s =
     (case arq_open A s of None \<Rightarrow> (Inl OtherError, s) | Some redis \<Rightarrow> enqueue_ingestion_job A job redis)"

definition pooled_queue_enqueue :: "'r arq \<Rightarrow> IngestionJob \<Rightarrow> 'r \<Rightarrow> (exn, bool) result \<times> 'r" where
  "pooled_queue_enqueue A job s = enqueue_ingestion_job A job s"

section \<open>What ARQ promises\<close>

text \<open>A job id that is live is refused and nothing changes; otherwise the job becomes live under it.\<close>

definition arq_laws :: "'r arq \<Rightarrow> bool" where
  "arq_laws A \<longleftrightarrow>
     (\<forall>s s'. arq_open A s = Some s' \<longrightarrow> arq_live A s' = arq_live A s)
     \<and> (\<forall>task payload i s answer s'. arq_enqueue A task payload i s = (Some answer, s') \<longrightarrow>
        (if answer = None then arq_live A s i \<noteq> None \<and> arq_live A s' = arq_live A s
         else arq_live A s i = None \<and> arq_live A s' = (arq_live A s)(i \<mapsto> (task, payload))))"

lemma enqueue_result:
  assumes "arq_laws A" and "enqueue_ingestion_job A job s = (Inr q, s')"
  shows "q \<longleftrightarrow> arq_live A s (ingestion_job_id (job_document_id job)) = None"
    and "arq_live A s' (ingestion_job_id (job_document_id job)) \<noteq> None"
proof -
  let ?i = "ingestion_job_id (job_document_id job)"
  obtain answer where e: "arq_enqueue A INGEST_DOCUMENT_TASK (job_dump job) ?i s = (Some answer, s')" "q \<longleftrightarrow> answer \<noteq> None"
    using assms(2) by (auto simp: enqueue_ingestion_job_def split: prod.splits option.splits)
  with assms(1) have "if answer = None then arq_live A s ?i \<noteq> None \<and> arq_live A s' = arq_live A s
      else arq_live A s ?i = None \<and> arq_live A s' = (arq_live A s)(?i \<mapsto> (INGEST_DOCUMENT_TASK, job_dump job))"
    unfolding arq_laws_def by blast
  with e(2) show "q \<longleftrightarrow> arq_live A s ?i = None" "arq_live A s' ?i \<noteq> None" by (auto split: if_splits)
qed

text \<open>A queue that keeps the promise: the live jobs as a map, where nothing fails.\<close>

definition map_arq :: "(ustr \<rightharpoonup> ustr \<times> json) arq" where
  "map_arq = \<lparr>arq_open = Some,
     arq_enqueue = \<lambda>task payload i s. (if s i = None then (Some (Some i), s(i \<mapsto> (task, payload))) else (Some None, s)),
     arq_live = id\<rparr>"

lemma map_arq_laws: "arq_laws map_arq"
  by (auto simp: arq_laws_def map_arq_def split: if_splits)

section \<open>A sequence of calls\<close>

text \<open>
  Calls one after another, by whatever processes make them: ARQ runs each in one transaction. The
  answers, in order; \<open>None\<close> as soon as one raises.
\<close>

fun enqueue_all :: "'r arq \<Rightarrow> IngestionJob list \<Rightarrow> 'r \<Rightarrow> (bool list \<times> 'r) option" where
  "enqueue_all A [] s = Some ([], s)"
| "enqueue_all A (job # jobs) s =
     (case enqueue_ingestion_job A job s of
        (Inl e, s') \<Rightarrow> None
      | (Inr q, s') \<Rightarrow> (case enqueue_all A jobs s' of None \<Rightarrow> None | Some (qs, s'') \<Rightarrow> Some (q # qs, s'')))"

lemma enqueue_all_taken:
  assumes laws: "arq_laws A" and "enqueue_all A jobs s = Some (qs, s')" and "arq_live A s (ingestion_job_id d) \<noteq> None"
    and "\<forall>job \<in> set jobs. job_document_id job = d"
  shows "\<not> list_ex id qs"
  using assms(2-)
proof (induction jobs arbitrary: s qs)
  case (Cons job jobs)
  then obtain q s1 qs1 where e: "enqueue_ingestion_job A job s = (Inr q, s1)" "enqueue_all A jobs s1 = Some (qs1, s')" "qs = q # qs1"
    by (auto split: prod.splits sum.splits option.splits)
  with Cons.prems enqueue_result [OF laws e(1)] Cons.IH [OF e(2)] show ?case by auto
qed simp

lemma enqueue_all_first:
  assumes laws: "arq_laws A" and first: "enqueue_all A (job # jobs) s = Some (qs, s')" and "arq_live A s (ingestion_job_id d) = None"
    and "\<forall>x \<in> set (job # jobs). job_document_id x = d"
  shows "hd qs \<and> \<not> list_ex id (tl qs)"
proof -
  from first obtain q s1 qs1 where e: "enqueue_ingestion_job A job s = (Inr q, s1)"
    "enqueue_all A jobs s1 = Some (qs1, s')" "qs = q # qs1"
    by (auto split: prod.splits sum.splits option.splits)
  with assms(3,4) enqueue_result [OF laws e(1)] enqueue_all_taken [OF laws e(2)] show ?thesis by auto
qed

lemma ingestion_job_id_inject [simp]: "ingestion_job_id d = ingestion_job_id d' \<longleftrightarrow> d = d'"
  by (simp add: ingestion_job_id_def)

lemma job_validate_dump [simp]: "job_validate (job_dump job) = Some job"
  by (simp add: job_validate_def job_dump_def job_fields_def str_field_def)

section \<open>Properties\<close>

text \<open>
  A job survives the queue: what the worker validates out of the payload is the job that was put
  in, and a payload with a field missing, a field of another type or a field too many is no job.
\<close>

theorem job_round_trip:
  "job_validate (job_dump job) = Some job
    \<and> (\<forall>m. job_validate (JDict m) \<noteq> None \<longrightarrow> fst ` set m = set job_fields
        \<and> (\<forall>key \<in> set job_fields. \<exists>v. map_of m key = Some (JStr v)))
    \<and> job_validate (JStr s) = None \<and> job_validate JNull = None"
proof -
  have "fst ` set m = set job_fields \<and> (\<forall>key \<in> set job_fields. \<exists>v. map_of m key = Some (JStr v))"
    if m: "job_validate (JDict m) \<noteq> None" for m
  proof -
    have sub: "fst ` set m \<subseteq> set job_fields" and f: "\<And>key. key \<in> {''document_id'', ''owner_id'', ''storage_key'', ''content_hash'', ''mime_type''} \<Longrightarrow> str_field m key \<noteq> None"
      using m by (auto simp: job_validate_def list_all_iff split: if_splits option.splits)
    have present: "\<exists>v. map_of m (py_str key) = Some (JStr v)"
      if "key \<in> {''document_id'', ''owner_id'', ''storage_key'', ''content_hash'', ''mime_type''}" for key
      using f [OF that] by (auto simp: str_field_def split: option.splits json.splits)
    then have all: "\<forall>key \<in> set job_fields. \<exists>v. map_of m key = Some (JStr v)"
      by (simp add: job_fields_def del: py_str_simps)
    then have "set job_fields \<subseteq> fst ` set m" by (force dest: map_of_SomeD)
    with sub all show ?thesis by blast
  qed
  moreover have "job_validate (JStr s) = None" "job_validate JNull = None" by (simp_all add: job_validate_def)
  ultimately show ?thesis by simp
qed

theorem job_round_trip_witness:
  "\<exists>payload. job_validate payload = Some \<lparr>job_document_id = [65], job_owner_id = [66], job_storage_key = [], job_content_hash = [], job_mime_type = []\<rparr>
    \<and> (\<exists>m. payload = JDict m \<and> fst ` set m = set job_fields)"
proof -
  let ?job = "\<lparr>job_document_id = [65], job_owner_id = [66], job_storage_key = [], job_content_hash = [], job_mime_type = []\<rparr>"
  obtain m where m: "job_dump ?job = JDict m" by (simp add: job_dump_def)
  with job_round_trip [of ?job "[]"] have "job_validate (JDict m) = Some ?job" "fst ` set m = set job_fields"
    by fastforce+
  then show ?thesis by blast
qed

text \<open>
  C13. One live job per document. However many calls to enqueue a job for one document are made, by
  the upload service, its retries or the recovery sweep, exactly one of them is told that it queued
  the job if none was live, the first one, and none if one was.
\<close>

theorem one_live_job_per_document:
  assumes "arq_laws A" and "enqueue_all A (job # jobs) s = Some (qs, s')"
    and "\<forall>x \<in> set (job # jobs). job_document_id x = d"
  shows "if arq_live A s (ingestion_job_id d) = None then hd qs \<and> \<not> list_ex id (tl qs) else \<not> list_ex id qs"
  using enqueue_all_first [OF assms(1,2) _ assms(3)] enqueue_all_taken [OF assms(1,2) _ assms(3)]
  by simp

theorem one_live_job_per_document_witness:
  "\<exists>job qs s'. enqueue_all map_arq [job, job] Map.empty = Some (qs, s') \<and> hd qs \<and> \<not> list_ex id (tl qs)"
proof -
  define job :: IngestionJob where "job = \<lparr>job_document_id = [], job_owner_id = [], job_storage_key = [], job_content_hash = [], job_mime_type = []\<rparr>"
  obtain qs s' where e: "enqueue_all map_arq [job, job] Map.empty = Some (qs, s')"
    by (simp add: enqueue_ingestion_job_def map_arq_def)
  from one_live_job_per_document [OF map_arq_laws e, of "job_document_id job"] e show ?thesis
    by (auto simp: map_arq_def)
qed

end
