(* ===== verification/Recovery.thy ===== *)
theory Recovery
  imports Queue ReadyDocuments
begin

text \<open>
  The sweep that puts lost documents back into the queue, over a queue that keeps ARQ's promises:
  \<open>recover_pending\<close> of the ingestion service composed with \<open>backend/ingestion/queue.py\<close>.
\<close>

lemma length_filter_imp: "(\<And>x. p x \<Longrightarrow> q x) \<Longrightarrow> length (filter p xs) \<le> length (filter q xs)"
  by (induction xs) (auto simp: le_SucI)

lemma enqueue_keeps_live:
  assumes "arq_laws A" and "enqueue_ingestion_job A job s = (Inr q, s')" and "arq_live A s i \<noteq> None"
  shows "arq_live A s' i \<noteq> None"
proof -
  obtain answer where e: "arq_enqueue A INGEST_DOCUMENT_TASK (job_dump job) (ingestion_job_id (job_document_id job)) s = (Some answer, s')"
    using assms(2) by (auto simp: enqueue_ingestion_job_def split: prod.splits option.splits)
  with assms(1) have "if answer = None then arq_live A s' = arq_live A s
      else arq_live A s' = (arq_live A s)(ingestion_job_id (job_document_id job) \<mapsto> (INGEST_DOCUMENT_TASK, job_dump job))"
    unfolding arq_laws_def by (metis (mono_tags, lifting))
  with assms(3) show ?thesis by (auto split: if_splits)
qed

lemma run_enqueue:
  assumes "sv_enqueue sv = pooled_queue_enqueue A" and "run (enqueue sv job) cs w = (Inr q, cs', w')"
  obtains s' where "enqueue_ingestion_job A job (w_queue w) = (Inr q, s')" "w' = w\<lparr>w_queue := s'\<rparr>"
  using assms
  by (cases "next_choice cs") (auto simp: enqueue_def run_call pooled_queue_enqueue_def split: prod.splits)

text \<open>What the loop does to the queue, and how it counts.\<close>

lemma recover_loop_run:
  assumes laws: "arq_laws A" and sv: "sv_enqueue sv = pooled_queue_enqueue A"
    and "run (recover_loop sv targets requeued already skips) cs w = (Inr res, cs', w')"
  shows "w_db w' = w_db w \<and> (\<forall>i. arq_live A (w_queue w) i \<noteq> None \<longrightarrow> arq_live A (w_queue w') i \<noteq> None)
    \<and> (\<forall>t \<in> set targets. \<forall>job. job_from_row (sv_unicode sv) t = Some job \<longrightarrow>
         arq_live A (w_queue w') (ingestion_job_id (job_document_id job)) \<noteq> None)
    \<and> (\<exists>fresh. rec_requeued res = requeued @ fresh \<and> distinct fresh
        \<and> (\<forall>d \<in> set fresh. arq_live A (w_queue w) (ingestion_job_id d) = None)
        \<and> length fresh + rec_already_queued res + rec_skipped res = length targets + already + skips)"
  using assms(3)
proof (induction targets arbitrary: requeued already skips cs w)
  case (Cons t targets)
  show ?case
  proof (cases "job_from_row (sv_unicode sv) t")
    case None
    with Cons.prems Cons.IH [of requeued already "skips + 1" cs w] show ?thesis by auto
  next
    case (Some job)
    with Cons.prems obtain q cs1 w1 where e: "run (enqueue sv job) cs w = (Inr q, cs1, w1)"
      and rest: "run (if q then recover_loop sv targets (requeued @ [job_document_id job]) already skips
        else recover_loop sv targets requeued (already + 1) skips) cs1 w1 = (Inr res, cs', w')"
      by (auto simp: run_bindP split: sum.splits prod.splits)
    obtain s' where s': "enqueue_ingestion_job A job (w_queue w) = (Inr q, s')" "w1 = w\<lparr>w_queue := s'\<rparr>"
      by (rule run_enqueue [OF sv e])
    note q = enqueue_result [OF laws s'(1)]
    have keep: "arq_live A (w_queue w) i \<noteq> None \<Longrightarrow> arq_live A (w_queue w1) i \<noteq> None" for i
      using enqueue_keeps_live [OF laws s'(1)] by (simp add: s'(2))
    then have old: "arq_live A (w_queue w1) i = None \<Longrightarrow> arq_live A (w_queue w) i = None" for i by blast
    have now: "arq_live A (w_queue w1) (ingestion_job_id (job_document_id job)) \<noteq> None" using q(2) by (simp add: s'(2))
    have db: "w_db w1 = w_db w" by (simp add: s'(2))
    show ?thesis
    proof (cases q)
      case True
      with rest Cons.IH [of "requeued @ [job_document_id job]" already skips cs1 w1]
      obtain fresh where f: "rec_requeued res = (requeued @ [job_document_id job]) @ fresh" "distinct fresh"
        "\<forall>d \<in> set fresh. arq_live A (w_queue w1) (ingestion_job_id d) = None"
        "length fresh + rec_already_queued res + rec_skipped res = length targets + already + skips"
        and l: "w_db w' = w_db w1" "\<forall>i. arq_live A (w_queue w1) i \<noteq> None \<longrightarrow> arq_live A (w_queue w') i \<noteq> None"
        "\<forall>t \<in> set targets. \<forall>job. job_from_row (sv_unicode sv) t = Some job \<longrightarrow>
         arq_live A (w_queue w') (ingestion_job_id (job_document_id job)) \<noteq> None" by auto
      have "distinct (job_document_id job # fresh)" "\<forall>d \<in> set (job_document_id job # fresh). arq_live A (w_queue w) (ingestion_job_id d) = None"
        using f(2,3) now old q(1) True by auto
      with f l now keep db Some show ?thesis
        by (intro conjI exI [of _ "job_document_id job # fresh"]) auto
    next
      case False
      with rest Cons.IH [of requeued "already + 1" skips cs1 w1]
      obtain fresh where f: "rec_requeued res = requeued @ fresh" "distinct fresh"
        "\<forall>d \<in> set fresh. arq_live A (w_queue w1) (ingestion_job_id d) = None"
        "length fresh + rec_already_queued res + rec_skipped res = length targets + (already + 1) + skips"
        and l: "w_db w' = w_db w1" "\<forall>i. arq_live A (w_queue w1) i \<noteq> None \<longrightarrow> arq_live A (w_queue w') i \<noteq> None"
        "\<forall>t \<in> set targets. \<forall>job. job_from_row (sv_unicode sv) t = Some job \<longrightarrow>
         arq_live A (w_queue w') (ingestion_job_id (job_document_id job)) \<noteq> None" by auto
      have "\<forall>d \<in> set fresh. arq_live A (w_queue w) (ingestion_job_id d) = None" using f(3) keep by blast
      with f l now keep db Some show ?thesis by (intro conjI exI [of _ fresh]) auto
    qed
  qed
qed (auto intro!: exI [of _ "[]"])

section \<open>Properties\<close>


text \<open>The example service with a queue of its own.\<close>

definition queueing_service :: "(ustr \<Rightarrow> (vector \<times> mapping) option, ustr \<rightharpoonup> ustr \<times> json) service" where
  "queueing_service =
     \<lparr>sv_unicode = ascii_unicode, sv_uuid5 = \<lambda>_ _. 3, sv_content_hash = \<lambda>_. replicate 64 97,
      sv_extract = \<lambda>_ _. Inl OtherError, sv_chunk = \<lambda>_. Inl OtherError, sv_embed = \<lambda>ts. Inl EmbeddingError,
      sv_model_id = py_str ''m'', sv_dimension = 2, sv_qdrant = example_qdrant,
      sv_enqueue = pooled_queue_enqueue map_arq, sv_max_pages = 10, sv_version = (py_str ''s'', py_str ''t'')\<rparr>"

definition waiting_world :: "(ustr \<Rightarrow> (vector \<times> mapping) option, ustr \<rightharpoonup> ustr \<times> json) world" where
  "waiting_world = \<lparr>w_db = staged_db DocumentStatus.PENDING, w_objects = Map.empty, w_points = (\<lambda>_. None), w_queue = Map.empty\<rparr>"


end
