(* ===== verification/Delivery.thy ===== *)
theory Delivery
  imports ReadyDocuments
begin

text \<open>
  What one delivery achieves when nothing disturbs it. The safety of the pipeline says what no
  interleaving may break; here a delivery runs alone, every collaborator answers, and a pending
  document ends ready and can be retrieved.
\<close>

lemma sort_key_sorted: "sorted (map f xs) \<Longrightarrow> sort_key f xs = xs"
  by (induction xs) (auto simp: insort_is_Cons)

section \<open>A document that stands somewhere\<close>

definition stands :: "database \<Rightarrow> uuid \<Rightarrow> uuid \<Rightarrow> DocumentStatus \<Rightarrow> int \<Rightarrow> bool" where
  "stands db u d status n \<longleftrightarrow> wf_db db \<and> owned_by (db_documents db) u d \<and> doc_view db d = [(u, status, n)]"

text \<open>Two databases that differ in their document rows at most, and hold the same documents.\<close>

definition same_children :: "database \<Rightarrow> database \<Rightarrow> bool" where
  "same_children db db' \<longleftrightarrow> db_pages db' = db_pages db \<and> db_chunks db' = db_chunks db \<and> db_users db' = db_users db
     \<and> db_now db' = db_now db \<and> map doc_id (db_documents db') = map doc_id (db_documents db)"

lemma standing_row:
  assumes "stands db u d status n"
  obtains r where "r \<in> set (db_documents db)" "owned_live d u r" "doc_status r = status" "doc_chunk_count r = n"
proof -
  from assms obtain r where r: "r \<in> set (db_documents db)" "owned_live d u r"
    by (auto simp: stands_def owned_by_iff)
  with assms doc_view_row [of db r] that show ?thesis by (auto simp: stands_def owned_live_def)
qed

lemma moves:
  assumes "stands db u d e n" and "parse_text U ds = Some d" and "parse_text U us = Some u"
    and "new \<noteq> DocumentStatus.FAILED" and "opt_ok (\<lambda>n. 0 \<le> n \<and> int4_fits n) cnt"
  obtains db' where "documents_transition_status_for_user U ds us e new None cnt db = Inr (True, db')"
    "stands db' u d new (case cnt of None \<Rightarrow> n | Some k \<Rightarrow> k)" "same_children db db'"
proof -
  have wf: "wf_db db" using assms(1) by (simp add: stands_def)
  obtain moved db' where t: "documents_transition_status_for_user U ds us e new None cnt db = Inr (moved, db')"
    using transition_accepted [OF wf, of new None cnt U ds us e] assms(4,5) by auto
  obtain r where r: "r \<in> set (db_documents db)" "owned_live d u r" "doc_status r = e"
    by (rule standing_row [OF assms(1)])
  from t wf show ?thesis
  proof (cases rule: transition_cases)
    case missed
    with r assms(2,3) show ?thesis by (auto simp: claimable_def)
  next
    case (moved t' ow x)
    have "same_children db db'"
      using doc_ids_update [of "db_documents db" _ "move_status new None cnt (db_now db)"] by (simp add: same_children_def moved(6))
    moreover have "owned_by (db_documents db') u d"
    proof -
      have "move_status new None cnt (db_now db) r \<in> set (db_documents db')"
        using r(1,2) moved(2) assms(2) by (auto simp: moved(6) owned_live_def)
      with r(2) show ?thesis unfolding owned_by_iff by (rule_tac bexI) auto
    qed
    ultimately show ?thesis
      using that [of db'] t moved(1) transition_views [OF t wf assms(2,3)] assms(1) by (auto simp: stands_def)
  qed
qed

lemma same_children_errors:
  assumes "same_children db db'"
  shows "pages_error (db_documents db) ps = None \<Longrightarrow> pages_error (db_documents db') ps = None"
    and "chunks_error (db_documents db) cs = None \<Longrightarrow> chunks_error (db_documents db') cs = None"
  using assms children_error_ids [of "db_documents db" "db_documents db'"] by (simp_all add: same_children_def)

section \<open>The three stores\<close>

lemma store_parsed_moves:
  assumes "stands db u d DocumentStatus.PROCESSING n"
    and "parse_text (sv_unicode sv) (job_document_id job) = Some d" and "parse_text (sv_unicode sv) (job_owner_id job) = Some u"
    and "pages_error (db_documents db) (db_pages db @ map (new_page_row d (db_now db)) (et_pages extracted)) = None"
  obtains db' where "store_parsed sv job extracted db = Inr (True, db')" "stands db' u d DocumentStatus.PARSED n"
    "pages_of db' d = pages_of db d @ map (new_page_row d (db_now db)) (et_pages extracted)"
    "db_chunks db' = db_chunks db" "db_now db' = db_now db" "map doc_id (db_documents db') = map doc_id (db_documents db)"
proof -
  obtain db1 where t: "documents_transition_status_for_user (sv_unicode sv) (job_document_id job) (job_owner_id job)
      DocumentStatus.PROCESSING DocumentStatus.PARSED None None db = Inr (True, db1)"
    and s: "stands db1 u d DocumentStatus.PARSED n" and c: "same_children db db1"
    by (rule moves [OF assms(1-3), of DocumentStatus.PARSED None]) simp_all
  let ?db2 = "db1\<lparr>db_pages := db_pages db1 @ map (new_page_row d (db_now db)) (et_pages extracted)\<rparr>"
  have p: "pages_add_for_user (sv_unicode sv) (job_document_id job) (job_owner_id job) (et_pages extracted) db1 = Inr ?db2"
    using owned_document_id_eq [of db1, OF _ assms(2,3)] s same_children_errors(1) [OF c] assms(4) c
    by (simp add: pages_add_for_user_def stands_def same_children_def)
  have "stands ?db2 u d DocumentStatus.PARSED n" "pages_of ?db2 d = pages_of db d @ map (new_page_row d (db_now db)) (et_pages extracted)"
    using pages_add_views [OF p _ assms(2,3)] s c by (simp_all add: stands_def same_children_def pages_of_def)
  moreover have "store_parsed sv job extracted db = Inr (True, ?db2)"
    using t p by (simp add: store_parsed_def)
  ultimately show ?thesis using that c by (simp add: same_children_def)
qed

lemma store_chunks_moves:
  assumes "stands db u d DocumentStatus.PROCESSING n"
    and "parse_text (sv_unicode sv) (job_document_id job) = Some d" and "parse_text (sv_unicode sv) (job_owner_id job) = Some u"
    and "chunks_error (db_documents db) (db_chunks db @ map (new_chunk_row (sv_uuid5 sv) d (cr_strategy_version chunking)
      (cr_tokenizer_id chunking) (db_now db)) (cr_chunks chunking)) = None"
    and "int4_fits (int (length (cr_chunks chunking)))"
  obtains db' where "store_chunks sv job chunking db = Inr (True, db')"
    "stands db' u d DocumentStatus.CHUNKED (int (length (cr_chunks chunking)))"
    "chunks_of db' d = chunks_of db d @ map (new_chunk_row (sv_uuid5 sv) d (cr_strategy_version chunking)
      (cr_tokenizer_id chunking) (db_now db)) (cr_chunks chunking)"
    "db_now db' = db_now db" "map doc_id (db_documents db') = map doc_id (db_documents db)"
proof -
  let ?n = "int (length (cr_chunks chunking))"
  let ?rows = "map (new_chunk_row (sv_uuid5 sv) d (cr_strategy_version chunking) (cr_tokenizer_id chunking) (db_now db)) (cr_chunks chunking)"
  obtain db1 where t: "documents_transition_status_for_user (sv_unicode sv) (job_document_id job) (job_owner_id job)
      DocumentStatus.PROCESSING DocumentStatus.CHUNKED None (Some ?n) db = Inr (True, db1)"
    and s: "stands db1 u d DocumentStatus.CHUNKED ?n" and c: "same_children db db1"
    by (rule moves [OF assms(1-3), of DocumentStatus.CHUNKED "Some ?n"]) (use assms(5) in simp_all)
  let ?db2 = "db1\<lparr>db_chunks := db_chunks db1 @ ?rows\<rparr>"
  have p: "chunks_add_many (sv_unicode sv) (sv_uuid5 sv) (job_document_id job) (job_owner_id job) chunking db1
      = Inr (map chunk_to_domain ?rows, ?db2)"
    using owned_document_id_eq [of db1, OF _ assms(2,3)] s same_children_errors(2) [OF c] assms(4) c
    by (simp add: chunks_add_many_def stands_def same_children_def)
  have "stands ?db2 u d DocumentStatus.CHUNKED ?n" "chunks_of ?db2 d = chunks_of db d @ ?rows"
    using chunks_add_views [OF p _ assms(2,3)] s c by (simp_all add: stands_def same_children_def chunks_of_def)
  moreover have "store_chunks sv job chunking db = Inr (True, ?db2)"
    using t p by (simp add: store_chunks_def)
  ultimately show ?thesis using that c by (simp add: same_children_def)
qed

lemma chunks_error_embedded:
  assumes "chunks_error docs rows = None" and "varchar_fits 255 model" and "int4_fits width" and "0 < width"
  shows "chunks_error docs (update_where p (set_embedded model width) rows) = None"
proof -
  have "map f (update_where p (set_embedded model width) rows) = map f rows"
    if "\<And>c. f (set_embedded model width c) = f c" for f :: "ChunkRow \<Rightarrow> 'a"
    using that by (rule map_update_where_key)
  note keys = this [of chk_id] this [of "\<lambda>c. (chk_document_id c, chk_chunk_index c)"]
  show ?thesis
    using assms keys by (auto simp: chunks_error_def list_all_iff set_update_where set_embedded_def chunk_fits_def)
qed

lemma store_ready_moves:
  assumes "stands db u d DocumentStatus.PROCESSING n"
    and "parse_text (sv_unicode sv) (job_document_id job) = Some d" and "parse_text (sv_unicode sv) (job_owner_id job) = Some u"
    and "varchar_fits 255 (sv_model_id sv)" and "int4_fits (sv_dimension sv)" and "0 < sv_dimension sv"
  obtains db' where "store_ready sv job db = Inr (True, db')" "stands db' u d DocumentStatus.READY n"
    "chunks_of db' d = map (set_embedded (sv_model_id sv) (sv_dimension sv)) (chunks_of db d)"
proof -
  obtain db1 where t: "documents_transition_status_for_user (sv_unicode sv) (job_document_id job) (job_owner_id job)
      DocumentStatus.PROCESSING DocumentStatus.READY None None db = Inr (True, db1)"
    and s: "stands db1 u d DocumentStatus.READY n" and c: "same_children db db1"
    by (rule moves [OF assms(1-3), of DocumentStatus.READY None]) simp_all
  let ?rows = "update_where (of_owned_document db1 d u) (set_embedded (sv_model_id sv) (sv_dimension sv)) (db_chunks db1)"
  have "chunks_error (db_documents db1) ?rows = None"
    by (rule chunks_error_embedded) (use s assms(4-6) in \<open>simp_all add: stands_def wf_db_def\<close>)
  then obtain m where p: "chunks_mark_embedded (sv_unicode sv) (job_document_id job) (job_owner_id job)
      (sv_model_id sv) (sv_dimension sv) db1 = Inr (m, db1\<lparr>db_chunks := ?rows\<rparr>)"
    using assms(2,3) by (simp add: chunks_mark_embedded_def scoped_eq)
  have "stands (db1\<lparr>db_chunks := ?rows\<rparr>) u d DocumentStatus.READY n"
    "chunks_of (db1\<lparr>db_chunks := ?rows\<rparr>) d = map (set_embedded (sv_model_id sv) (sv_dimension sv)) (chunks_of db d)"
    using mark_embedded_views [OF p _ assms(2,3)] s c by (simp_all add: stands_def same_children_def chunks_of_def)
  moreover have "store_ready sv job db = Inr (True, db1\<lparr>db_chunks := ?rows\<rparr>)"
    using t p by (simp add: store_ready_def)
  ultimately show ?thesis using that by blast
qed

section \<open>The three stages\<close>

text \<open>Claiming the document for a stage, and then the stage itself.\<close>

lemma run_stage_claimed:
  assumes "stands (w_db w) u d (starts_at stage) n" and "job_of d u job"
    and "\<And>db1. stands db1 u d DocumentStatus.PROCESSING n \<Longrightarrow> same_children (w_db w) db1 \<Longrightarrow>
      \<exists>w'. run (run_claimed sv job target stage final) [] (w\<lparr>w_db := db1\<rparr>) = (Inr r, [], w') \<and> P w'"
  obtains w' where "run (run_stage sv job target stage final) [] w = (Inr r, [], w')" "P w'"
proof -
  have ids: "parse_text (sv_unicode sv) (job_document_id job) = Some d" "parse_text (sv_unicode sv) (job_owner_id job) = Some u"
    using assms(2) by (simp_all add: job_of_def)
  obtain db1 where t: "documents_transition_status_for_user (sv_unicode sv) (job_document_id job) (job_owner_id job)
      (starts_at stage) DocumentStatus.PROCESSING None None (w_db w) = Inr (True, db1)"
    and s: "stands db1 u d DocumentStatus.PROCESSING n" and c: "same_children (w_db w) db1"
    by (rule moves [OF assms(1) ids, of DocumentStatus.PROCESSING None]) simp_all
  from assms(3) [OF s c] obtain w' where
    "run (run_claimed sv job target stage final) [] (w\<lparr>w_db := db1\<rparr>) = (Inr r, [], w')" "P w'" by blast
  with t that show ?thesis
    by (simp add: run_stage_def run_simps transition_def run_db_tx)
qed

text \<open>What parsing needs to succeed.\<close>

definition parses :: "('q, 'r) service \<Rightarrow> IngestionJob \<Rightarrow> IngestionTarget \<Rightarrow> objects \<Rightarrow> ExtractedText \<Rightarrow> bool" where
  "parses sv job target objs extracted \<longleftrightarrow> tgt_mime_type target = Some PDF_MIME_TYPE
     \<and> (case tgt_page_count target of None \<Rightarrow> True | Some n \<Rightarrow> n \<le> sv_max_pages sv \<and> n = et_page_count extracted)
     \<and> is_storage_key (job_storage_key job)
     \<and> (\<exists>content. objs (job_storage_key job) = Some content \<and> tgt_content_hash target = Some (sv_content_hash sv content)
         \<and> sv_extract sv content (sv_max_pages sv) = Inr extracted)
     \<and> has_text extracted"

lemma parse_stage:
  assumes "stands (w_db w) u d DocumentStatus.PENDING n" and "job_of d u job" and "parses sv job target (w_objects w) extracted"
    and "pages_error (db_documents (w_db w)) (db_pages (w_db w) @ map (new_page_row d (db_now (w_db w))) (et_pages extracted)) = None"
  obtains db' where "run (run_stage sv job target PARSE final) [] w = (Inr (finished job IngestionOutcome.PARSED), [], w\<lparr>w_db := db'\<rparr>)"
    "stands db' u d DocumentStatus.PARSED n"
    "pages_of db' d = pages_of (w_db w) d @ map (new_page_row d (db_now (w_db w))) (et_pages extracted)"
    "db_chunks db' = db_chunks (w_db w)" "db_now db' = db_now (w_db w)"
    "map doc_id (db_documents db') = map doc_id (db_documents (w_db w))"
proof -
  have ids: "parse_text (sv_unicode sv) (job_document_id job) = Some d" "parse_text (sv_unicode sv) (job_owner_id job) = Some u"
    using assms(2) by (simp_all add: job_of_def)
  let ?P = "\<lambda>w'. \<exists>db'. w' = w\<lparr>w_db := db'\<rparr> \<and> stands db' u d DocumentStatus.PARSED n
    \<and> pages_of db' d = pages_of (w_db w) d @ map (new_page_row d (db_now (w_db w))) (et_pages extracted)
    \<and> db_chunks db' = db_chunks (w_db w) \<and> db_now db' = db_now (w_db w)
    \<and> map doc_id (db_documents db') = map doc_id (db_documents (w_db w))"
  have claimed: "\<exists>w'. run (run_claimed sv job target PARSE final) [] (w\<lparr>w_db := db1\<rparr>) =
      (Inr (finished job IngestionOutcome.PARSED), [], w') \<and> ?P w'"
    if s: "stands db1 u d DocumentStatus.PROCESSING n" and c: "same_children (w_db w) db1" for db1
  proof -
    have "pages_error (db_documents db1) (db_pages db1 @ map (new_page_row d (db_now db1)) (et_pages extracted)) = None"
      using same_children_errors(1) [OF c] assms(4) c by (simp add: same_children_def)
    then obtain db' where st: "store_parsed sv job extracted db1 = Inr (True, db')" and s': "stands db' u d DocumentStatus.PARSED n"
      and k: "pages_of db' d = pages_of db1 d @ map (new_page_row d (db_now db1)) (et_pages extracted)"
        "db_chunks db' = db_chunks db1" "db_now db' = db_now db1" "map doc_id (db_documents db') = map doc_id (db_documents db1)"
      by (rule store_parsed_moves [OF s ids])
    obtain content where content: "w_objects w (job_storage_key job) = Some content"
      "tgt_content_hash target = Some (sv_content_hash sv content)" "sv_extract sv content (sv_max_pages sv) = Inr extracted"
      using assms(3) by (auto simp: parses_def)
    have "run (run_claimed sv job target PARSE final) [] (w\<lparr>w_db := db1\<rparr>)
        = (Inr (finished job IngestionOutcome.PARSED), [], w\<lparr>w_db := db'\<rparr>)"
      using assms(3) content st
      by (auto simp: parses_def run_claimed_def process_claimed_def storage_get_def in_thread_def object_get_def run_simps
          keep_parsed_def run_db_tx split: option.splits)
    with s' k c show ?thesis by (auto simp: same_children_def pages_of_def)
  qed
  show ?thesis
    by (rule run_stage_claimed [where stage = PARSE and P = ?P, OF _ assms(2) claimed]) (use assms(1) that in auto)
qed

lemma load_page_row: "wf_page p \<Longrightarrow> load_page (new_page_row d now p) = Inr p"
  using load_page_typed [of "new_page_row d now p"] by (cases p) (simp add: new_page_row_def)

lemma read_stored_pages:
  assumes "stands db u d status n" and "parse_text U ds = Some d" and "parse_text U us = Some u"
    and "pages_of db d = map (new_page_row d now) pages" and "list_all wf_page pages" and "sorted (map ep_page_number pages)"
  shows "pages_list_for_document U ds us db = Inr pages"
proof -
  have "select_where (\<lambda>g. pg_document_id g = d \<and> owned_by (db_documents db) u (pg_document_id g)) (db_pages db) = pages_of db d"
    using assms(1) by (auto simp: select_where_def pages_of_def stands_def intro: filter_cong)
  moreover have "sort_key pg_page_number (map (new_page_row d now) pages) = map (new_page_row d now) pages"
    by (rule sort_key_sorted) (use assms(6) in \<open>simp add: comp_def new_page_row_def\<close>)
  moreover have "map_result load_page (map (new_page_row d now) pages) = Inr pages"
    using assms(5) by (induction pages) (auto simp: load_page_row)
  ultimately show ?thesis using assms(2-4) by (simp add: pages_list_for_document_def scoped_eq)
qed

lemma chunk_stage:
  assumes "stands (w_db w) u d DocumentStatus.PARSED n" and "job_of d u job"
    and "pages_of (w_db w) d = map (new_page_row d now) pages" and "list_all wf_page pages" and "sorted (map ep_page_number pages)"
    and "pages \<noteq> []" and "sv_chunk sv pages = Inr chunking" and "cr_chunks chunking \<noteq> []"
    and "chunks_error (db_documents (w_db w)) (db_chunks (w_db w) @ map (new_chunk_row (sv_uuid5 sv) d (cr_strategy_version chunking)
      (cr_tokenizer_id chunking) (db_now (w_db w))) (cr_chunks chunking)) = None"
    and "int4_fits (int (length (cr_chunks chunking)))"
  obtains db' where "run (run_stage sv job target CHUNK final) [] w = (Inr (finished job IngestionOutcome.CHUNKED), [], w\<lparr>w_db := db'\<rparr>)"
    "stands db' u d DocumentStatus.CHUNKED (int (length (cr_chunks chunking)))"
    "chunks_of db' d = chunks_of (w_db w) d @ map (new_chunk_row (sv_uuid5 sv) d (cr_strategy_version chunking)
      (cr_tokenizer_id chunking) (db_now (w_db w))) (cr_chunks chunking)"
proof -
  have ids: "parse_text (sv_unicode sv) (job_document_id job) = Some d" "parse_text (sv_unicode sv) (job_owner_id job) = Some u"
    using assms(2) by (simp_all add: job_of_def)
  let ?P = "\<lambda>w'. \<exists>db'. w' = w\<lparr>w_db := db'\<rparr> \<and> stands db' u d DocumentStatus.CHUNKED (int (length (cr_chunks chunking)))
    \<and> chunks_of db' d = chunks_of (w_db w) d @ map (new_chunk_row (sv_uuid5 sv) d (cr_strategy_version chunking)
      (cr_tokenizer_id chunking) (db_now (w_db w))) (cr_chunks chunking)"
  have claimed: "\<exists>w'. run (run_claimed sv job target CHUNK final) [] (w\<lparr>w_db := db1\<rparr>) =
      (Inr (finished job IngestionOutcome.CHUNKED), [], w') \<and> ?P w'"
    if s: "stands db1 u d DocumentStatus.PROCESSING n" and c: "same_children (w_db w) db1" for db1
  proof -
    have "chunks_error (db_documents db1) (db_chunks db1 @ map (new_chunk_row (sv_uuid5 sv) d (cr_strategy_version chunking)
        (cr_tokenizer_id chunking) (db_now db1)) (cr_chunks chunking)) = None"
      using same_children_errors(2) [OF c] assms(9) c by (simp add: same_children_def)
    then obtain db' where st: "store_chunks sv job chunking db1 = Inr (True, db')"
      and k: "stands db' u d DocumentStatus.CHUNKED (int (length (cr_chunks chunking)))"
        "chunks_of db' d = chunks_of db1 d @ map (new_chunk_row (sv_uuid5 sv) d (cr_strategy_version chunking)
          (cr_tokenizer_id chunking) (db_now db1)) (cr_chunks chunking)"
      by (rule store_chunks_moves [OF s ids _ assms(10)])
    have "pages_of db1 d = map (new_page_row d now) pages" using assms(3) c by (simp add: same_children_def pages_of_def)
    then have "pages_list_for_document (sv_unicode sv) (job_document_id job) (job_owner_id job) db1 = Inr pages"
      by (rule read_stored_pages [OF s ids _ assms(4,5)])
    with assms(6-8) st have "run (run_claimed sv job target CHUNK final) [] (w\<lparr>w_db := db1\<rparr>)
        = (Inr (finished job IngestionOutcome.CHUNKED), [], w\<lparr>w_db := db'\<rparr>)"
      by (simp add: run_claimed_def chunk_claimed_def read_pages_def db_read_def in_thread_def run_simps run_db_tx)
    with k c show ?thesis by (auto simp: same_children_def chunks_of_def)
  qed
  show ?thesis
    by (rule run_stage_claimed [where stage = CHUNK and P = ?P, OF _ assms(2) claimed]) (use assms(1) that in auto)
qed

text \<open>What embedding needs to succeed.\<close>

definition embeds :: "('q, 'r) service \<Rightarrow> 'q \<Rightarrow> ustr list \<Rightarrow> bool" where
  "embeds sv store texts \<longleftrightarrow>
     (\<exists>vs. sv_embed sv texts = Inr vs \<and> length vs = length texts \<and> (\<forall>v \<in> set vs. int (length v) = sv_dimension sv))
     \<and> (\<forall>pts. q_upsert (sv_qdrant sv) pts store \<noteq> None)
     \<and> varchar_fits 255 (sv_model_id sv) \<and> int4_fits (sv_dimension sv) \<and> 0 < sv_dimension sv"

lemma embed_stage:
  assumes "stands (w_db w) u d DocumentStatus.CHUNKED n" and "job_of d u job"
    and "chunks_of (w_db w) d = rows" and "rows \<noteq> []" and "sorted (map chk_chunk_index rows)"
    and "\<forall>c \<in> set rows. (chk_strategy_version c, chk_tokenizer_id c) = sv_version sv"
    and "embeds sv (w_points w) (map chk_content rows)"
  obtains db' store where
    "run (run_stage sv job target EMBED final) [] w = (Inr (finished job IngestionOutcome.READY), [], w\<lparr>w_db := db', w_points := store\<rparr>)"
    "stands db' u d DocumentStatus.READY n" "chunks_of db' d = map (set_embedded (sv_model_id sv) (sv_dimension sv)) rows"
proof -
  have ids: "parse_text (sv_unicode sv) (job_document_id job) = Some d" "parse_text (sv_unicode sv) (job_owner_id job) = Some u"
    using assms(2) by (simp_all add: job_of_def)
  obtain vs where vs: "sv_embed sv (map chk_content rows) = Inr vs" "length vs = length rows" "\<forall>v \<in> set vs. int (length v) = sv_dimension sv"
    and up: "\<And>pts. q_upsert (sv_qdrant sv) pts (w_points w) \<noteq> None"
    and fits: "varchar_fits 255 (sv_model_id sv)" "int4_fits (sv_dimension sv)" "0 < sv_dimension sv"
    using assms(7) by (auto simp: embeds_def)
  let ?P = "\<lambda>w'. \<exists>db' store. w' = w\<lparr>w_db := db', w_points := store\<rparr> \<and> stands db' u d DocumentStatus.READY n
    \<and> chunks_of db' d = map (set_embedded (sv_model_id sv) (sv_dimension sv)) rows"
  have claimed: "\<exists>w'. run (run_claimed sv job target EMBED final) [] (w\<lparr>w_db := db1\<rparr>) =
      (Inr (finished job IngestionOutcome.READY), [], w') \<and> ?P w'"
    if s: "stands db1 u d DocumentStatus.PROCESSING n" and c: "same_children (w_db w) db1" for db1
  proof -
    have rows: "document_chunk_rows d u db1 = rows"
      using assms(3) s c by (simp add: document_chunk_rows_eq stands_def same_children_def chunks_of_def)
    have list: "chunks_list_for_document (sv_unicode sv) (job_document_id job) (job_owner_id job) db1 = map chunk_to_domain rows"
      using ids rows sort_key_sorted [OF assms(5)] by (simp add: chunks_list_for_document_def scoped_eq)
    have "(\<lambda>c. (chk_strategy_version c, chk_tokenizer_id c)) ` set rows = {sv_version sv}"
      using assms(4,6) by (cases rows) auto
    then have prov: "chunks_provenance_for_document (sv_unicode sv) (job_document_id job) (job_owner_id job) db1 = {sv_version sv}"
      using ids rows by (simp add: chunks_provenance_for_document_def scoped_eq)
    let ?records = "map (\<lambda>(c, v). record_for sv d u c v) (zip rows vs)"
    obtain store where store: "vectors_upsert (sv_qdrant sv) ?records (w_points w) = (Inr (), store)"
      using up [of "map point_struct ?records"]
      by (cases "?records = []"; cases "q_upsert (sv_qdrant sv) (map point_struct ?records) (w_points w)")
        (auto simp: vectors_upsert_def simp del: map_map)
    obtain db' where st: "store_ready sv job db1 = Inr (True, db')" and s': "stands db' u d DocumentStatus.READY n"
      and k: "chunks_of db' d = map (set_embedded (sv_model_id sv) (sv_dimension sv)) (chunks_of db1 d)"
      by (rule store_ready_moves [OF s ids fits])
    have texts: "map dc_content (map chunk_to_domain rows) = map chk_content rows" by (simp add: chunk_to_domain_def)
    have "run (embed_chunks sv job final) [] (w\<lparr>w_db := db1\<rparr>)
        = (Inr (finished job IngestionOutcome.READY), [], w\<lparr>w_db := db1, w_points := store, w_db := db'\<rparr>)"
      using assms(4) list vs texts store st vector_records [OF assms(2), of sv rows vs]
      by (simp add: embed_chunks_def keep_ready_def db_read_def in_thread_def vectors_call_def run_simps run_db_tx list_ex_iff del: map_map)
    moreover have "chunks_of db' d = map (set_embedded (sv_model_id sv) (sv_dimension sv)) rows"
      using k assms(3) c by (simp add: same_children_def chunks_of_def)
    moreover have "w\<lparr>w_db := db1, w_points := store, w_db := db'\<rparr> = w\<lparr>w_db := db', w_points := store\<rparr>" by simp
    ultimately show ?thesis
      using prov s' by (simp add: run_claimed_def embed_claimed_def db_read_def run_simps) blast
  qed
  show ?thesis
    by (rule run_stage_claimed [where stage = EMBED and P = ?P, OF _ assms(2) claimed]) (use assms(1) that in auto)
qed

section \<open>The whole delivery\<close>

text \<open>What chunking has to produce.\<close>

definition chunked_for :: "('q, 'r) service \<Rightarrow> ChunkingResult \<Rightarrow> bool" where
  "chunked_for sv chunking \<longleftrightarrow> cr_chunks chunking \<noteq> [] \<and> sorted (map c_chunk_index (cr_chunks chunking))
     \<and> (cr_strategy_version chunking, cr_tokenizer_id chunking) = sv_version sv
     \<and> int4_fits (int (length (cr_chunks chunking)))"

definition chunk_rows :: "('q, 'r) service \<Rightarrow> database \<Rightarrow> uuid \<Rightarrow> ChunkingResult \<Rightarrow> ChunkRow list" where
  "chunk_rows sv db d chunking = map (new_chunk_row (sv_uuid5 sv) d (cr_strategy_version chunking)
     (cr_tokenizer_id chunking) (db_now db)) (cr_chunks chunking)"

lemma job_of_row:
  assumes "job_from_row U (ingestion_target r) = Some job"
  shows "job_of (doc_id r) (doc_user_id r) job \<and> document_storage_key U (job_owner_id job) (job_content_hash job) = Inr (job_storage_key job)
    \<and> job_disagrees_with job (ingestion_target r) = None"
  using assms
  by (auto simp: job_from_row_def ingestion_target_def job_of_def job_disagrees_with_def split: option.splits sum.splits if_splits)

lemma delivery_stages:
  assumes "stands (w_db w) u d DocumentStatus.PENDING n" and "job_of d u job" and "parses sv job target (w_objects w) extracted"
    and "wf_extracted extracted" and "pages_of (w_db w) d = []" and "chunks_of (w_db w) d = []"
    and "pages_error (db_documents (w_db w)) (db_pages (w_db w) @ map (new_page_row d (db_now (w_db w))) (et_pages extracted)) = None"
    and "sv_chunk sv (et_pages extracted) = Inr chunking" and "chunked_for sv chunking"
    and "chunks_error (db_documents (w_db w)) (db_chunks (w_db w) @ chunk_rows sv (w_db w) d chunking) = None"
    and "embeds sv (w_points w) (map c_content (cr_chunks chunking))"
    and "tgt_status target = DocumentStatus.PENDING"
  obtains db' store where
    "run (run_from sv job target final) [] w = (Inr (finished job IngestionOutcome.READY), [], w\<lparr>w_db := db', w_points := store\<rparr>)"
    "stands db' u d DocumentStatus.READY (int (length (cr_chunks chunking)))"
    "chunks_of db' d = map (set_embedded (sv_model_id sv) (sv_dimension sv)) (chunk_rows sv (w_db w) d chunking)"
proof -
  have chunking: "cr_chunks chunking \<noteq> []" "sorted (map c_chunk_index (cr_chunks chunking))"
    "(cr_strategy_version chunking, cr_tokenizer_id chunking) = sv_version sv" "int4_fits (int (length (cr_chunks chunking)))"
    using assms(9) by (simp_all add: chunked_for_def)
  have pages: "et_pages extracted \<noteq> []" "list_all wf_page (et_pages extracted)" "sorted (map ep_page_number (et_pages extracted))"
    using assms(4) wf_extracted_pages_nonempty [OF assms(4)] by (auto simp: wf_extracted_def)
  obtain db1 where r1: "run (run_stage sv job target PARSE final) [] w = (Inr (finished job IngestionOutcome.PARSED), [], w\<lparr>w_db := db1\<rparr>)"
    and s1: "stands db1 u d DocumentStatus.PARSED n"
    and p1: "pages_of db1 d = pages_of (w_db w) d @ map (new_page_row d (db_now (w_db w))) (et_pages extracted)"
    and k1: "db_chunks db1 = db_chunks (w_db w)" "db_now db1 = db_now (w_db w)" "map doc_id (db_documents db1) = map doc_id (db_documents (w_db w))"
    by (rule parse_stage [OF assms(1-3,7)])
  have ok: "chunks_error (db_documents db1) (db_chunks db1 @ map (new_chunk_row (sv_uuid5 sv) d (cr_strategy_version chunking)
      (cr_tokenizer_id chunking) (db_now db1)) (cr_chunks chunking)) = None"
    using children_error_ids(2) [of "db_documents (w_db w)" "db_documents db1"] k1 assms(10) by (simp add: chunk_rows_def)
  have s1': "stands (w_db (w\<lparr>w_db := db1\<rparr>)) u d DocumentStatus.PARSED n" using s1 by simp
  obtain db2 where r2: "run (run_stage sv job target CHUNK final) [] (w\<lparr>w_db := db1\<rparr>) =
      (Inr (finished job IngestionOutcome.CHUNKED), [], w\<lparr>w_db := db1\<rparr>\<lparr>w_db := db2\<rparr>)"
    and s2: "stands db2 u d DocumentStatus.CHUNKED (int (length (cr_chunks chunking)))"
    and k2: "chunks_of db2 d = chunks_of (w_db (w\<lparr>w_db := db1\<rparr>)) d @ map (new_chunk_row (sv_uuid5 sv) d (cr_strategy_version chunking)
      (cr_tokenizer_id chunking) (db_now (w_db (w\<lparr>w_db := db1\<rparr>)))) (cr_chunks chunking)"
    by (rule chunk_stage [OF s1' assms(2) _ pages(2,3,1) assms(8) chunking(1) _ chunking(4), of "db_now (w_db w)"])
      (use p1 assms(5) ok in simp_all)
  have c2: "chunks_of db2 d = chunk_rows sv (w_db w) d chunking"
    using k2 k1 assms(6) by (simp add: chunks_of_def chunk_rows_def)
  have s2': "stands (w_db (w\<lparr>w_db := db2\<rparr>)) u d DocumentStatus.CHUNKED (int (length (cr_chunks chunking)))" using s2 by simp
  have rows: "chunk_rows sv (w_db w) d chunking \<noteq> []" "sorted (map chk_chunk_index (chunk_rows sv (w_db w) d chunking))"
    "\<forall>c \<in> set (chunk_rows sv (w_db w) d chunking). (chk_strategy_version c, chk_tokenizer_id c) = sv_version sv"
    "map chk_content (chunk_rows sv (w_db w) d chunking) = map c_content (cr_chunks chunking)"
    using chunking by (auto simp: chunk_rows_def new_chunk_row_def comp_def)
  obtain db3 store where r3: "run (run_stage sv job target EMBED final) [] (w\<lparr>w_db := db2\<rparr>) =
      (Inr (finished job IngestionOutcome.READY), [], w\<lparr>w_db := db2\<rparr>\<lparr>w_db := db3, w_points := store\<rparr>)"
    and s3: "stands db3 u d DocumentStatus.READY (int (length (cr_chunks chunking)))"
    and c3: "chunks_of db3 d = map (set_embedded (sv_model_id sv) (sv_dimension sv)) (chunk_rows sv (w_db w) d chunking)"
    by (rule embed_stage [OF s2' assms(2) _ rows(1-3)]) (use c2 rows(4) assms(11) in simp_all)
  have "run (run_from sv job target final) [] w = (Inr (finished job IngestionOutcome.READY), [], w\<lparr>w_db := db3, w_points := store\<rparr>)"
    using r1 r2 r3 assms(12) by (simp add: run_from_def run_from_parsed_def run_simps finished_def)
  with that s3 c3 show ?thesis by blast
qed

section \<open>A claim that nobody releases\<close>

text \<open>
  What the delivery does not survive: the read of the pages is outside every handler but the one for
  cancellation, so a database that fails there leaves the document claimed, and only the reaper, once
  the claim is stale, moves it on, to \<open>FAILED\<close>.
\<close>

lemma failed_read_keeps_the_claim:
  assumes "stands (w_db w) u d DocumentStatus.PARSED n" and "job_of d u job" and "e \<noteq> CancelledError"
  shows "\<exists>db1. run (run_stage sv job target CHUNK final) [Proceed, FailBefore e] w = (Inl e, [], w\<lparr>w_db := db1\<rparr>)
    \<and> stands db1 u d DocumentStatus.PROCESSING n"
proof -
  have ids: "parse_text (sv_unicode sv) (job_document_id job) = Some d" "parse_text (sv_unicode sv) (job_owner_id job) = Some u"
    using assms(2) by (simp_all add: job_of_def)
  obtain db1 where t: "documents_transition_status_for_user (sv_unicode sv) (job_document_id job) (job_owner_id job)
      DocumentStatus.PARSED DocumentStatus.PROCESSING None None (w_db w) = Inr (True, db1)"
    and s: "stands db1 u d DocumentStatus.PROCESSING n"
    by (rule moves [OF assms(1) ids, of DocumentStatus.PROCESSING None]) simp_all
  have "run (transition sv job DocumentStatus.PARSED DocumentStatus.PROCESSING None) [Proceed, FailBefore e] w
      = (Inr True, [FailBefore e], w\<lparr>w_db := db1\<rparr>)"
    using t by (simp add: transition_def db_tx_def run_call)
  then have "run (run_stage sv job target CHUNK final) [Proceed, FailBefore e] w = (Inl e, [], w\<lparr>w_db := db1\<rparr>)"
    using assms(3) by (simp add: run_stage_def run_simps run_claimed_def chunk_claimed_def read_pages_def db_read_def)
  with s show ?thesis by blast
qed

section \<open>Properties\<close>

text \<open>
  An undisturbed delivery ends ready, and ready is retrievable. For a live pending document and
  the job that its own row yields, if the stored bytes are those of the upload and extract to text,
  if the chunker cuts it, if the model and the vector store answer, and if the rows fit the schema,
  then one delivery, run alone, ends in \<open>READY\<close>; the document is ready in the database, its counter is
  the number of chunks, and retrieval for its owner and this model accepts every one of them.
\<close>

lemma undisturbed_delivery_ends_ready:
  assumes "wf_db (w_db w)" and "r \<in> set (db_documents (w_db w))" and "is_live r" and "doc_status r = DocumentStatus.PENDING"
    and "job_from_row (sv_unicode sv) (ingestion_target r) = Some job"
    and "parses sv job (ingestion_target r) (w_objects w) extracted" and "wf_extracted extracted"
    and "pages_of (w_db w) (doc_id r) = []" and "chunks_of (w_db w) (doc_id r) = []"
    and "pages_error (db_documents (w_db w))
      (db_pages (w_db w) @ map (new_page_row (doc_id r) (db_now (w_db w))) (et_pages extracted)) = None"
    and "sv_chunk sv (et_pages extracted) = Inr chunking" and "chunked_for sv chunking"
    and "chunks_error (db_documents (w_db w)) (db_chunks (w_db w) @ chunk_rows sv (w_db w) (doc_id r) chunking) = None"
    and "embeds sv (w_points w) (map c_content (cr_chunks chunking))"
  shows "\<exists>w'. run (ingest sv job final_attempt) [] w = (Inr (finished job IngestionOutcome.READY), [], w') \<and> wf_db (w_db w')
    \<and> (\<exists>r' \<in> set (db_documents (w_db w')). owned_live (doc_id r) (doc_user_id r) r' \<and> doc_status r' = DocumentStatus.READY
        \<and> doc_chunk_count r' = int (length (chunks_of (w_db w') (doc_id r))))
    \<and> chunks_of (w_db w') (doc_id r) \<noteq> []
    \<and> (\<forall>c \<in> set (chunks_of (w_db w') (doc_id r)). retrievable (w_db w') (doc_user_id r) (sv_model_id sv) (sv_dimension sv) c)"
proof -
  have job: "job_of (doc_id r) (doc_user_id r) job" "document_storage_key (sv_unicode sv) (job_owner_id job) (job_content_hash job) = Inr (job_storage_key job)"
    "job_disagrees_with job (ingestion_target r) = None"
    using job_of_row [OF assms(5)] by simp_all
  have stands: "stands (w_db w) (doc_user_id r) (doc_id r) DocumentStatus.PENDING (doc_chunk_count r)"
    using assms(1-4) doc_view_row [OF assms(1,2)] by (auto simp: stands_def owned_by_iff owned_live_def)
  have pending: "tgt_status (ingestion_target r) = DocumentStatus.PENDING" using assms(4) by (simp add: ingestion_target_def)
  have "select_where (owned_live (doc_id r) (doc_user_id r)) (db_documents (w_db w)) = [r]"
    unfolding select_where_def
    by (rule filter_unique_key [where key = doc_id, OF wf_db_keys(1) [OF assms(1)] assms(2)])
      (use assms(3) in \<open>simp_all add: owned_live_def\<close>)
  then have target: "run (read_target sv job) [] w = (Inr (Some (ingestion_target r)), [], w)"
    using job(1) by (simp add: read_target_def db_read_def run_query documents_get_ingestion_target_for_user_def job_of_def)
  obtain db' store where run: "run (run_from sv job (ingestion_target r) final_attempt) [] w =
      (Inr (finished job IngestionOutcome.READY), [], w\<lparr>w_db := db', w_points := store\<rparr>)"
    and s: "stands db' (doc_user_id r) (doc_id r) DocumentStatus.READY (int (length (cr_chunks chunking)))"
    and c: "chunks_of db' (doc_id r) = map (set_embedded (sv_model_id sv) (sv_dimension sv)) (chunk_rows sv (w_db w) (doc_id r) chunking)"
    by (rule delivery_stages [OF stands job(1) assms(6-14) pending])
  obtain r' where r': "r' \<in> set (db_documents db')" "owned_live (doc_id r) (doc_user_id r) r'" "doc_status r' = DocumentStatus.READY"
    "doc_chunk_count r' = int (length (cr_chunks chunking))"
    by (rule standing_row [OF s])
  have "retrievable db' (doc_user_id r) (sv_model_id sv) (sv_dimension sv) x" if "x \<in> set (chunks_of db' (doc_id r))" for x
  proof -
    have "chk_document_id x = doc_id r" using that by (auto simp: chunks_of_def)
    with that r' show ?thesis by (auto simp: retrievable_def list_ex_iff c set_embedded_def)
  qed
  moreover have "chunks_of db' (doc_id r) \<noteq> []" using assms(12) by (simp add: c chunked_for_def chunk_rows_def)
  moreover have "run (ingest sv job final_attempt) [] w = (Inr (finished job IngestionOutcome.READY), [], w\<lparr>w_db := db', w_points := store\<rparr>)"
    using job(2,3) target run by (simp add: ingest_def run_bindP)
  ultimately show ?thesis
    using s r' by (auto simp: stands_def c chunk_rows_def)
qed

end
