(* ===== verification/Tokenization.thy ===== *)
theory Tokenization
  imports TextModels
begin

text \<open>
  \<open>shared/interfaces/tokenization.py\<close> and the tokenizer of \<open>document_processing/tokenization.py\<close>. A
  token is its span in the text, a pair of offsets. The locale \<open>tokenizer\<close> is the protocol's
  contract; \<open>RegexTokenizer\<close> keeps it, and so does \<open>FastEmbedTokenizer\<close> over any encoder whose
  offsets are in order.
\<close>

type_synonym span = "nat \<times> nat"

record tokenizer_ops =
  tk_id :: ustr
  tk_tokenize :: "ustr \<Rightarrow> span list"
  tk_count :: "ustr \<Rightarrow> nat"

text \<open>\<open>text[start:end]\<close> for offsets in range.\<close>

definition slice :: "nat \<Rightarrow> nat \<Rightarrow> 'a list \<Rightarrow> 'a list" where
  "slice a b s = take (b - a) (drop a s)"

lemma length_slice [simp]: "a \<le> b \<Longrightarrow> b \<le> length s \<Longrightarrow> length (slice a b s) = b - a"
  by (simp add: slice_def)

lemma slice_verbatim: "\<exists>pre suf. s = pre @ slice a b s @ suf"
  by (metis append_take_drop_id slice_def)

lemma slice_shift: "slice (a + i) (b + i) s = slice a b (drop i s)"
  by (simp add: slice_def add.commute)

lemma slice_slice: "b \<le> d - c \<Longrightarrow> slice a b (slice c d s) = slice (a + c) (b + c) s"
  by (simp add: slice_def drop_take min_def add.commute)

lemma set_slice: "set (slice a b s) \<subseteq> set s"
  unfolding slice_def by (auto dest: in_set_takeD in_set_dropD)

section \<open>The contract\<close>

text \<open>Spans in order, not overlapping, not empty, inside the text.\<close>

definition spans_ok :: "nat \<Rightarrow> span list \<Rightarrow> bool" where
  "spans_ok n spans \<longleftrightarrow> sorted_wrt (\<lambda>x y. snd x \<le> fst y) spans
     \<and> list_all (\<lambda>x. fst x < snd x \<and> snd x \<le> n) spans"

locale tokenizer =
  fixes tk :: tokenizer_ops
  assumes spans: "spans_ok (length t) (tk_tokenize tk t)"
    and count: "tk_count tk t = length (tk_tokenize tk t)"
begin

lemma span_nth:
  assumes "i < length (tk_tokenize tk t)"
  shows "fst (tk_tokenize tk t ! i) < snd (tk_tokenize tk t ! i)" and "snd (tk_tokenize tk t ! i) \<le> length t"
  using assms spans [of t] by (auto simp: spans_ok_def list_all_length)

lemma spans_mono:
  assumes "i \<le> j" and "j < length (tk_tokenize tk t)"
  shows "fst (tk_tokenize tk t ! i) < snd (tk_tokenize tk t ! j)"
proof (cases "i = j")
  case True
  with assms span_nth show ?thesis by auto
next
  case False
  with assms have "snd (tk_tokenize tk t ! i) \<le> fst (tk_tokenize tk t ! j)"
    using spans [of t] by (simp add: spans_ok_def sorted_wrt_iff_nth_less)
  with span_nth(1) [of i t] span_nth(1) [of j t] assms show ?thesis by linarith
qed

end

section \<open>\<open>RegexTokenizer\<close>\<close>

definition TOKENIZER_ID :: ustr where
  "TOKENIZER_ID = py_str ''regex-word/v1''"

definition is_cjk :: "nat \<Rightarrow> bool" where
  "is_cjk c \<longleftrightarrow> (0x3040 \<le> c \<and> c \<le> 0x30FF) \<or> (0x3400 \<le> c \<and> c \<le> 0x4DBF) \<or> (0x4E00 \<le> c \<and> c \<le> 0x9FFF)
     \<or> (0xF900 \<le> c \<and> c \<le> 0xFAFF) \<or> (0xAC00 \<le> c \<and> c \<le> 0xD7AF)"

definition is_apostrophe :: "nat \<Rightarrow> bool" where
  "is_apostrophe c \<longleftrightarrow> c = 39 \<or> c = 0x2019"

text \<open>The length of \<open>\w+\<close>, and of the \<open>(?:['\<dots>]\w+)*\<close> that may follow it; \<open>w\<close> says whether a word character came last.\<close>

fun word_run :: "unicode \<Rightarrow> ustr \<Rightarrow> nat" where
  "word_run U [] = 0"
| "word_run U (c # s) =
     (if u_isword U c then Suc (word_run U s)
      else if is_apostrophe c \<and> (case s of [] \<Rightarrow> False | d # _ \<Rightarrow> u_isword U d) then Suc (word_run U s)
      else 0)"

text \<open>The alternatives in the pattern's order; \<open>None\<close> where no token starts.\<close>

definition token_at :: "unicode \<Rightarrow> ustr \<Rightarrow> nat option" where
  "token_at U s =
     (case s of
        [] \<Rightarrow> None
      | c # _ \<Rightarrow>
          (if is_cjk c then Some 1
           else if u_isword U c then Some (word_run U s)
           else if py_isspace c then None else Some 1))"

lemma token_at_bounds: "token_at U s = Some n \<Longrightarrow> 0 < n \<and> n \<le> length s"
proof -
  have "word_run U s \<le> length s" for s by (induction U s rule: word_run.induct) auto
  then show "token_at U s = Some n \<Longrightarrow> 0 < n \<and> n \<le> length s"
    by (auto simp: token_at_def split: list.splits if_splits)
qed

function regex_spans :: "unicode \<Rightarrow> nat \<Rightarrow> ustr \<Rightarrow> span list" where
  "regex_spans U pos s =
     (case s of
        [] \<Rightarrow> []
      | _ # s' \<Rightarrow>
          (case token_at U s of
             None \<Rightarrow> regex_spans U (pos + 1) s'
           | Some n \<Rightarrow> (pos, pos + n) # regex_spans U (pos + n) (drop n s)))"
  by pat_completeness auto
termination
  by (relation "measure (\<lambda>(U, pos, s). length s)") (auto dest: token_at_bounds)

declare regex_spans.simps [simp del]

definition regex_tokenize :: "unicode \<Rightarrow> ustr \<Rightarrow> span list" where
  "regex_tokenize U text = regex_spans U 0 text"

definition regex_count :: "unicode \<Rightarrow> ustr \<Rightarrow> nat" where
  "regex_count U text = length (regex_spans U 0 text)"

definition regex_tokenizer :: "unicode \<Rightarrow> tokenizer_ops" where
  "regex_tokenizer U = \<lparr>tk_id = TOKENIZER_ID, tk_tokenize = regex_tokenize U, tk_count = regex_count U\<rparr>"

lemma regex_spans_from:
  "x \<in> set (regex_spans U pos s) \<Longrightarrow> pos \<le> fst x \<and> fst x < snd x \<and> snd x \<le> pos + length s"
proof (induction U pos s arbitrary: x rule: regex_spans.induct)
  case (1 U pos s)
  show ?case
  proof (cases s)
    case Nil
    with 1(3) show ?thesis by (simp add: regex_spans.simps [of U pos])
  next
    case (Cons c s')
    show ?thesis
    proof (cases "token_at U s")
      case None
      with Cons 1(3) have "x \<in> set (regex_spans U (pos + 1) s')" by (subst (asm) regex_spans.simps) simp
      with 1(1) [OF Cons None] Cons show ?thesis by fastforce
    next
      case (Some n)
      note b = token_at_bounds [OF Some]
      from Some Cons 1(3) have "x = (pos, pos + n) \<or> x \<in> set (regex_spans U (pos + n) (drop n s))"
        by (subst (asm) regex_spans.simps) simp
      with 1(2) [OF Cons Some] b show ?thesis by fastforce
    qed
  qed
qed

lemma regex_spans_sorted: "sorted_wrt (\<lambda>x y. snd x \<le> fst y) (regex_spans U pos s)"
proof (induction U pos s rule: regex_spans.induct)
  case (1 U pos s)
  then show ?case
    using regex_spans_from [of _ U]
    by (subst regex_spans.simps) (fastforce split: list.split option.split)
qed

interpretation regex: tokenizer "regex_tokenizer U" for U :: unicode
proof unfold_locales
  show "spans_ok (length t) (tk_tokenize (regex_tokenizer U) t)" for t
    using regex_spans_from [of _ U 0 t] regex_spans_sorted [of U 0 t]
    by (auto simp: spans_ok_def regex_tokenizer_def regex_tokenize_def list_all_iff)
  show "tk_count (regex_tokenizer U) t = length (tk_tokenize (regex_tokenizer U) t)" for t
    by (simp add: regex_tokenizer_def regex_count_def regex_tokenize_def)
qed

text \<open>Every character that is not white space is inside a token.\<close>

lemma regex_spans_cover:
  assumes "i < length s" and "\<not> py_isspace (s ! i)"
  shows "\<exists>x \<in> set (regex_spans U pos s). fst x \<le> pos + i \<and> pos + i < snd x"
  using assms
proof (induction U pos s arbitrary: i rule: regex_spans.induct)
  case (1 U pos s)
  then obtain c s' where s: "s = c # s'" by (cases s) auto
  show ?case
  proof (cases "token_at U s")
    case None
    then have "py_isspace c" by (auto simp: token_at_def s split: if_splits)
    with 1(3,4) s obtain j where j: "i = Suc j" by (cases i) auto
    with 1(3,4) s have "\<exists>x \<in> set (regex_spans U (pos + 1) s'). fst x \<le> pos + 1 + j \<and> pos + 1 + j < snd x"
      by (intro 1(1) [OF s None]) auto
    with s None j show ?thesis by (subst regex_spans.simps) simp
  next
    case (Some n)
    note b = token_at_bounds [OF Some]
    show ?thesis
    proof (cases "i < n")
      case True
      with s Some show ?thesis by (subst regex_spans.simps) simp
    next
      case False
      with 1(3,4) have "\<exists>x \<in> set (regex_spans U (pos + n) (drop n s)). fst x \<le> pos + n + (i - n) \<and> pos + n + (i - n) < snd x"
        by (intro 1(2) [OF s Some]) auto
      with False s Some show ?thesis by (subst regex_spans.simps) auto
    qed
  qed
qed

lemma regex_count_pos:
  assumes "py_strip t \<noteq> []"
  shows "0 < tk_count (regex_tokenizer U) t"
proof -
  from assms obtain c where "c \<in> set t" "\<not> py_isspace c" by (auto simp: py_strip_Nil_iff)
  then obtain i where "i < length t" "\<not> py_isspace (t ! i)" by (auto simp: in_set_conv_nth)
  from regex_spans_cover [OF this, of U 0] show ?thesis
    by (auto simp: regex_tokenizer_def regex_count_def)
qed

text \<open>A tokenizer that leaves no visible text uncounted: what makes every chunk a valid one.\<close>

locale visible_tokenizer = tokenizer +
  assumes visible: "py_strip t \<noteq> [] \<Longrightarrow> 0 < tk_count tk t"

interpretation regex_visible: visible_tokenizer "regex_tokenizer U" for U :: unicode
  by unfold_locales (rule regex_count_pos)

section \<open>\<open>FastEmbedTokenizer\<close>\<close>

text \<open>
  The model's own tokenizer is not part of the program: \<open>encode\<close> gives the offsets and the
  special-token mask of its encoding. The adapter drops special and empty tokens.
\<close>

definition fastembed_tokenize :: "(ustr \<Rightarrow> (span \<times> bool) list) \<Rightarrow> ustr \<Rightarrow> span list" where
  "fastembed_tokenize enc text =
     map fst (filter (\<lambda>(sp, special). \<not> special \<and> fst sp < snd sp) (enc text))"

definition fastembed_count :: "(ustr \<Rightarrow> (span \<times> bool) list) \<Rightarrow> ustr \<Rightarrow> nat" where
  "fastembed_count enc text = length (fastembed_tokenize enc text)"

text \<open>\<open>model_id.rsplit("/", 1)[-1]\<close> with the suffix.\<close>

definition fastembed_tokenizer_id :: "ustr \<Rightarrow> ustr" where
  "fastembed_tokenizer_id model_id = rev (takeWhile (\<lambda>c. c \<noteq> 47) (rev model_id)) @ [47] @ py_str ''wordpiece''"

definition fastembed_tokenizer :: "(ustr \<Rightarrow> (span \<times> bool) list) \<Rightarrow> ustr \<Rightarrow> tokenizer_ops" where
  "fastembed_tokenizer enc model_id =
     \<lparr>tk_id = fastembed_tokenizer_id model_id, tk_tokenize = fastembed_tokenize enc, tk_count = fastembed_count enc\<rparr>"

text \<open>The encoder's documented behaviour: the text-bearing tokens come in order, inside the text.\<close>

definition offsets_ordered :: "(ustr \<Rightarrow> (span \<times> bool) list) \<Rightarrow> bool" where
  "offsets_ordered enc \<longleftrightarrow> (\<forall>t. spans_ok (length t) (fastembed_tokenize enc t))"

lemma fastembed_is_tokenizer: "offsets_ordered enc \<Longrightarrow> tokenizer (fastembed_tokenizer enc model_id)"
  by unfold_locales (auto simp: offsets_ordered_def fastembed_tokenizer_def fastembed_count_def)

end
