(* ===== verification/Sections.thy ===== *)
theory Sections
  imports Tokenization
begin

text \<open>
  \<open>document_processing/sections.py\<close>: where a paper's sections begin. The regular expressions are
  matchers: a matcher gives, for a text, every remainder a match may leave, so a sequence is a
  composition and an anchored match asks for an empty remainder. The product of a font size and
  \<open>HEADING_SIZE_RATIO\<close> is a float multiplication, the parameter \<open>scale\<close>.
\<close>

section \<open>Matchers\<close>

type_synonym matcher = "ustr \<Rightarrow> ustr list"

definition m_seq :: "matcher \<Rightarrow> matcher \<Rightarrow> matcher" where
  "m_seq a b s = concat (map b (a s))"

definition m_alt :: "matcher list \<Rightarrow> matcher" where
  "m_alt ms s = concat (map (\<lambda>m. m s) ms)"

definition m_opt :: "matcher \<Rightarrow> matcher" where
  "m_opt a s = a s @ [s]"

definition m_char :: "(nat \<Rightarrow> bool) \<Rightarrow> matcher" where
  "m_char p s = (case s of [] \<Rightarrow> [] | c # r \<Rightarrow> (if p c then [r] else []))"

text \<open>From \<open>lo\<close> to \<open>hi\<close> characters of a class.\<close>

definition m_run :: "(nat \<Rightarrow> bool) \<Rightarrow> nat \<Rightarrow> nat \<Rightarrow> matcher" where
  "m_run p lo hi s = map (\<lambda>k. drop k s) [lo..<Suc (min hi (length (takeWhile p s)))]"

definition m_some :: "(nat \<Rightarrow> bool) \<Rightarrow> matcher" where
  "m_some p s = m_run p 1 (length s) s"

definition m_many :: "(nat \<Rightarrow> bool) \<Rightarrow> matcher" where
  "m_many p s = m_run p 0 (length s) s"

text \<open>
  Case-insensitive letters: \<open>re.IGNORECASE\<close> equates a letter with its two cases and with the code
  points whose simple case mapping meets it: dotted and dotless I, long S, the Kelvin sign.
\<close>

definition same_letter :: "nat \<Rightarrow> nat \<Rightarrow> bool" where
  "same_letter l c \<longleftrightarrow> c = l \<or> (97 \<le> l \<and> l \<le> 122 \<and> c = l - 32)
     \<or> (l = 105 \<and> (c = 0x130 \<or> c = 0x131)) \<or> (l = 115 \<and> c = 0x17F) \<or> (l = 107 \<and> c = 0x212A)"

fun m_word :: "ustr \<Rightarrow> matcher" where
  "m_word [] s = [s]"
| "m_word (l # ls) s = (case s of [] \<Rightarrow> [] | c # r \<Rightarrow> (if same_letter l c then m_word ls r else []))"

definition is_ascii_letter_ci :: "nat \<Rightarrow> bool" where
  "is_ascii_letter_ci c \<longleftrightarrow> (65 \<le> c \<and> c \<le> 90) \<or> (97 \<le> c \<and> c \<le> 122) \<or> c \<in> {0x130, 0x131, 0x17F, 0x212A}"

definition is_roman :: "nat \<Rightarrow> bool" where
  "is_roman c \<longleftrightarrow> c \<in> {73, 86, 88, 76, 67, 68, 77}"

definition is_roman_ci :: "nat \<Rightarrow> bool" where
  "is_roman_ci c \<longleftrightarrow> list_ex (\<lambda>l. same_letter l c) (py_str ''ivxlcdm'')"

definition is_digit :: "unicode \<Rightarrow> nat \<Rightarrow> bool" where
  "is_digit U c \<longleftrightarrow> u_decimal U c \<noteq> None"

text \<open>\<open>$\<close> without \<open>re.MULTILINE\<close>.\<close>

definition at_end :: "ustr \<Rightarrow> bool" where
  "at_end s \<longleftrightarrow> s = [] \<or> s = [10]"

section \<open>The patterns\<close>

text \<open>\<open>(?:\.\d+)*\<close>, which tries at each turn to go on.\<close>

function dotted_tail :: "unicode \<Rightarrow> matcher" where
  "dotted_tail U s =
     s # concat (map (\<lambda>r. if length r < length s then dotted_tail U r else [])
       (m_seq (m_char (\<lambda>c. c = 46)) (m_some (is_digit U)) s))"
  by pat_completeness auto
termination
  by (relation "measure (\<lambda>(U, s). length s)") auto

declare dotted_tail.simps [simp del]

text \<open>\<open>\d+(?:\.\d+)*\.?\s+\<close>\<close>

definition numbered_prefix :: "unicode \<Rightarrow> matcher" where
  "numbered_prefix U = m_seq (m_some (is_digit U)) (m_seq (dotted_tail U)
     (m_seq (m_opt (m_char (\<lambda>c. c = 46))) (m_some py_isspace)))"

definition roman_prefix :: "(nat \<Rightarrow> bool) \<Rightarrow> matcher" where
  "roman_prefix letter = m_seq (m_run letter 1 7)
     (m_seq (m_opt (m_char (\<lambda>c. c = 46))) (m_some py_isspace))"

definition starts_visible :: "ustr \<Rightarrow> bool" where
  "starts_visible s \<longleftrightarrow> (case s of [] \<Rightarrow> False | c # _ \<Rightarrow> \<not> py_isspace c)"

definition matches_numbered :: "unicode \<Rightarrow> ustr \<Rightarrow> bool" where
  "matches_numbered U s \<longleftrightarrow> list_ex starts_visible (numbered_prefix U s)"

definition matches_roman :: "ustr \<Rightarrow> bool" where
  "matches_roman s \<longleftrightarrow> list_ex starts_visible (roman_prefix is_roman s)"

definition m_words :: "string \<Rightarrow> matcher" where
  "m_words w = m_word (py_str w)"

definition then_space :: "matcher \<Rightarrow> matcher \<Rightarrow> matcher" where
  "then_space a b = m_seq a (m_seq (m_some py_isspace) b)"

definition known_sections :: matcher where
  "known_sections = m_alt
     [m_words ''abstract'', m_words ''introduction'', m_words ''background'',
      then_space (m_words ''related'') (m_words ''work''),
      then_space (m_words ''prior'') (m_words ''work''),
      m_seq (m_words ''method'') (m_opt (m_alt [m_words ''s'', m_words ''ology''])),
      m_seq (m_words ''materials'') (m_opt (m_seq (m_some py_isspace)
        (then_space (m_words ''and'') (m_words ''methods'')))),
      m_words ''approach'',
      m_seq (m_words ''experiment'') (m_opt (m_words ''s'')),
      then_space (m_words ''experimental'') (m_words ''setup''),
      m_words ''evaluation'',
      m_seq (m_words ''result'') (m_opt (m_words ''s'')),
      m_words ''analysis'', m_words ''discussion'', m_words ''limitations'',
      then_space (m_words ''threats'') (then_space (m_words ''to'') (m_words ''validity'')),
      m_seq (m_seq (m_words ''conclusion'') (m_opt (m_words ''s''))) (m_opt (m_seq (m_some py_isspace)
        (then_space (m_words ''and'') (then_space (m_words ''future'') (m_words ''work''))))),
      then_space (m_words ''future'') (m_words ''work''),
      m_seq (m_words ''acknowledg'') (m_seq (m_opt (m_words ''e'')) (m_seq (m_words ''ment'') (m_opt (m_words ''s'')))),
      m_words ''references'', m_words ''bibliography'',
      then_space (m_words ''works'') (m_words ''cited''),
      then_space (m_words ''literature'') (m_words ''cited''),
      m_seq (m_words ''appendix'') (m_opt (m_seq (m_some py_isspace) (m_char is_ascii_letter_ci))),
      m_seq (m_words ''supplementary'') (m_opt (m_seq (m_some py_isspace) (m_words ''material'')))]"

definition reference_names :: matcher where
  "reference_names = m_alt
     [m_words ''references'', m_words ''bibliography'',
      then_space (m_words ''works'') (m_words ''cited''),
      then_space (m_words ''literature'') (m_words ''cited'')]"

text \<open>\<open>^(?:number|roman)?(?:name)\s*:?\s*$\<close>, ignoring case.\<close>

definition matches_named :: "unicode \<Rightarrow> matcher \<Rightarrow> ustr \<Rightarrow> bool" where
  "matches_named U names s \<longleftrightarrow> list_ex at_end
     (m_seq (m_opt (m_alt [numbered_prefix U, roman_prefix is_roman_ci]))
       (m_seq names (m_seq (m_many py_isspace) (m_seq (m_opt (m_char (\<lambda>c. c = 58))) (m_many py_isspace)))) s)"

section \<open>Sections\<close>

definition MAX_HEADING_WORDS :: nat where
  "MAX_HEADING_WORDS = 12"

record SectionBlock =
  sb_text :: ustr
  sb_page_number :: int

record Section =
  s_title :: "ustr option"
  s_blocks :: "SectionBlock list"

definition is_references :: "unicode \<Rightarrow> Section \<Rightarrow> bool" where
  "is_references U s \<longleftrightarrow>
     (case s_title s of None \<Rightarrow> False | Some t \<Rightarrow> matches_named U reference_names (py_strip t))"

text \<open>\<open>weights[size] = weights.get(size, 0) + n\<close> on an insertion-ordered dictionary.\<close>

fun add_weight :: "rat \<Rightarrow> nat \<Rightarrow> (rat \<times> nat) list \<Rightarrow> (rat \<times> nat) list" where
  "add_weight z n [] = [(z, n)]"
| "add_weight z n ((y, m) # ws) = (if y = z then (y, m + n) # ws else (y, m) # add_weight z n ws)"

text \<open>\<open>max\<close> by \<open>(weight, - size)\<close>: the first of the greatest.\<close>

definition heavier :: "rat \<times> nat \<Rightarrow> rat \<times> nat \<Rightarrow> bool" where
  "heavier a b \<longleftrightarrow> snd b < snd a \<or> snd a = snd b \<and> fst a < fst b"

fun heaviest :: "rat \<times> nat \<Rightarrow> (rat \<times> nat) list \<Rightarrow> rat \<times> nat" where
  "heaviest best [] = best"
| "heaviest best (w # ws) = heaviest (if heavier w best then w else best) ws"

definition all_blocks :: "ExtractedPage list \<Rightarrow> TextBlock list" where
  "all_blocks pages = concat (map ep_blocks pages)"

definition body_font_size :: "ExtractedPage list \<Rightarrow> rat" where
  "body_font_size pages =
     (case fold (\<lambda>b. add_weight (tb_font_size b) (length (tb_text b))) (all_blocks pages) [] of
        [] \<Rightarrow> 0
      | w # ws \<Rightarrow> fst (heaviest w ws))"

definition ends_a_sentence :: "unicode \<Rightarrow> ustr \<Rightarrow> bool" where
  "ends_a_sentence U s \<longleftrightarrow> last s \<in> {46, 0x3002, 33, 63, 0xFF01, 0xFF1F} \<and> \<not> matches_numbered U s"

definition is_heading :: "unicode \<Rightarrow> (rat \<Rightarrow> rat) \<Rightarrow> ustr \<Rightarrow> rat \<Rightarrow> rat \<Rightarrow> bool" where
  "is_heading U scale text font_size body_size \<longleftrightarrow>
     (let stripped = py_strip text in
      if stripped = [] \<or> 10 \<in> set stripped then False
      else if MAX_HEADING_WORDS < length (py_split stripped) then False
      else if matches_named U known_sections stripped then True
      else if matches_numbered U stripped \<or> matches_roman stripped then True
      else if 0 < body_size \<and> scale body_size \<le> font_size
      then length stripped \<le> 80 \<and> \<not> ends_a_sentence U stripped
      else False)"

definition normalise_heading_spacing :: "unicode \<Rightarrow> ustr \<Rightarrow> ustr" where
  "normalise_heading_spacing U text = py_join [32] (py_split (u_nfc U text))"

definition placed_blocks :: "ExtractedPage list \<Rightarrow> (TextBlock \<times> int) list" where
  "placed_blocks pages = concat (map (\<lambda>p. map (\<lambda>b. (b, ep_page_number p)) (ep_blocks p)) pages)"

definition close_section :: "ustr option \<Rightarrow> SectionBlock list \<Rightarrow> Section list \<Rightarrow> Section list" where
  "close_section title blocks sections =
     (if blocks \<noteq> [] then sections @ [\<lparr>s_title = title, s_blocks = blocks\<rparr>] else sections)"

fun detect_loop ::
  "unicode \<Rightarrow> (rat \<Rightarrow> rat) \<Rightarrow> rat \<Rightarrow> (TextBlock \<times> int) list \<Rightarrow> ustr option \<Rightarrow> SectionBlock list
   \<Rightarrow> Section list \<Rightarrow> Section list" where
  "detect_loop U scale body [] title blocks sections = close_section title blocks sections"
| "detect_loop U scale body ((b, page) # rest) title blocks sections =
     (let text = normalise_heading_spacing U (tb_text b);
          here = \<lparr>sb_text = tb_text b, sb_page_number = page\<rparr> in
      if is_heading U scale text (tb_font_size b) body
      then detect_loop U scale body rest (Some (py_strip text)) [here] (close_section title blocks sections)
      else detect_loop U scale body rest title (blocks @ [here]) sections)"

definition detect_sections :: "unicode \<Rightarrow> (rat \<Rightarrow> rat) \<Rightarrow> ExtractedPage list \<Rightarrow> Section list" where
  "detect_sections U scale pages =
     detect_loop U scale (body_font_size pages) (placed_blocks pages) None [] []"

section \<open>No text is lost\<close>

lemma close_section_blocks:
  "concat (map s_blocks (close_section title blocks sections)) = concat (map s_blocks sections) @ blocks"
  by (simp add: close_section_def)

lemma detect_loop_blocks:
  "concat (map s_blocks (detect_loop U scale body bs title blocks sections)) =
     concat (map s_blocks sections) @ blocks @ map (\<lambda>(b, p). \<lparr>sb_text = tb_text b, sb_page_number = p\<rparr>) bs"
  by (induction U scale body bs title blocks sections rule: detect_loop.induct)
    (auto simp: close_section_blocks Let_def)

lemma detect_loop_nonempty:
  "(\<And>s. s \<in> set sections \<Longrightarrow> s_blocks s \<noteq> []) \<Longrightarrow>
     s \<in> set (detect_loop U scale body bs title blocks sections) \<Longrightarrow> s_blocks s \<noteq> []"
proof (induction U scale body bs title blocks sections rule: detect_loop.induct)
  case (1 U scale body title blocks sections)
  then show ?case by (auto simp: close_section_def split: if_splits)
next
  case (2 U scale body b page rest title blocks sections)
  have "\<And>s. s \<in> set (close_section title blocks sections) \<Longrightarrow> s_blocks s \<noteq> []"
    using 2(3) by (auto simp: close_section_def split: if_splits)
  with 2 show ?case by (auto simp: Let_def split: if_splits)
qed

section \<open>The body size\<close>

definition weight_of :: "rat \<Rightarrow> TextBlock list \<Rightarrow> nat" where
  "weight_of z bs = sum_list (map (\<lambda>b. length (tb_text b)) (filter (\<lambda>b. tb_font_size b = z) bs))"

lemma map_of_add_weight:
  "map_of (add_weight z n ws) y =
     (if y = z then Some (n + (case map_of ws z of None \<Rightarrow> 0 | Some m \<Rightarrow> m)) else map_of ws y)"
  by (induction z n ws rule: add_weight.induct) auto

lemma distinct_add_weight: "distinct (map fst ws) \<Longrightarrow> distinct (map fst (add_weight z n ws))"
proof (induction z n ws rule: add_weight.induct)
  case (2 z n y m ws)
  have "fst ` set (add_weight z n ws) \<subseteq> insert z (fst ` set ws)" for ws
    by (induction z n ws rule: add_weight.induct) auto
  with 2 show ?case by auto
qed simp

lemma weights_fold:
  assumes "distinct (map fst ws)"
  shows "distinct (map fst (fold (\<lambda>b. add_weight (tb_font_size b) (length (tb_text b))) bs ws)) \<and>
    (\<forall>z. (case map_of (fold (\<lambda>b. add_weight (tb_font_size b) (length (tb_text b))) bs ws) z of None \<Rightarrow> 0 | Some m \<Rightarrow> m)
      = (case map_of ws z of None \<Rightarrow> 0 | Some m \<Rightarrow> m) + weight_of z bs) \<and>
    fst ` set (fold (\<lambda>b. add_weight (tb_font_size b) (length (tb_text b))) bs ws) = fst ` set ws \<union> tb_font_size ` set bs"
  using assms
proof (induction bs arbitrary: ws)
  case (Cons b bs)
  have "fst ` set (add_weight z n ws) = insert z (fst ` set ws)" for z n
    by (induction z n ws rule: add_weight.induct) auto
  with Cons.IH [OF distinct_add_weight [OF Cons.prems]] show ?case
    by (auto simp: map_of_add_weight weight_of_def split: option.split)
qed (simp add: weight_of_def)

lemma heavier_asym: "heavier a b \<Longrightarrow> \<not> heavier b a"
  by (auto simp: heavier_def)

lemma heavier_split: "heavier x m \<Longrightarrow> heavier x b \<or> heavier b m"
  by (auto simp: heavier_def)

lemma heaviest_max:
  "heaviest best ws \<in> set (best # ws) \<and> (\<forall>w \<in> set (best # ws). \<not> heavier w (heaviest best ws))"
proof (induction ws arbitrary: best)
  case Nil
  then show ?case by (simp add: heavier_def)
next
  case (Cons w ws)
  define b where "b = (if heavier w best then w else best)"
  define m where "m = heaviest b ws"
  have m: "m \<in> set (b # ws)" "\<forall>x \<in> set (b # ws). \<not> heavier x m"
    using Cons [of b] by (simp_all add: m_def)
  have "\<not> heavier best b" "\<not> heavier w b"
    using heavier_asym [of w best] by (auto simp: b_def heavier_def)
  with m(2) have "\<not> heavier best m" "\<not> heavier w m"
    using heavier_split [of best m b] heavier_split [of w m b] by auto
  moreover have "m \<in> set (best # w # ws)" using m(1) by (auto simp: b_def split: if_splits)
  moreover have "heaviest best (w # ws) = m" by (simp add: m_def b_def)
  ultimately show ?case using m(2) by auto
qed

end
