(* ===== verification/Chunker.thy ===== *)
theory Chunker
  imports Sections
begin

text \<open>
  \<open>document_processing/chunker.py\<close>: token windows inside one section, whole entries of a reference
  list packed up to the budget, and the chunks made of both. What the tokenizer is does not matter
  beyond its contract: the bounds are proved in the locale \<open>tokenizer\<close>.
\<close>

type_synonym trange = "nat \<times> nat \<times> nat"

definition STRATEGY_VERSION :: ustr where
  "STRATEGY_VERSION = py_str ''section-aware/v1''"

record chunker =
  ck_tokenizer :: tokenizer_ops
  ck_size :: nat
  ck_overlap :: nat

definition mk_chunker :: "tokenizer_ops \<Rightarrow> int \<Rightarrow> int \<Rightarrow> (exn, chunker) result" where
  "mk_chunker tk chunk_size chunk_overlap =
     (if chunk_size \<le> 0 then Inl ValueError
      else if chunk_overlap < 0 then Inl ValueError
      else if chunk_size \<le> chunk_overlap then Inl ValueError
      else Inr \<lparr>ck_tokenizer = tk, ck_size = nat chunk_size, ck_overlap = nat chunk_overlap\<rparr>)"

section \<open>Windows\<close>

text \<open>
  The loop of \<open>_window_ranges\<close>, stepping by \<open>Suc k\<close>: the constructor refuses an overlap that is
  not less than the size, so the step \<open>chunk_size - chunk_overlap\<close> is a successor.
\<close>

function window_loop :: "span list \<Rightarrow> nat \<Rightarrow> nat \<Rightarrow> nat \<Rightarrow> trange list" where
  "window_loop tokens chunk_size k start =
     (if length tokens \<le> start then []
      else let stop = min (start + chunk_size) (length tokens) in
        (fst (tokens ! start), snd (tokens ! (stop - 1)), stop - start) #
        (if stop = length tokens then [] else window_loop tokens chunk_size k (start + Suc k)))"
  by pat_completeness auto
termination
  by (relation "measure (\<lambda>(tokens, _, _, start). length tokens - start)") auto

declare window_loop.simps [simp del]

definition window_ranges :: "chunker \<Rightarrow> ustr \<Rightarrow> trange list" where
  "window_ranges ck text =
     (let tokens = tk_tokenize (ck_tokenizer ck) text in
      if tokens = [] then []
      else window_loop tokens (ck_size ck) (ck_size ck - ck_overlap ck - 1) 0)"

section \<open>Reference lists\<close>

definition is_blank :: "nat \<Rightarrow> bool" where
  "is_blank c \<longleftrightarrow> c = 32 \<or> c = 9"

text \<open>One to three digits and what closes them; the length of the label.\<close>

definition digits_closed :: "unicode \<Rightarrow> nat \<Rightarrow> ustr \<Rightarrow> nat option" where
  "digits_closed U closer s =
     (let n = length (takeWhile (is_digit U) s) in
      if 1 \<le> n \<and> n \<le> 3 \<and> (case drop n s of [] \<Rightarrow> False | c # _ \<Rightarrow> c = closer) then Some (n + 1) else None)"

definition entry_label :: "unicode \<Rightarrow> ustr \<Rightarrow> nat option" where
  "entry_label U s =
     (case s of
        [] \<Rightarrow> None
      | c # r \<Rightarrow>
          (if c = 91 then map_option Suc (digits_closed U 93 r)
           else if c = 40 then map_option Suc (digits_closed U 41 r)
           else digits_closed U 46 s))"

text \<open>The whole pattern at the start of a line: blanks, a label, white space, one visible character.\<close>

definition entry_match :: "unicode \<Rightarrow> ustr \<Rightarrow> nat option" where
  "entry_match U s =
     (let blanks = length (takeWhile is_blank s) in
      case entry_label U (drop blanks s) of
        None \<Rightarrow> None
      | Some n \<Rightarrow>
          (let rest = drop (blanks + n) s; spaces = length (takeWhile py_isspace rest) in
           if 1 \<le> spaces \<and> drop spaces rest \<noteq> [] then Some (blanks + n + spaces + 1) else None))"

lemma entry_match_pos: "entry_match U s = Some n \<Longrightarrow> 0 < n"
  by (auto simp: entry_match_def Let_def split: option.splits if_splits)

text \<open>\<open>finditer\<close> with \<open>re.M\<close>: \<open>bol\<close> says whether this is the beginning of a line.\<close>

function entry_starts :: "unicode \<Rightarrow> bool \<Rightarrow> nat \<Rightarrow> ustr \<Rightarrow> nat list" where
  "entry_starts U bol pos s =
     (case s of
        [] \<Rightarrow> []
      | c # s' \<Rightarrow>
          (case (if bol then entry_match U s else None) of
             Some n \<Rightarrow> pos # entry_starts U False (pos + n) (drop n s)
           | None \<Rightarrow> entry_starts U (c = 10) (pos + 1) s'))"
  by pat_completeness auto
termination
  by (relation "measure (\<lambda>(U, bol, pos, s). length s)") (auto dest: entry_match_pos split: if_splits)

declare entry_starts.simps [simp del]

definition minimum_reference_entries :: nat where
  "minimum_reference_entries = 2"

text \<open>\<open>opened\<close> is the run of entries not yet emitted: its start, its end and its tokens.\<close>

fun pack_entries :: "chunker \<Rightarrow> ustr \<Rightarrow> (nat \<times> nat) list \<Rightarrow> trange option \<Rightarrow> trange list" where
  "pack_entries ck text [] opened = (case opened of None \<Rightarrow> [] | Some r \<Rightarrow> [r])"
| "pack_entries ck text ((start, stop) # bounds) opened =
     (let entry = slice start stop text; entry_tokens = tk_count (ck_tokenizer ck) entry in
      if ck_size ck < entry_tokens
      then (case opened of None \<Rightarrow> [] | Some r \<Rightarrow> [r])
        @ map (\<lambda>(a, b, n). (a + start, b + start, n)) (window_ranges ck entry)
        @ pack_entries ck text bounds None
      else case opened of
        None \<Rightarrow> pack_entries ck text bounds (Some (start, stop, entry_tokens))
      | Some (ostart, oend, otokens) \<Rightarrow>
          (if otokens + entry_tokens \<le> ck_size ck
           then pack_entries ck text bounds (Some (ostart, stop, otokens + entry_tokens))
           else (ostart, oend, otokens) # pack_entries ck text bounds (Some (start, stop, entry_tokens))))"

definition entry_bounds :: "nat list \<Rightarrow> nat \<Rightarrow> (nat \<times> nat) list" where
  "entry_bounds starts n = zip starts (tl starts @ [n])"

definition reference_ranges :: "unicode \<Rightarrow> chunker \<Rightarrow> ustr \<Rightarrow> trange list" where
  "reference_ranges U ck text =
     (let starts = entry_starts U True 0 text in
      if length starts < minimum_reference_entries then window_ranges ck text
      else let starts' = (if 0 < hd starts then 0 # starts else starts) in
        filter (\<lambda>(a, b, _). py_strip (slice a b text) \<noteq> [])
          (pack_entries ck text (entry_bounds starts' (length text)) None))"

section \<open>Sections to text\<close>

record Placed =
  pl_start :: nat
  pl_end :: nat
  pl_page_number :: int

definition block_separator :: ustr where
  "block_separator = [10, 10]"

fun section_text_loop :: "SectionBlock list \<Rightarrow> ustr \<Rightarrow> Placed list \<Rightarrow> nat \<Rightarrow> ustr \<times> Placed list" where
  "section_text_loop [] parts placed cursor = (parts, placed)"
| "section_text_loop (b # bs) parts placed cursor =
     (let first = placed = [];
          here = (if first then cursor else cursor + length block_separator) in
      section_text_loop bs
        (if first then parts @ sb_text b else parts @ block_separator @ sb_text b)
        (placed @ [\<lparr>pl_start = here, pl_end = here + length (sb_text b), pl_page_number = sb_page_number b\<rparr>])
        (here + length (sb_text b)))"

definition section_text :: "Section \<Rightarrow> ustr \<times> Placed list" where
  "section_text s = section_text_loop (s_blocks s) [] [] 0"

definition pages_covering :: "Placed list \<Rightarrow> nat \<Rightarrow> nat \<Rightarrow> int \<times> int" where
  "pages_covering placed start stop =
     (let pages = map pl_page_number (filter (\<lambda>p. pl_start p < stop \<and> start < pl_end p) placed);
          pages' = (if pages \<noteq> [] then pages else if placed \<noteq> [] then [pl_page_number (hd placed)] else [1]) in
      (Min (set pages'), Max (set pages')))"

section \<open>Chunks\<close>

fun chunk_ranges ::
  "ustr \<Rightarrow> Placed list \<Rightarrow> ustr option \<Rightarrow> trange list \<Rightarrow> Chunk list \<Rightarrow> (exn, Chunk list) result" where
  "chunk_ranges text placed title [] chunks = Inr chunks"
| "chunk_ranges text placed title ((start, stop, tokens) # ranges) chunks =
     (let content = slice start stop text in
      if py_strip content = [] then chunk_ranges text placed title ranges chunks
      else let (p1, p2) = pages_covering placed start stop in
        bind_result (mk_chunk (int (length chunks)) content title p1 p2 (int tokens))
          (\<lambda>c. chunk_ranges text placed title ranges (chunks @ [c])))"

definition section_ranges :: "unicode \<Rightarrow> chunker \<Rightarrow> Section \<Rightarrow> ustr \<Rightarrow> trange list" where
  "section_ranges U ck s text =
     (if is_references U s then reference_ranges U ck text else window_ranges ck text)"

fun chunk_sections :: "unicode \<Rightarrow> chunker \<Rightarrow> Section list \<Rightarrow> Chunk list \<Rightarrow> (exn, Chunk list) result" where
  "chunk_sections U ck [] chunks = Inr chunks"
| "chunk_sections U ck (s # sections) chunks =
     (let (text, placed) = section_text s in
      if py_strip text = [] then chunk_sections U ck sections chunks
      else bind_result (chunk_ranges text placed (s_title s) (section_ranges U ck s text) chunks)
        (chunk_sections U ck sections))"

definition chunk ::
  "unicode \<Rightarrow> (rat \<Rightarrow> rat) \<Rightarrow> chunker \<Rightarrow> ExtractedPage list \<Rightarrow> (exn, ChunkingResult) result" where
  "chunk U scale ck pages =
     bind_result (chunk_sections U ck (detect_sections U scale pages) []) (\<lambda>chunks.
       Inr \<lparr>cr_chunks = chunks, cr_strategy_version = STRATEGY_VERSION,
            cr_tokenizer_id = tk_id (ck_tokenizer ck)\<rparr>)"

section \<open>Windows cover the tokens and never exceed the budget\<close>

definition window_at :: "span list \<Rightarrow> nat \<Rightarrow> nat \<Rightarrow> trange" where
  "window_at tokens chunk_size start =
     (let stop = min (start + chunk_size) (length tokens) in
      (fst (tokens ! start), snd (tokens ! (stop - 1)), stop - start))"

text \<open>The windows are those at the multiples of the step, up to the first that reaches the end.\<close>

lemma window_loop_eq:
  "\<exists>m. window_loop tokens n k start = map (\<lambda>i. window_at tokens n (start + i * Suc k)) [0..<m] \<and>
     (start < length tokens \<longrightarrow> 0 < m \<and> length tokens \<le> start + (m - 1) * Suc k + max n (Suc k)) \<and>
     (\<forall>i < m. start + i * Suc k < length tokens)"
proof (induction tokens n k start rule: window_loop.induct)
  case (1 tokens n k start)
  show ?case
  proof (cases "length tokens \<le> start")
    case True
    then show ?thesis by (intro exI [of _ 0]) (simp add: window_loop.simps [of tokens])
  next
    case False
    show ?thesis
    proof (cases "min (start + n) (length tokens) = length tokens")
      case True
      with False have "window_loop tokens n k start = [window_at tokens n start]"
        by (subst window_loop.simps) (simp add: window_at_def Let_def)
      with True False show ?thesis by (intro exI [of _ 1]) auto
    next
      case more: False
      with 1 False obtain m where
        m: "window_loop tokens n k (start + Suc k) = map (\<lambda>i. window_at tokens n (start + Suc k + i * Suc k)) [0..<m]"
          "start + Suc k < length tokens \<longrightarrow> 0 < m \<and> length tokens \<le> start + Suc k + (m - 1) * Suc k + max n (Suc k)"
          "\<forall>i < m. start + Suc k + i * Suc k < length tokens"
        by metis
      have "window_loop tokens n k start = window_at tokens n start # window_loop tokens n k (start + Suc k)"
        using False more by (subst window_loop.simps) (auto simp: window_at_def Let_def)
      also have "\<dots> = map (\<lambda>i. window_at tokens n (start + i * Suc k)) [0..<Suc m]"
        unfolding m(1) by (simp add: map_upt_Suc algebra_simps del: upt_Suc)
      finally have eq: "window_loop tokens n k start = map (\<lambda>i. window_at tokens n (start + i * Suc k)) [0..<Suc m]" .
      have "start + i * Suc k < length tokens" if "i < Suc m" for i
        using that False m(3) by (cases i) (auto simp: algebra_simps)
      moreover have "length tokens \<le> start + m * Suc k + max n (Suc k)"
      proof (cases "start + Suc k < length tokens")
        case True
        then have a: "0 < m" and b: "length tokens \<le> start + Suc k + (m - 1) * Suc k + max n (Suc k)"
          using m(2) by blast+
        from a obtain m' where m': "m = Suc m'" by (cases m) auto
        show ?thesis using b unfolding m' by simp
      qed auto
      ultimately show ?thesis using eq by (intro exI [of _ "Suc m"]) simp
    qed
  qed
qed

definition range_ok :: "nat \<Rightarrow> ustr \<Rightarrow> trange \<Rightarrow> bool" where
  "range_ok n t r \<longleftrightarrow> (case r of (a, b, k) \<Rightarrow> a < b \<and> b \<le> length t \<and> k \<le> n)"

context tokenizer
begin

lemma window_at_ok:
  assumes "start < length (tk_tokenize tk t)" and "0 < n"
  shows "range_ok n t (window_at (tk_tokenize tk t) n start)"
    and "0 < snd (snd (window_at (tk_tokenize tk t) n start))"
  using assms spans_mono [of start "min (start + n) (length (tk_tokenize tk t)) - 1" t]
    span_nth(2) [of "min (start + n) (length (tk_tokenize tk t)) - 1" t]
  by (auto simp: window_at_def Let_def range_ok_def)

lemma window_ranges_ok:
  assumes "ck_tokenizer ck = tk" and "0 < ck_size ck" and "r \<in> set (window_ranges ck t)"
  shows "range_ok (ck_size ck) t r \<and> 0 < snd (snd r)"
proof -
  obtain m where "window_ranges ck t = map (\<lambda>i. window_at (tk_tokenize tk t) (ck_size ck)
      (0 + i * Suc (ck_size ck - ck_overlap ck - 1))) [0..<m]"
      "\<forall>i < m. 0 + i * Suc (ck_size ck - ck_overlap ck - 1) < length (tk_tokenize tk t)"
  proof (cases "tk_tokenize tk t = []")
    case True
    with that [of 0] assms(1) show ?thesis by (simp add: window_ranges_def)
  next
    case False
    with that assms(1) window_loop_eq [of "tk_tokenize tk t" "ck_size ck" "ck_size ck - ck_overlap ck - 1" 0]
    show ?thesis by (auto simp: window_ranges_def Let_def)
  qed
  with assms window_at_ok show ?thesis by auto
qed

text \<open>Every token is inside a window.\<close>

lemma window_ranges_cover:
  assumes "ck_tokenizer ck = tk" and "ck_overlap ck < ck_size ck" and j: "j < length (tk_tokenize tk t)"
  shows "\<exists>(a, b, k) \<in> set (window_ranges ck t). a \<le> fst (tk_tokenize tk t ! j) \<and> snd (tk_tokenize tk t ! j) \<le> b"
proof -
  let ?ts = "tk_tokenize tk t" and ?n = "ck_size ck" and ?k = "ck_size ck - ck_overlap ck - 1"
  have ne: "?ts \<noteq> []" using j by auto
  obtain m where w: "window_ranges ck t = map (\<lambda>i. window_at ?ts ?n (i * Suc ?k)) [0..<m]"
    and m: "0 < m" "length ?ts \<le> (m - 1) * Suc ?k + max ?n (Suc ?k)" "\<forall>i < m. i * Suc ?k < length ?ts"
    using window_loop_eq [of ?ts ?n ?k 0] ne assms(1) by (auto simp: window_ranges_def Let_def)
  define i where "i = min (j div Suc ?k) (m - 1)"
  have i: "i < m" using m(1) by (auto simp: i_def)
  have "i * Suc ?k \<le> j div Suc ?k * Suc ?k" by (intro mult_le_mono1) (simp add: i_def)
  then have low: "i * Suc ?k \<le> j" by (rule order_trans) (rule div_times_less_eq_dividend)
  have high: "j < i * Suc ?k + ?n"
  proof (cases "j div Suc ?k \<le> m - 1")
    case True
    then have "i = j div Suc ?k" by (simp add: i_def)
    moreover have "j < j div Suc ?k * Suc ?k + Suc ?k"
      using div_mult_mod_eq [of j "Suc ?k"] mod_less_divisor [of "Suc ?k" j] by linarith
    ultimately show ?thesis using assms(2) by auto
  next
    case False
    then have "i = m - 1" by (simp add: i_def)
    then show ?thesis using m(2) j assms(2) by (simp add: max_def split: if_splits)
  qed
  let ?e = "min (i * Suc ?k + ?n) (length ?ts)"
  have s: "i * Suc ?k < length ?ts" using m(3) i by blast
  have a: "fst (?ts ! (i * Suc ?k)) \<le> fst (?ts ! j)"
  proof (cases "i * Suc ?k = j")
    case False
    with low j have "snd (?ts ! (i * Suc ?k)) \<le> fst (?ts ! j)"
      using spans [of t] by (simp add: spans_ok_def sorted_wrt_iff_nth_less)
    with span_nth(1) [OF s] show ?thesis by linarith
  qed simp
  have "j \<le> ?e - 1" "?e - 1 < length ?ts" using high j s by auto
  then have b: "snd (?ts ! j) \<le> snd (?ts ! (?e - 1))"
  proof (cases "j = ?e - 1")
    case False
    with \<open>j \<le> ?e - 1\<close> \<open>?e - 1 < length ?ts\<close> have "snd (?ts ! j) \<le> fst (?ts ! (?e - 1))"
      using spans [of t] by (simp add: spans_ok_def sorted_wrt_iff_nth_less)
    with span_nth(1) [OF \<open>?e - 1 < length ?ts\<close>] show ?thesis by linarith
  qed simp
  have "window_at ?ts ?n (i * Suc ?k) \<in> set (window_ranges ck t)" using w i by auto
  with a b show ?thesis by (auto simp: window_at_def Let_def intro!: bexI [of _ "window_at ?ts ?n (i * Suc ?k)"])
qed

end

section \<open>Entries partition the text\<close>

lemma slice_append: "a \<le> b \<Longrightarrow> b \<le> c \<Longrightarrow> slice a b s @ slice b c s = slice a c s"
proof -
  assume "a \<le> b" "b \<le> c"
  then have "take (b - a) (drop a s) @ take (c - b) (drop (b - a) (drop a s)) = take (b - a + (c - b)) (drop a s)"
    by (simp only: take_add)
  with \<open>a \<le> b\<close> \<open>b \<le> c\<close> show ?thesis by (simp add: slice_def)
qed

lemma slice_nth: "a \<le> i \<Longrightarrow> i < b \<Longrightarrow> b \<le> length s \<Longrightarrow> s ! i \<in> set (slice a b s)"
  by (auto simp: slice_def in_set_conv_nth intro!: exI [of _ "i - a"])

lemma slice_visible:
  assumes "a \<le> i" and "i < b" and "b \<le> length s" and "\<not> py_isspace (s ! i)"
  shows "py_strip (slice a b s) \<noteq> []"
  using slice_nth [OF assms(1-3)] assms(4) by (auto simp: py_strip_Nil_iff)

text \<open>Consecutive, not empty, from \<open>p\<close> to \<open>n\<close>.\<close>

fun tiles :: "nat \<Rightarrow> nat \<Rightarrow> (nat \<times> nat) list \<Rightarrow> bool" where
  "tiles p n [] \<longleftrightarrow> p = n"
| "tiles p n ((a, b) # bs) \<longleftrightarrow> a = p \<and> a < b \<and> b \<le> n \<and> tiles b n bs"

lemma tiles_zip:
  assumes "sorted_wrt (<) (p # ps)" and "list_all (\<lambda>x. x < n) (p # ps)"
  shows "tiles p n (zip (p # ps) (ps @ [n]))"
  using assms by (induction ps arbitrary: p) auto

lemma entry_starts_from: "x \<in> set (entry_starts U bol pos s) \<Longrightarrow> pos \<le> x \<and> x < pos + length s"
proof (induction U bol pos s arbitrary: x rule: entry_starts.induct)
  case (1 U bol pos s)
  show ?case
  proof (cases s)
    case Nil
    with 1(3) show ?thesis by (subst (asm) entry_starts.simps) simp
  next
    case (Cons c s')
    show ?thesis
    proof (cases "if bol then entry_match U s else None")
      case None
      with Cons 1(3) have "x \<in> set (entry_starts U (c = 10) (pos + 1) s')"
        by (subst (asm) entry_starts.simps) simp
      with 1(1) [OF Cons None] Cons show ?thesis by fastforce
    next
      case (Some n)
      then have "0 < n" by (auto dest: entry_match_pos split: if_splits)
      from Some Cons 1(3) have "x = pos \<or> x \<in> set (entry_starts U False (pos + n) (drop n s))"
        by (subst (asm) entry_starts.simps) simp
      with 1(2) [OF Cons Some] \<open>0 < n\<close> Cons show ?thesis by fastforce
    qed
  qed
qed

lemma entry_starts_sorted: "sorted_wrt (<) (entry_starts U bol pos s)"
proof (induction U bol pos s rule: entry_starts.induct)
  case (1 U bol pos s)
  show ?case
  proof (cases s)
    case (Cons c s')
    show ?thesis
    proof (cases "if bol then entry_match U s else None")
      case None
      with Cons 1(1) [OF Cons None] show ?thesis by (subst entry_starts.simps) simp
    next
      case (Some n)
      then have "0 < n" by (auto dest: entry_match_pos split: if_splits)
      with Some Cons 1(2) [OF Cons Some] entry_starts_from [of _ U False "pos + n" "drop n s"]
      show ?thesis by (subst entry_starts.simps) fastforce
    qed
  qed (subst entry_starts.simps, simp)
qed

lemma entry_bounds_tile:
  assumes "entry_starts U True 0 t = s # ss"
  shows "tiles 0 (length t) (entry_bounds (if 0 < s then 0 # s # ss else s # ss) (length t))"
proof -
  have b: "\<And>x. x \<in> set (s # ss) \<Longrightarrow> x < length t" and o: "sorted_wrt (<) (s # ss)"
    using entry_starts_from [of _ U True 0 t] entry_starts_sorted [of U True 0 t] assms by auto
  show ?thesis
  proof (cases "0 < s")
    case True
    with b o have "sorted_wrt (<) (0 # s # ss)" "list_all (\<lambda>x. x < length t) (0 # s # ss)"
      by (fastforce simp: list_all_iff)+
    from tiles_zip [OF this] True show ?thesis by (simp add: entry_bounds_def)
  next
    case False
    moreover from b have "list_all (\<lambda>x. x < length t) (s # ss)" by (simp add: list_all_iff)
    from tiles_zip [OF o this] have "tiles s (length t) (entry_bounds (s # ss) (length t))"
      by (simp add: entry_bounds_def)
    ultimately show ?thesis by simp
  qed
qed

section \<open>What a range is worth\<close>

text \<open>A range is inside the text, within the budget, and counts the visible text it has.\<close>

definition range_good :: "nat \<Rightarrow> ustr \<Rightarrow> trange \<Rightarrow> bool" where
  "range_good n t r \<longleftrightarrow> range_ok n t r \<and> (py_strip (slice (fst r) (fst (snd r)) t) \<noteq> [] \<longrightarrow> 0 < snd (snd r))"

definition covers_visible :: "ustr \<Rightarrow> nat \<Rightarrow> trange list \<Rightarrow> bool" where
  "covers_visible t p rs \<longleftrightarrow> (\<forall>i. p \<le> i \<and> i < length t \<and> \<not> py_isspace (t ! i) \<longrightarrow>
     (\<exists>r \<in> set rs. fst r \<le> i \<and> i < fst (snd r)))"

lemma covers_visible_append:
  "covers_visible t q rs \<Longrightarrow> (\<And>i. p \<le> i \<Longrightarrow> i < q \<Longrightarrow> i < length t \<Longrightarrow> \<not> py_isspace (t ! i) \<Longrightarrow>
     \<exists>r \<in> set qs. fst r \<le> i \<and> i < fst (snd r)) \<Longrightarrow> covers_visible t p (qs @ rs)"
  unfolding covers_visible_def by (metis Un_iff linorder_not_less set_append)

text \<open>No visible character is left outside the tokens.\<close>

locale covering_tokenizer = tokenizer +
  assumes covers: "i < length t \<Longrightarrow> \<not> py_isspace (t ! i) \<Longrightarrow> \<exists>x \<in> set (tk_tokenize tk t). fst x \<le> i \<and> i < snd x"

lemma covering_visible: "covering_tokenizer tk \<Longrightarrow> visible_tokenizer tk"
proof (intro visible_tokenizer.intro visible_tokenizer_axioms.intro)
  fix t assume tk: "covering_tokenizer tk" and "py_strip t \<noteq> []"
  then obtain i where "i < length t" "\<not> py_isspace (t ! i)" by (auto simp: py_strip_Nil_iff in_set_conv_nth)
  with covering_tokenizer.covers [OF tk, of i t] tokenizer.count [OF covering_tokenizer.axioms(1) [OF tk], of t]
  show "0 < tk_count tk t" by auto
qed (rule covering_tokenizer.axioms(1))

sublocale covering_tokenizer \<subseteq> visible_tokenizer
  by (rule covering_visible) unfold_locales

interpretation regex_covering: covering_tokenizer "regex_tokenizer U" for U :: unicode
proof unfold_locales
  show "i < length t \<Longrightarrow> \<not> py_isspace (t ! i) \<Longrightarrow>
      \<exists>x \<in> set (tk_tokenize (regex_tokenizer U) t). fst x \<le> i \<and> i < snd x" for i t
    using regex_spans_cover [of i t U 0] by (simp add: regex_tokenizer_def regex_tokenize_def)
qed

context visible_tokenizer
begin

lemma windows_good:
  assumes "ck_tokenizer ck = tk" and "0 < ck_size ck" and "r \<in> set (window_ranges ck t)"
  shows "range_good (ck_size ck) t r"
  using window_ranges_ok [OF assms] by (simp add: range_good_def)

lemma shifted_window_good:
  assumes ck: "ck_tokenizer ck = tk" "0 < ck_size ck"
    and w: "(a, b, n) \<in> set (window_ranges ck (slice start stop t))"
    and se: "start \<le> stop" "stop \<le> length t"
  shows "range_good (ck_size ck) t (a + start, b + start, n)"
  using window_ranges_ok [OF ck w] se by (auto simp: range_good_def range_ok_def)

lemma merged_good:
  assumes "range_good n t (a, b, k)" and "b < c" "c \<le> length t" "k + tk_count tk (slice b c t) \<le> n"
  shows "range_good n t (a, c, k + tk_count tk (slice b c t))"
proof -
  have "a \<le> b" "b \<le> c" using assms by (auto simp: range_good_def range_ok_def)
  from slice_append [OF this, of t, symmetric] have
    "py_strip (slice a c t) \<noteq> [] \<Longrightarrow> py_strip (slice a b t) \<noteq> [] \<or> py_strip (slice b c t) \<noteq> []"
    by (auto simp: py_strip_Nil_iff)
  with visible [of "slice b c t"] assms show ?thesis by (auto simp: range_good_def range_ok_def)
qed

lemma entry_good:
  assumes "a < b" "b \<le> length t" "tk_count tk (slice a b t) \<le> n"
  shows "range_good n t (a, b, tk_count tk (slice a b t))"
  using assms visible [of "slice a b t"] by (auto simp: range_good_def range_ok_def)

lemma pack_good:
  assumes ck: "ck_tokenizer ck = tk" "0 < ck_size ck"
  shows "tiles p (length t) bounds \<Longrightarrow>
    (case opened of None \<Rightarrow> True | Some r \<Rightarrow> range_good (ck_size ck) t r \<and> fst (snd r) = p) \<Longrightarrow>
    list_all (range_good (ck_size ck) t) (pack_entries ck t bounds opened)"
proof (induction bounds arbitrary: p opened)
  case Nil
  then show ?case by (auto split: option.splits)
next
  case (Cons sb bounds)
  obtain start stop where sb: "sb = (start, stop)" by (cases sb)
  with Cons.prems(1) have b: "start = p" "start < stop" "stop \<le> length t" and t: "tiles stop (length t) bounds"
    by auto
  define n where "n = tk_count tk (slice start stop t)"
  note IH = Cons.IH [OF t]
  show ?case
  proof (cases "ck_size ck < n")
    case True
    with Cons.prems(2) IH [of None] shifted_window_good [OF ck _ less_imp_le [OF b(2)] b(3)] show ?thesis
      by (auto simp: sb n_def ck(1) Let_def list_all_iff split: option.splits)
  next
    case False
    then have e: "range_good (ck_size ck) t (start, stop, n)"
      using entry_good [OF b(2,3)] by (simp add: n_def)
    show ?thesis
    proof (cases opened)
      case None
      with False e IH [of "Some (start, stop, n)"] show ?thesis by (simp add: sb n_def ck(1))
    next
      case (Some r)
      obtain os oe on where r: "r = (os, oe, on)" by (cases r)
      with Some Cons.prems(2) b(1) have o: "range_good (ck_size ck) t (os, start, on)" "oe = start" by auto
      show ?thesis
      proof (cases "on + n \<le> ck_size ck")
        case True
        then have "range_good (ck_size ck) t (os, stop, on + n)"
          using merged_good [OF o(1) b(2,3)] by (simp add: n_def)
        with IH [of "Some (os, stop, on + n)"] False True Some r show ?thesis by (simp add: sb n_def ck(1))
      next
        case split: False
        with IH [of "Some (start, stop, n)"] False e o Some r show ?thesis by (simp add: sb n_def ck(1))
      qed
    qed
  qed
qed

lemma reference_ranges_good:
  assumes ck: "ck_tokenizer ck = tk" "0 < ck_size ck"
  shows "list_all (range_good (ck_size ck) t) (reference_ranges U ck t)"
proof (cases "entry_starts U True 0 t")
  case Nil
  with windows_good [OF ck] show ?thesis
    by (auto simp: reference_ranges_def minimum_reference_entries_def list_all_iff)
next
  case (Cons s ss)
  from pack_good [OF ck entry_bounds_tile [OF Cons], of None] Cons windows_good [OF ck] show ?thesis
    by (auto simp: reference_ranges_def Let_def list_all_iff split: if_splits)
qed

lemma section_ranges_good:
  "ck_tokenizer ck = tk \<Longrightarrow> 0 < ck_size ck \<Longrightarrow> list_all (range_good (ck_size ck) t) (section_ranges U ck s t)"
  using windows_good reference_ranges_good by (auto simp: section_ranges_def list_all_iff)

end

context covering_tokenizer
begin

lemma windows_cover:
  assumes ck: "ck_tokenizer ck = tk" "ck_overlap ck < ck_size ck"
  shows "covers_visible t 0 (window_ranges ck t)"
proof -
  have "\<exists>r \<in> set (window_ranges ck t). fst r \<le> i \<and> i < fst (snd r)"
    if "i < length t" "\<not> py_isspace (t ! i)" for i
  proof -
    from covers [OF that] obtain j where "j < length (tk_tokenize tk t)"
      and "fst (tk_tokenize tk t ! j) \<le> i" "i < snd (tk_tokenize tk t ! j)"
      by (auto simp: in_set_conv_nth)
    moreover from window_ranges_cover [OF ck this(1)] obtain r where "r \<in> set (window_ranges ck t)"
      and "fst r \<le> fst (tk_tokenize tk t ! j)" "snd (tk_tokenize tk t ! j) \<le> fst (snd r)" by auto
    ultimately show ?thesis by (intro bexI [of _ r]) auto
  qed
  then show ?thesis by (simp add: covers_visible_def)
qed

lemma shifted_windows_cover:
  assumes "ck_tokenizer ck = tk" "ck_overlap ck < ck_size ck" and "stop \<le> length t"
    and i: "start \<le> i" "i < stop" "\<not> py_isspace (t ! i)"
  shows "\<exists>r \<in> set (map (\<lambda>(a, b, n). (a + start, b + start, n)) (window_ranges ck (slice start stop t))).
    fst r \<le> i \<and> i < fst (snd r)"
proof -
  have "i - start < length (slice start stop t)" "slice start stop t ! (i - start) = t ! i"
    using assms by (auto simp: slice_def)
  with windows_cover [OF assms(1,2), of "slice start stop t"] i(3) obtain a b n
    where "(a, b, n) \<in> set (window_ranges ck (slice start stop t))" "a \<le> i - start" "i - start < b"
    by (auto simp: covers_visible_def)
  with i(1) show ?thesis by (force simp: image_iff)
qed

lemma pack_covers:
  assumes ck: "ck_tokenizer ck = tk" "ck_overlap ck < ck_size ck"
  shows "tiles p (length t) bounds \<Longrightarrow>
    (case opened of None \<Rightarrow> q = p | Some r \<Rightarrow> fst r = q \<and> fst (snd r) = p \<and> q \<le> p) \<Longrightarrow>
    covers_visible t q (pack_entries ck t bounds opened)"
proof (induction bounds arbitrary: p q opened)
  case Nil
  then show ?case by (auto simp: covers_visible_def split: option.splits)
next
  case (Cons sb bounds)
  obtain start stop where sb: "sb = (start, stop)" by (cases sb)
  with Cons.prems(1) have b: "start = p" "start < stop" "stop \<le> length t" and t: "tiles stop (length t) bounds"
    by auto
  define n where "n = tk_count tk (slice start stop t)"
  note IH = Cons.IH [OF t]
  show ?case
  proof (cases "ck_size ck < n")
    case True
    let ?w = "map (\<lambda>(a, b, n). (a + start, b + start, n)) (window_ranges ck (slice start stop t))"
    have "covers_visible t start (?w @ pack_entries ck t bounds None)"
      using IH [where opened = None and q = stop] shifted_windows_cover [OF ck b(3)]
      by (intro covers_visible_append) auto
    then have "covers_visible t q ((case opened of None \<Rightarrow> [] | Some r \<Rightarrow> [r]) @ ?w @ pack_entries ck t bounds None)"
      by (rule covers_visible_append) (use Cons.prems(2) b(1) in \<open>auto split: option.splits\<close>)
    with True show ?thesis by (simp add: sb n_def ck(1))
  next
    case False
    show ?thesis
    proof (cases opened)
      case None
      with False Cons.prems(2) b IH [where opened = "Some (start, stop, n)" and q = start] show ?thesis by (simp add: sb n_def ck(1))
    next
      case (Some r)
      obtain os oe on where r: "r = (os, oe, on)" by (cases r)
      with Some Cons.prems(2) b(1) have o: "os = q" "oe = start" "q \<le> start" by auto
      show ?thesis
      proof (cases "on + n \<le> ck_size ck")
        case True
        with IH [where opened = "Some (os, stop, on + n)" and q = q] False o Some r b(2) show ?thesis by (simp add: sb n_def ck(1))
      next
        case split: False
        have "covers_visible t q ([(os, oe, on)] @ pack_entries ck t bounds (Some (start, stop, n)))"
          using o b IH [where opened = "Some (start, stop, n)" and q = start] by (intro covers_visible_append) auto
        with split False Some r show ?thesis by (simp add: sb n_def ck(1))
      qed
    qed
  qed
qed

lemma section_ranges_cover:
  assumes ck: "ck_tokenizer ck = tk" "ck_overlap ck < ck_size ck"
  shows "covers_visible t 0 (section_ranges U ck s t)"
proof (cases "is_references U s \<and> minimum_reference_entries \<le> length (entry_starts U True 0 t)")
  case False
  with windows_cover [OF ck] show ?thesis by (auto simp: section_ranges_def reference_ranges_def)
next
  case True
  then obtain x xs where e: "entry_starts U True 0 t = x # xs"
    by (cases "entry_starts U True 0 t") (auto simp: minimum_reference_entries_def)
  define rs where
    "rs = pack_entries ck t (entry_bounds (if 0 < x then 0 # x # xs else x # xs) (length t)) None"
  have size: "0 < ck_size ck" using ck(2) by simp
  have c: "covers_visible t 0 rs" and g: "list_all (range_good (ck_size ck) t) rs"
    unfolding rs_def using pack_covers [OF ck entry_bounds_tile [OF e], where opened = None and q = 0]
      pack_good [OF ck(1) size entry_bounds_tile [OF e], where opened = None] by simp_all
  have "\<exists>r \<in> set rs. (fst r \<le> i \<and> i < fst (snd r)) \<and> py_strip (slice (fst r) (fst (snd r)) t) \<noteq> []"
    if "i < length t" "\<not> py_isspace (t ! i)" for i
    using that c g slice_visible [of _ i _ t]
    by (fastforce simp: covers_visible_def list_all_iff range_good_def range_ok_def)
  moreover have "section_ranges U ck s t = filter (\<lambda>(a, b, _). py_strip (slice a b t) \<noteq> []) rs"
    using True e by (simp add: section_ranges_def reference_ranges_def rs_def Let_def cong: if_cong)
  ultimately show ?thesis by (fastforce simp: covers_visible_def)
qed

end

section \<open>Every part of a section's text keeps its page\<close>

definition placed_at :: "ustr \<Rightarrow> SectionBlock \<Rightarrow> Placed \<Rightarrow> bool" where
  "placed_at text b p \<longleftrightarrow> pl_page_number p = sb_page_number b \<and> pl_end p \<le> length text
     \<and> pl_start p \<le> pl_end p \<and> slice (pl_start p) (pl_end p) text = sb_text b"

lemma placed_at_append: "placed_at text b p \<Longrightarrow> placed_at (text @ suf) b p"
  by (auto simp: placed_at_def slice_def)

lemma section_text_loop_placed:
  "cursor = length parts \<Longrightarrow> list_all2 (placed_at parts) done placed \<Longrightarrow>
     section_text_loop bs parts placed cursor = (text, result) \<Longrightarrow>
     list_all2 (placed_at text) (done @ bs) result"
proof (induction bs parts placed cursor arbitrary: "done" rule: section_text_loop.induct)
  case (2 b bs parts placed cursor)
  define here where "here = (if placed = [] then cursor else cursor + length block_separator)"
  define parts' where "parts' = (if placed = [] then parts @ sb_text b else parts @ block_separator @ sb_text b)"
  define p where "p = \<lparr>pl_start = here, pl_end = here + length (sb_text b), pl_page_number = sb_page_number b\<rparr>"
  obtain mid where mid: "parts' = parts @ mid" by (cases "placed = []") (simp_all add: parts'_def)
  have len: "length parts' = here + length (sb_text b)" and "slice here (here + length (sb_text b)) parts' = sb_text b"
    using 2(2) by (auto simp: parts'_def here_def slice_def)
  then have "placed_at parts' b p" by (simp add: placed_at_def p_def)
  moreover from 2(3) have "list_all2 (placed_at parts') done placed"
    unfolding mid by (rule list_all2_mono) (rule placed_at_append)
  ultimately have "list_all2 (placed_at parts') (done @ [b]) (placed @ [p])"
    by (simp add: list_all2_appendI)
  moreover from 2(4) have "section_text_loop bs parts' (placed @ [p]) (here + length (sb_text b)) = (text, result)"
    by (simp add: Let_def parts'_def p_def here_def split: if_splits)
  ultimately have "list_all2 (placed_at text) ((done @ [b]) @ bs) result"
    using 2(1) [of "placed = []" here "done @ [b]"] len
    by (simp add: parts'_def p_def here_def cong: if_cong)
  then show ?case by simp
qed simp

lemma section_text_placed:
  "section_text s = (text, placed) \<Longrightarrow> list_all2 (placed_at text) (s_blocks s) placed"
  using section_text_loop_placed [of 0 "[]" "[]" "[]" "s_blocks s"] by (simp add: section_text_def)

lemma pages_covering_spans:
  assumes "pages_covering placed a b = (p1, p2)"
  shows "p1 \<le> p2"
    and "p \<in> set placed \<Longrightarrow> pl_start p < b \<Longrightarrow> a < pl_end p \<Longrightarrow> p1 \<le> pl_page_number p \<and> pl_page_number p \<le> p2"
    and "(\<And>p. p \<in> set placed \<Longrightarrow> 1 \<le> pl_page_number p) \<Longrightarrow> 1 \<le> p1"
proof -
  define pages where "pages = map pl_page_number (filter (\<lambda>p. pl_start p < b \<and> a < pl_end p) placed)"
  define pages' where
    "pages' = (if pages \<noteq> [] then pages else if placed \<noteq> [] then [pl_page_number (hd placed)] else [1])"
  have ne: "set pages' \<noteq> {}" by (simp add: pages'_def)
  have "(p1, p2) = (Min (set pages'), Max (set pages'))"
    using assms unfolding pages_covering_def Let_def pages'_def pages_def by (rule sym)
  then have eq: "p1 = Min (set pages')" "p2 = Max (set pages')" by simp_all
  show "p1 \<le> p2" unfolding eq using Min_le [OF _ Max_in [OF _ ne]] by simp
  show "p \<in> set placed \<Longrightarrow> pl_start p < b \<Longrightarrow> a < pl_end p \<Longrightarrow> p1 \<le> pl_page_number p \<and> pl_page_number p \<le> p2"
  proof -
    assume "p \<in> set placed" "pl_start p < b" "a < pl_end p"
    then have "pl_page_number p \<in> set pages" by (auto simp: pages_def)
    then have "pl_page_number p \<in> set pages'" by (auto simp: pages'_def)
    then show ?thesis by (simp add: eq)
  qed
  show "1 \<le> p1" if "\<And>p. p \<in> set placed \<Longrightarrow> 1 \<le> pl_page_number p"
  proof -
    have "\<forall>n \<in> set pages'. 1 \<le> n" using that by (auto simp: pages'_def pages_def)
    with Min_in [OF _ ne] show ?thesis by (simp add: eq)
  qed
qed

section \<open>The chunks\<close>

text \<open>What the chunk \<open>c\<close> cut from the section \<open>s\<close> at \<open>[a, b)\<close> says of it.\<close>

definition cut_from :: "nat \<Rightarrow> Section \<Rightarrow> nat \<Rightarrow> nat \<Rightarrow> Chunk \<Rightarrow> bool" where
  "cut_from n s a b c \<longleftrightarrow> c_content c = slice a b (fst (section_text s)) \<and> a < b
     \<and> b \<le> length (fst (section_text s)) \<and> c_section c = s_title s \<and> wf_chunk c \<and> c_token_count c \<le> int n
     \<and> (c_page_start c, c_page_end c) = pages_covering (snd (section_text s)) a b"

definition sections_numbered :: "Section list \<Rightarrow> bool" where
  "sections_numbered sections \<longleftrightarrow> list_all (\<lambda>s. list_all (\<lambda>b. 1 \<le> sb_page_number b) (s_blocks s)) sections"

lemma chunk_ranges_result:
  assumes s: "section_text s = (text, placed)" and pages: "list_all (\<lambda>b. 1 \<le> sb_page_number b) (s_blocks s)"
  shows "list_all (range_good n text) ranges \<Longrightarrow> \<exists>cs.
    chunk_ranges text placed (s_title s) ranges chunks = Inr (chunks @ cs)
    \<and> map c_chunk_index cs = map int [length chunks..<length chunks + length cs]
    \<and> (\<forall>c \<in> set cs. \<exists>a b. cut_from n s a b c)
    \<and> (\<forall>(a, b, k) \<in> set ranges. py_strip (slice a b text) \<noteq> [] \<longrightarrow> (\<exists>c \<in> set cs. cut_from n s a b c))"
proof (induction ranges arbitrary: chunks)
  case (Cons r ranges)
  obtain a b k where r: "r = (a, b, k)" by (cases r)
  show ?case
  proof (cases "py_strip (slice a b text) = []")
    case True
    with Cons r show ?thesis by auto
  next
    case False
    obtain p1 p2 where pc: "pages_covering placed a b = (p1, p2)" by (cases "pages_covering placed a b")
    have good: "a < b" "b \<le> length text" "k \<le> n" "0 < k"
      using Cons.prems False by (auto simp: r range_good_def range_ok_def)
    have "1 \<le> pl_page_number p" if "p \<in> set placed" for p
      using section_text_placed [OF s] that pages
      by (auto simp: list_all2_conv_all_nth list_all_length in_set_conv_nth placed_at_def)
    note p = pages_covering_spans(1) [OF pc] pages_covering_spans(3) [OF pc this]
    define c where "c = \<lparr>c_chunk_index = int (length chunks), c_content = slice a b text, c_section = s_title s,
      c_page_start = p1, c_page_end = p2, c_token_count = int k\<rparr>"
    have mk: "mk_chunk (int (length chunks)) (slice a b text) (s_title s) p1 p2 (int k) = Inr c"
      using False good p by (simp add: mk_chunk_def c_def)
    have cut: "cut_from n s a b c"
      using mk_chunk_wf [OF mk] good pc by (simp add: cut_from_def s c_def)
    from Cons.prems have "list_all (range_good n text) ranges" by simp
    from Cons.IH [OF this, of "chunks @ [c]"] obtain cs where
      "chunk_ranges text placed (s_title s) ranges (chunks @ [c]) = Inr (chunks @ c # cs)"
      "map c_chunk_index cs = map int [Suc (length chunks)..<Suc (length chunks) + length cs]"
      "\<forall>c \<in> set cs. \<exists>a b. cut_from n s a b c"
      "\<forall>(a, b, k) \<in> set ranges. py_strip (slice a b text) \<noteq> [] \<longrightarrow> (\<exists>c \<in> set cs. cut_from n s a b c)"
      by auto
    with False mk cut pc show ?thesis
      by (intro exI [of _ "c # cs"]) (auto simp: r c_def upt_conv_Cons simp del: upt_Suc)
  qed
qed auto

lemma chunk_sections_result:
  assumes good: "\<And>s t. list_all (range_good n t) (section_ranges U ck s t)"
  shows "sections_numbered sections \<Longrightarrow> \<exists>cs.
    chunk_sections U ck sections chunks = Inr (chunks @ cs)
    \<and> map c_chunk_index cs = map int [length chunks..<length chunks + length cs]
    \<and> (\<forall>c \<in> set cs. \<exists>s \<in> set sections. \<exists>a b. cut_from n s a b c)
    \<and> (\<forall>s \<in> set sections. \<forall>(a, b, k) \<in> set (section_ranges U ck s (fst (section_text s))).
        py_strip (slice a b (fst (section_text s))) \<noteq> [] \<longrightarrow> (\<exists>c \<in> set cs. cut_from n s a b c))"
proof (induction sections arbitrary: chunks)
  case (Cons s sections)
  obtain t placed where s: "section_text s = (t, placed)" by (cases "section_text s")
  from Cons.prems have num: "sections_numbered sections" "list_all (\<lambda>b. 1 \<le> sb_page_number b) (s_blocks s)"
    by (simp_all add: sections_numbered_def)
  show ?case
  proof (cases "py_strip t = []")
    case True
    then have "py_strip (slice a b t) = []" for a b
      using set_slice [of a b t] by (auto simp: py_strip_Nil_iff)
    with True Cons.IH [OF num(1), of chunks] show ?thesis by (fastforce simp: s)
  next
    case False
    from chunk_ranges_result [OF s num(2) good [where s = s], of chunks] obtain cs where
      cs: "chunk_ranges t placed (s_title s) (section_ranges U ck s t) chunks = Inr (chunks @ cs)"
      "map c_chunk_index cs = map int [length chunks..<length chunks + length cs]"
      "\<forall>c \<in> set cs. \<exists>a b. cut_from n s a b c"
      "\<forall>(a, b, k) \<in> set (section_ranges U ck s t). py_strip (slice a b t) \<noteq> [] \<longrightarrow>
         (\<exists>c \<in> set cs. cut_from n s a b c)"
      by blast
    from Cons.IH [OF num(1), of "chunks @ cs"] obtain ds where
      ds: "chunk_sections U ck sections (chunks @ cs) = Inr (chunks @ cs @ ds)"
      "map c_chunk_index ds = map int [length chunks + length cs..<length chunks + length cs + length ds]"
      "\<forall>c \<in> set ds. \<exists>s \<in> set sections. \<exists>a b. cut_from n s a b c"
      "\<forall>s \<in> set sections. \<forall>(a, b, k) \<in> set (section_ranges U ck s (fst (section_text s))).
        py_strip (slice a b (fst (section_text s))) \<noteq> [] \<longrightarrow> (\<exists>c \<in> set ds. cut_from n s a b c)"
      by auto
    have "chunk_sections U ck (s # sections) chunks = Inr (chunks @ cs @ ds)"
      using False cs(1) ds(1) by (simp add: s)
    moreover have "map c_chunk_index (cs @ ds) = map int [length chunks..<length chunks + length (cs @ ds)]"
      using cs(2) ds(2) upt_add_eq_append [of "length chunks" "length chunks + length cs" "length ds"]
      by (simp add: add.assoc)
    moreover have "\<forall>c \<in> set (cs @ ds). \<exists>s \<in> set (s # sections). \<exists>a b. cut_from n s a b c"
      using cs(3) ds(3) by auto
    moreover have "\<forall>s \<in> set (s # sections). \<forall>(a, b, k) \<in> set (section_ranges U ck s (fst (section_text s))).
        py_strip (slice a b (fst (section_text s))) \<noteq> [] \<longrightarrow> (\<exists>c \<in> set (cs @ ds). cut_from n s a b c)"
      using cs(4) ds(4) s by fastforce
    ultimately show ?thesis by blast
  qed
qed simp

text \<open>Sections found in well-formed pages.\<close>

lemma detect_sections_numbered:
  assumes "list_all wf_page pages"
  shows "sections_numbered (detect_sections U scale pages)"
proof -
  have "1 \<le> sb_page_number b" if "s \<in> set (detect_sections U scale pages)" "b \<in> set (s_blocks s)" for s b
  proof -
    have "b \<in> set (concat (map s_blocks (detect_sections U scale pages)))" using that by auto
    then show ?thesis
      using assms unfolding detect_sections_def detect_loop_blocks
      by (auto simp: placed_blocks_def list_all_iff wf_page_def)
  qed
  then show ?thesis by (auto simp: sections_numbered_def list_all_iff)
qed

context visible_tokenizer
begin

lemma chunk_result:
  assumes ck: "ck_tokenizer ck = tk" "0 < ck_size ck" and pages: "list_all wf_page pages"
  obtains r where "chunk U scale ck pages = Inr r"
    and "map c_chunk_index (cr_chunks r) = map int [0..<length (cr_chunks r)]"
    and "\<And>c. c \<in> set (cr_chunks r) \<Longrightarrow> \<exists>s \<in> set (detect_sections U scale pages). \<exists>a b. cut_from (ck_size ck) s a b c"
    and "\<And>s a b k. s \<in> set (detect_sections U scale pages) \<Longrightarrow>
      (a, b, k) \<in> set (section_ranges U ck s (fst (section_text s))) \<Longrightarrow>
      py_strip (slice a b (fst (section_text s))) \<noteq> [] \<Longrightarrow>
      \<exists>c \<in> set (cr_chunks r). cut_from (ck_size ck) s a b c"
proof -
  from chunk_sections_result [OF section_ranges_good [OF ck] detect_sections_numbered [OF pages, of U scale],
    where chunks = "[]" and U = U] obtain cs where
    cs: "chunk_sections U ck (detect_sections U scale pages) [] = Inr cs"
    "map c_chunk_index cs = map int [0..<length cs]"
    "\<forall>c \<in> set cs. \<exists>s \<in> set (detect_sections U scale pages). \<exists>a b. cut_from (ck_size ck) s a b c"
    "\<forall>s \<in> set (detect_sections U scale pages). \<forall>(a, b, k) \<in> set (section_ranges U ck s (fst (section_text s))).
      py_strip (slice a b (fst (section_text s))) \<noteq> [] \<longrightarrow> (\<exists>c \<in> set cs. cut_from (ck_size ck) s a b c)"
    by auto
  show ?thesis
    by (rule that [of "\<lparr>cr_chunks = cs, cr_strategy_version = STRATEGY_VERSION,
      cr_tokenizer_id = tk_id (ck_tokenizer ck)\<rparr>"]) (use cs in \<open>auto simp: chunk_def\<close>)
qed

end

section \<open>Properties\<close>

lemma mk_chunker_cases:
  assumes "mk_chunker tk n m = Inr ck"
  shows "ck_tokenizer ck = tk" and "0 < ck_size ck" and "ck_overlap ck < ck_size ck" and "n = int (ck_size ck)"
  using assms by (auto simp: mk_chunker_def split: if_splits)

text \<open>
  C4. A chunker that could be built never fails on a well-formed document, whatever its tokenizer as
  long as that keeps its contract: the chunks are numbered from zero without a gap, every one
  passes the model's validators, none exceeds the budget of tokens, and each is a verbatim slice of
  the text of one section, whose title it carries.
\<close>

theorem chunks_verbatim_within_budget:
  assumes "visible_tokenizer tk" and "mk_chunker tk chunk_size chunk_overlap = Inr ck" and "list_all wf_page pages"
  shows "\<exists>r. chunk U scale ck pages = Inr r
    \<and> map c_chunk_index (cr_chunks r) = map int [0..<length (cr_chunks r)]
    \<and> (\<forall>c \<in> set (cr_chunks r). wf_chunk c \<and> c_token_count c \<le> chunk_size
        \<and> (\<exists>s \<in> set (detect_sections U scale pages). c_section c = s_title s
            \<and> (\<exists>a b. a < b \<and> b \<le> length (fst (section_text s)) \<and> c_content c = slice a b (fst (section_text s)))))"
proof -
  note ck = mk_chunker_cases [OF assms(2)]
  obtain r where r: "chunk U scale ck pages = Inr r"
    "map c_chunk_index (cr_chunks r) = map int [0..<length (cr_chunks r)]"
    and c: "\<And>c. c \<in> set (cr_chunks r) \<Longrightarrow> \<exists>s \<in> set (detect_sections U scale pages). \<exists>a b. cut_from (ck_size ck) s a b c"
    by (rule visible_tokenizer.chunk_result [OF assms(1) ck(1,2) assms(3), of U scale]) (rule that)
  show ?thesis
  proof (rule exI [of _ r], intro conjI ballI)
    fix c assume "c \<in> set (cr_chunks r)"
    from c [OF this] obtain s a b where s: "s \<in> set (detect_sections U scale pages)" and "cut_from (ck_size ck) s a b c"
      by blast
    then have cut: "c_content c = slice a b (fst (section_text s))" "a < b" "b \<le> length (fst (section_text s))"
      "c_section c = s_title s" "wf_chunk c" "c_token_count c \<le> int (ck_size ck)"
      by (simp_all add: cut_from_def)
    from cut ck(4) show "wf_chunk c" "c_token_count c \<le> chunk_size" by simp_all
    from s cut show "\<exists>s \<in> set (detect_sections U scale pages). c_section c = s_title s
      \<and> (\<exists>a b. a < b \<and> b \<le> length (fst (section_text s)) \<and> c_content c = slice a b (fst (section_text s)))"
      by blast
  qed (use r in simp_all)
qed

text \<open>One page, its heading and a paragraph, in windows of three tokens that share one.\<close>

definition example_pages :: "ExtractedPage list" where
  "example_pages = [\<lparr>ep_page_number = 1, ep_blocks =
     [\<lparr>tb_text = py_str ''Abstract'', tb_font_size = 14\<rparr>,
      \<lparr>tb_text = py_str ''one two three four'', tb_font_size = 10\<rparr>]\<rparr>]"

lemma example_pages_wf: "list_all wf_page example_pages"
  by (simp add: example_pages_def wf_page_def wf_text_block_def py_strip_Nil_iff py_str_def py_isspace_def)

theorem chunks_verbatim_within_budget_witness:
  "\<exists>ck r. mk_chunker (regex_tokenizer ascii_unicode) 3 1 = Inr ck \<and> chunk ascii_unicode (\<lambda>z. z) ck example_pages = Inr r
    \<and> (\<forall>c \<in> set (cr_chunks r). c_token_count c \<le> 3)"
proof -
  obtain ck where ck: "mk_chunker (regex_tokenizer ascii_unicode) 3 1 = Inr ck" by (simp add: mk_chunker_def)
  from chunks_verbatim_within_budget [OF regex_visible.visible_tokenizer_axioms ck example_pages_wf, of ascii_unicode "\<lambda>z. z"]
  show ?thesis using ck by blast
qed

text \<open>
  C5. Chunking loses no text and cites the right page: when the tokenizer leaves no visible
  character outside its tokens, every visible character of every block of every section, windows
  and reference lists alike, is inside a chunk, at its own position, and the page of that block is
  between the first and last page the chunk cites.
\<close>

theorem chunking_loses_no_text:
  assumes "covering_tokenizer tk" and "mk_chunker tk chunk_size chunk_overlap = Inr ck" and "list_all wf_page pages"
    and "s \<in> set (detect_sections U scale pages)"
    and "k < length (s_blocks s)" and "i < length (sb_text (s_blocks s ! k))" and "\<not> py_isspace (sb_text (s_blocks s ! k) ! i)"
  shows "\<exists>r a b. \<exists>c \<in> set (cr_chunks r). chunk U scale ck pages = Inr r
    \<and> c_content c = slice a b (fst (section_text s))
    \<and> a \<le> pl_start (snd (section_text s) ! k) + i \<and> pl_start (snd (section_text s) ! k) + i < b
    \<and> c_content c ! (pl_start (snd (section_text s) ! k) + i - a) = sb_text (s_blocks s ! k) ! i
    \<and> c_page_start c \<le> sb_page_number (s_blocks s ! k) \<and> sb_page_number (s_blocks s ! k) \<le> c_page_end c"
proof -
  note ck = mk_chunker_cases [OF assms(2)]
  define t where "t = fst (section_text s)"
  define p where "p = snd (section_text s) ! k"
  define j where "j = pl_start p + i"
  have vis: "visible_tokenizer tk"
    by (rule covering_visible [OF assms(1)])
  have p: "placed_at t (s_blocks s ! k) p" "p \<in> set (snd (section_text s))"
    using section_text_placed [of s t "snd (section_text s)"] assms(5)
    by (auto simp: t_def p_def list_all2_conv_all_nth)
  have j: "j < length t" "t ! j = sb_text (s_blocks s ! k) ! i" "pl_start p \<le> j" "j < pl_end p"
  proof -
    have b: "sb_text (s_blocks s ! k) = slice (pl_start p) (pl_end p) t" "pl_start p \<le> pl_end p" "pl_end p \<le> length t"
      using p(1) by (simp_all add: placed_at_def)
    have "i < pl_end p - pl_start p" using assms(6) b(2,3) unfolding b(1) by simp
    with b show "j < length t" "t ! j = sb_text (s_blocks s ! k) ! i" "pl_start p \<le> j" "j < pl_end p"
      by (simp_all add: slice_def j_def)
  qed
  obtain a b n where abn: "(a, b, n) \<in> set (section_ranges U ck s t)" and ab: "a \<le> j" "j < b"
    using covering_tokenizer.section_ranges_cover [OF assms(1) ck(1,3), of t U s] j(1,2) assms(7)
    by (auto simp: covers_visible_def)
  have "b \<le> length t"
    using visible_tokenizer.section_ranges_good [OF vis ck(1,2), of t U s] abn
    by (auto simp: list_all_iff range_good_def range_ok_def)
  then have "py_strip (slice a b t) \<noteq> []" using slice_visible [OF ab] j(2) assms(7) by simp
  obtain r where r: "chunk U scale ck pages = Inr r" and "\<exists>c \<in> set (cr_chunks r). cut_from (ck_size ck) s a b c"
    by (rule visible_tokenizer.chunk_result [OF vis ck(1,2) assms(3), of U scale])
      (rule that, assumption, use assms(4) abn \<open>py_strip (slice a b t) \<noteq> []\<close> in \<open>unfold t_def, blast\<close>)
  then obtain c where c: "c \<in> set (cr_chunks r)" "cut_from (ck_size ck) s a b c" by blast
  then have pc: "pages_covering (snd (section_text s)) a b = (c_page_start c, c_page_end c)"
    and content: "c_content c = slice a b t" by (simp_all add: cut_from_def t_def)
  have "c_page_start c \<le> sb_page_number (s_blocks s ! k) \<and> sb_page_number (s_blocks s ! k) \<le> c_page_end c"
    using pages_covering_spans(2) [OF pc p(2)] p(1) ab j(3,4) by (simp add: placed_at_def)
  moreover have "slice a b t ! (j - a) = sb_text (s_blocks s ! k) ! i"
    using ab j(1,2) by (simp add: slice_def)
  ultimately show ?thesis using r content ab
    by (intro exI [of _ r] exI [of _ a] exI [of _ b] bexI [of _ c] c(1)) (simp add: t_def p_def j_def)
qed


theorem chunking_loses_no_text_witness:
  "\<exists>ck s r a b. \<exists>c \<in> set (cr_chunks r). chunk ascii_unicode (\<lambda>z. z) ck example_pages = Inr r
    \<and> c_content c = slice a b (fst (section_text s)) \<and> c_page_start c \<le> 1"
proof -
  obtain ck where ck: "mk_chunker (regex_tokenizer ascii_unicode) 3 1 = Inr ck" by (simp add: mk_chunker_def)
  let ?s = "detect_sections ascii_unicode (\<lambda>z. z) example_pages"
  have flat: "concat (map s_blocks ?s) = [\<lparr>sb_text = py_str ''Abstract'', sb_page_number = 1\<rparr>,
      \<lparr>sb_text = py_str ''one two three four'', sb_page_number = 1\<rparr>]"
    unfolding detect_sections_def detect_loop_blocks by (simp add: example_pages_def placed_blocks_def)
  then have "\<lparr>sb_text = py_str ''Abstract'', sb_page_number = 1\<rparr> \<in> set (concat (map s_blocks ?s))" by simp
  then obtain s where s: "s \<in> set ?s" "\<lparr>sb_text = py_str ''Abstract'', sb_page_number = 1\<rparr> \<in> set (s_blocks s)"
    by auto
  then obtain k where k: "k < length (s_blocks s)" "s_blocks s ! k = \<lparr>sb_text = py_str ''Abstract'', sb_page_number = 1\<rparr>"
    by (auto simp: in_set_conv_nth)
  have "0 < length (sb_text (s_blocks s ! k))" "\<not> py_isspace (sb_text (s_blocks s ! k) ! 0)"
    by (simp_all add: k py_str_def py_isspace_def)
  from chunking_loses_no_text [OF regex_covering.covering_tokenizer_axioms ck example_pages_wf s(1) k(1) this]
  show ?thesis by (simp add: k) blast
qed

end
