(* ===== verification/Embedding.thy ===== *)
theory Embedding
  imports Chunker PipelineSafety
begin

text \<open>
  \<open>document_processing/embedder.py\<close> and the contract of \<open>shared/interfaces/embedding.py\<close>. FastEmbed is
  not part of the program: a loaded model is the record \<open>fastembed\<close> of what the provider asks of
  it, where \<open>None\<close> is a call that raised. The locale \<open>embedding_provider\<close> is what the ingestion and
  the search services rely on; \<open>FastEmbedProvider\<close> keeps it whatever the model does.
\<close>

definition SPECIAL_TOKENS_PER_SEQUENCE :: int where
  "SPECIAL_TOKENS_PER_SEQUENCE = 2"

text \<open>A loaded model: its embeddings, and its tokenizer if the wrapper exposes one, with its limit.\<close>

record fastembed =
  fe_embed :: "ustr list \<Rightarrow> vector list option"
  fe_encode :: "(ustr \<Rightarrow> (span \<times> bool) list) option"
  fe_max_length :: int

record provider =
  pr_model :: fastembed
  pr_model_id :: ustr
  pr_dimension :: int
  pr_max_input_tokens :: int
  pr_tokenizer :: tokenizer_ops

section \<open>The model\<close>

definition run_model :: "fastembed \<Rightarrow> ustr list \<Rightarrow> (exn, vector list) result" where
  "run_model model texts =
     (case fe_embed model texts of
        None \<Rightarrow> Inl EmbeddingError
      | Some vectors \<Rightarrow>
          (if length vectors \<noteq> length texts then Inl EmbeddingError else Inr vectors))"

definition embed_checked :: "provider \<Rightarrow> ustr list \<Rightarrow> (exn, vector list) result" where
  "embed_checked p texts =
     bind_result (run_model (pr_model p) texts) (\<lambda>vectors.
       if list_ex (\<lambda>v. int (length v) \<noteq> pr_dimension p) vectors then Inl EmbeddingError else Inr vectors)"

definition refuse_empty :: "ustr list \<Rightarrow> (exn, unit) result" where
  "refuse_empty texts = assert_that (list_all (\<lambda>t. py_strip t \<noteq> []) texts) EmbeddingError"

definition embed_documents :: "provider \<Rightarrow> ustr list \<Rightarrow> (exn, vector list) result" where
  "embed_documents p texts =
     (if texts = [] then Inr []
      else bind_result (refuse_empty texts) (\<lambda>_. embed_checked p texts))"

definition embed_query :: "provider \<Rightarrow> ustr \<Rightarrow> (exn, vector) result" where
  "embed_query p t =
     bind_result (refuse_empty [t]) (\<lambda>_. bind_result (embed_checked p [t]) (\<lambda>vectors. Inr (hd vectors)))"

section \<open>Construction\<close>

text \<open>
  \<open>load\<close> constructs the model, or raises; \<open>declared\<close> is the catalogue's width for the model's name.
  The copy of the tokenizer without truncation encodes as the original does without its limit.
\<close>

definition mk_provider ::
  "(ustr \<Rightarrow> fastembed option) \<Rightarrow> (ustr \<Rightarrow> int option) \<Rightarrow> ustr \<Rightarrow> int \<Rightarrow> (exn, provider) result" where
  "mk_provider load declared model_id batch_size =
     (if batch_size \<le> 0 then Inl ValueError
      else case load model_id of
        None \<Rightarrow> Inl EmbeddingError
      | Some model \<Rightarrow>
          (case fe_encode model of
             None \<Rightarrow> Inl EmbeddingError
           | Some encode \<Rightarrow>
               (if fe_max_length model \<le> 0 then Inl EmbeddingError
                else bind_result (run_model model [py_str ''dimension probe'']) (\<lambda>vectors.
                  let width = int (length (hd vectors)) in
                  if (case declared model_id of None \<Rightarrow> False | Some d \<Rightarrow> d \<noteq> width) then Inl EmbeddingError
                  else Inr \<lparr>pr_model = model, pr_model_id = model_id, pr_dimension = width,
                         pr_max_input_tokens = fe_max_length model,
                         pr_tokenizer = fastembed_tokenizer encode model_id\<rparr>))))"

section \<open>The contract\<close>

locale embedding_provider =
  fixes documents :: "ustr list \<Rightarrow> (exn, vector list) result" and query :: "ustr \<Rightarrow> (exn, vector) result"
    and width :: int
  assumes documents_result: "documents texts = Inr vs \<Longrightarrow> length vs = length texts \<and> (\<forall>v \<in> set vs. int (length v) = width)"
    and documents_error: "documents texts = Inl e \<Longrightarrow> e = EmbeddingError"
    and documents_visible: "documents texts = Inr vs \<Longrightarrow> t \<in> set texts \<Longrightarrow> py_strip t \<noteq> []"
    and query_result: "query t = Inr v \<Longrightarrow> int (length v) = width"
    and query_error: "query t = Inl e \<Longrightarrow> e = EmbeddingError"
begin

lemma vectors_in_order: "documents texts = Inr vs \<Longrightarrow> i < length texts \<Longrightarrow> int (length (vs ! i)) = width"
  using documents_result [of texts vs] by simp

lemma one_vector: "one_vector_each documents \<longleftrightarrow> True"
  by (simp add: one_vector_each_def) (blast dest: documents_result)

end

lemma run_model_length: "run_model model texts = Inr vs \<Longrightarrow> length vs = length texts"
  by (auto simp: run_model_def split: option.splits if_splits)

lemma run_model_error: "run_model model texts = Inl e \<Longrightarrow> e = EmbeddingError"
  by (auto simp: run_model_def split: option.splits if_splits)

lemma embed_checked_result:
  "embed_checked p texts = Inr vs \<Longrightarrow> length vs = length texts \<and> (\<forall>v \<in> set vs. int (length v) = pr_dimension p)"
  by (auto simp: embed_checked_def list_ex_iff dest: run_model_length split: if_splits)

lemma embed_checked_error: "embed_checked p texts = Inl e \<Longrightarrow> e = EmbeddingError"
  by (auto simp: embed_checked_def bind_result_eq_Inl dest: run_model_error split: if_splits)

lemma refuse_empty_cases [simp]:
  "refuse_empty texts = Inr u \<longleftrightarrow> (\<forall>t \<in> set texts. py_strip t \<noteq> [])"
  "refuse_empty texts = Inl e \<longleftrightarrow> e = EmbeddingError \<and> (\<exists>t \<in> set texts. py_strip t = [])"
  by (auto simp: refuse_empty_def assert_that_def list_all_iff)

interpretation fastembed: embedding_provider "embed_documents p" "embed_query p" "pr_dimension p" for p
proof unfold_locales
  show "embed_documents p texts = Inr vs \<Longrightarrow>
      length vs = length texts \<and> (\<forall>v \<in> set vs. int (length v) = pr_dimension p)" for texts vs
    by (auto simp: embed_documents_def dest: embed_checked_result split: if_splits)
  show "embed_documents p texts = Inl e \<Longrightarrow> e = EmbeddingError" for texts e
    by (auto simp: embed_documents_def bind_result_eq_Inl dest: embed_checked_error split: if_splits)
  show "embed_documents p texts = Inr vs \<Longrightarrow> t \<in> set texts \<Longrightarrow> py_strip t \<noteq> []" for texts vs t
    by (auto simp: embed_documents_def split: if_splits)
  show "embed_query p t = Inr v \<Longrightarrow> int (length v) = pr_dimension p" for t v
  proof -
    assume "embed_query p t = Inr v"
    then obtain vs where vs: "embed_checked p [t] = Inr vs" "v = hd vs" by (auto simp: embed_query_def)
    from embed_checked_result [OF vs(1)] have "vs \<noteq> []" by auto
    with embed_checked_result [OF vs(1)] vs(2) show ?thesis by simp
  qed
  show "embed_query p t = Inl e \<Longrightarrow> e = EmbeddingError" for t e
    by (auto simp: embed_query_def bind_result_eq_Inl dest: embed_checked_error)
qed

section \<open>Properties\<close>

text \<open>
  C16. Whatever the model returns, a provider that could be constructed embeds honestly: it returns
  one vector for each text, all of the width measured when it was constructed, which is the width
  its catalogue declares if it declares one; a blank text is never embedded; and its only error is
  \<open>EmbeddingError\<close>, the one that the ingestion service retries.
\<close>

theorem provider_embeds_honestly:
  assumes "mk_provider load declared model_id batch = Inr p"
  shows "(case embed_documents p texts of
      Inl e \<Rightarrow> e = EmbeddingError
    | Inr vs \<Rightarrow> length vs = length texts \<and> (\<forall>v \<in> set vs. int (length v) = pr_dimension p)
        \<and> (\<forall>t \<in> set texts. py_strip t \<noteq> []))
    \<and> (case declared model_id of None \<Rightarrow> True | Some d \<Rightarrow> pr_dimension p = d)
    \<and> 0 < pr_max_input_tokens p \<and> pr_model_id p = model_id"
proof -
  have "(case declared model_id of None \<Rightarrow> True | Some d \<Rightarrow> pr_dimension p = d)
      \<and> 0 < pr_max_input_tokens p \<and> pr_model_id p = model_id"
    using assms by (auto simp: mk_provider_def Let_def split: if_splits option.splits)
  then show ?thesis
    using fastembed.documents_result fastembed.documents_error fastembed.documents_visible
    by (auto split: sum.split)
qed

definition example_model :: fastembed where
  "example_model = \<lparr>fe_embed = \<lambda>ts. Some (map (\<lambda>_. [1, 0]) ts), fe_encode = Some (\<lambda>s. [((0, length s), False)]),
     fe_max_length = 512\<rparr>"

theorem provider_embeds_honestly_witness:
  "\<exists>p. mk_provider (\<lambda>_. Some example_model) (\<lambda>_. Some 2) (py_str ''m'') 32 = Inr p \<and> pr_dimension p = 2
     \<and> embed_documents p [[65], [66]] = Inr [[1, 0], [1, 0]]"
proof -
  obtain p where p: "mk_provider (\<lambda>_. Some example_model) (\<lambda>_. Some 2) (py_str ''m'') 32 = Inr p"
    "pr_model p = example_model" "pr_dimension p = 2"
    by (simp add: mk_provider_def example_model_def run_model_def)
  from provider_embeds_honestly [OF p(1), of "[[65], [66]]"] p show ?thesis
    by (simp add: embed_documents_def refuse_empty_def embed_checked_def run_model_def example_model_def
        py_strip_Nil_iff py_isspace_def)
qed

end
