(* ===== verification/SearchService.thy ===== *)
theory SearchService
  imports Embedding ReadyDocuments
begin

text \<open>
  \<open>backend/services/search_service.py\<close>: a search, as a coroutine over the world of the other
  services. What it is constructed with is the record \<open>searcher\<close>; the embedder is the protocol of
  \<open>shared/interfaces/embedding.py\<close>, field by field.
\<close>

record 'q searcher =
  se_unicode :: unicode
  se_embed_query :: "ustr \<Rightarrow> (exn, vector) result"
  se_count :: "ustr \<Rightarrow> nat"
  se_model_id :: ustr
  se_dimension :: int
  se_max_input_tokens :: int
  se_qdrant :: "'q qdrant"
  se_top_k :: int
  se_score_threshold :: rat
  se_max_query_chars :: int

definition acceptable :: "'q searcher \<Rightarrow> ustr \<Rightarrow> (exn, ustr) result" where
  "acceptable se raw =
     (let t = py_strip (u_nfc (se_unicode se) raw); budget = se_max_input_tokens se - SPECIAL_TOKENS_PER_SEQUENCE in
      if t = [] then Inl InvalidSearchQuery
      else if se_max_query_chars se < int (length t) then Inl InvalidSearchQuery
      else if budget < int (se_count se t) then Inl InvalidSearchQuery
      else Inr t)"

text \<open>\<open>ranked.setdefault(id, score)\<close>: the dictionary in insertion order; the first score of an id stays.\<close>

definition set_default :: "(ustr \<times> rat) list \<Rightarrow> VectorMatch \<Rightarrow> (ustr \<times> rat) list" where
  "set_default ranked m = (if vm_id m \<in> fst ` set ranked then ranked else ranked @ [(vm_id m, vm_score m)])"

definition rank_candidates :: "VectorMatch list \<Rightarrow> (ustr \<times> rat) list" where
  "rank_candidates candidates = foldl set_default [] candidates"

definition search_results :: "(ustr \<rightharpoonup> ValidatedChunk) \<Rightarrow> (ustr \<times> rat) list \<Rightarrow> RetrievalResult list" where
  "search_results validated ranked =
     List.map_filter (\<lambda>(i, score). map_option (\<lambda>c. retrieval_result_of c score) (validated i)) ranked"

definition find_candidates ::
  "'q searcher \<Rightarrow> RetrievalQuery \<Rightarrow> Principal \<Rightarrow> vector \<Rightarrow> 'q \<Rightarrow> (exn, VectorMatch list) result" where
  "find_candidates se q caller v s =
     vectors_search (se_qdrant se) v (p_user_id caller)
       (case rq_top_k q of None \<Rightarrow> se_top_k se | Some k \<Rightarrow> if k = 0 then se_top_k se else k)
       (case rq_score_threshold q of None \<Rightarrow> se_score_threshold se | Some t \<Rightarrow> t) (rq_document_ids q) s"

definition validated_chunks ::
  "'q searcher \<Rightarrow> Principal \<Rightarrow> (ustr \<times> rat) list \<Rightarrow> database \<Rightarrow> (ustr \<rightharpoonup> ValidatedChunk)" where
  "validated_chunks se caller ranked db =
     chunks_validate_for_retrieval (se_unicode se) (map fst ranked) (p_user_id caller) (se_model_id se) (se_dimension se) db"

definition search ::
  "'q searcher \<Rightarrow> RetrievalQuery \<Rightarrow> Principal \<Rightarrow> (('q, 'r) world, RetrievalResult list) prog" where
  "search se q caller =
     bindP (of_result (acceptable se (rq_text q))) (\<lambda>t.
     tryP (in_thread (se_embed_query se t))
       (\<lambda>e. if e = EmbeddingError then Raise SearchUnavailable else Raise e)
       (\<lambda>v. tryP (query (\<lambda>w. find_candidates se q caller v (w_points w)))
         (\<lambda>e. if e = VectorStoreError then Raise SearchUnavailable else Raise e)
         (\<lambda>candidates.
           let ranked = rank_candidates candidates in
           if ranked = [] then Return []
           else tryP (db_read (\<lambda>db. Inr (validated_chunks se caller ranked db)))
             (\<lambda>e. if is_Exception e then Raise SearchUnavailable else Raise e)
             (\<lambda>validated. Return (search_results validated ranked)))))"

section \<open>Ranking\<close>

lemma rank_candidates_props:
  "distinct (map fst (foldl set_default ranked ms)) = distinct (map fst ranked)
    \<and> fst ` set (foldl set_default ranked ms) = fst ` set ranked \<union> vm_id ` set ms
    \<and> set (foldl set_default ranked ms) \<subseteq> set ranked \<union> (\<lambda>m. (vm_id m, vm_score m)) ` set ms"
proof (induction ms arbitrary: ranked)
  case (Cons m ms)
  have "distinct (map fst (set_default ranked m)) = distinct (map fst ranked)"
    "fst ` set (set_default ranked m) = insert (vm_id m) (fst ` set ranked)"
    "set (set_default ranked m) \<subseteq> insert (vm_id m, vm_score m) (set ranked)"
    by (auto simp: set_default_def image_iff)
  with Cons [of "set_default ranked m"] show ?case by auto
qed simp

lemma set_default_sorted:
  assumes "sorted_wrt (\<lambda>a b. snd b \<le> snd a) ranked" and "\<forall>x \<in> set ranked. vm_score m \<le> snd x"
  shows "sorted_wrt (\<lambda>a b. snd b \<le> snd a) (set_default ranked m)"
  using assms by (auto simp: set_default_def sorted_wrt_append)

lemma rank_sorted:
  assumes "sorted_wrt (\<lambda>a b. snd b \<le> snd a) ranked" and "sorted_wrt (\<lambda>a b. vm_score b \<le> vm_score a) ms"
    and "\<forall>x \<in> set ranked. \<forall>m \<in> set ms. vm_score m \<le> snd x"
  shows "sorted_wrt (\<lambda>a b. snd b \<le> snd a) (foldl set_default ranked ms)"
  using assms
proof (induction ms arbitrary: ranked)
  case (Cons m ms)
  have "\<forall>x \<in> set (set_default ranked m). \<forall>m' \<in> set ms. vm_score m' \<le> snd x"
    using Cons.prems by (auto simp: set_default_def)
  with Cons.IH [of "set_default ranked m"] set_default_sorted [of ranked m] Cons.prems show ?case by simp
qed simp

lemma rank_length: "length (foldl set_default ranked ms) \<le> length ranked + length ms"
proof (induction ms arbitrary: ranked)
  case (Cons m ms)
  have "length (set_default ranked m) \<le> Suc (length ranked)" by (simp add: set_default_def)
  with Cons [of "set_default ranked m"] show ?case by simp
qed simp

section \<open>What a search returns\<close>

text \<open>A search that returned: every step before the answer succeeded.\<close>

lemma search_returned:
  assumes "run (search se q caller) cs w = (Inr results, cs', w')"
  obtains t v ms where "acceptable se (rq_text q) = Inr t" "se_embed_query se t = Inr v"
    "find_candidates se q caller v (w_points w) = Inr ms" "w' = w"
    "results = search_results (validated_chunks se caller (rank_candidates ms) (w_db w)) (rank_candidates ms)"
proof -
  have thread: "run (in_thread r) cs w = (Inr v, cs1, w1) \<Longrightarrow> r = Inr v \<and> w1 = w" for r :: "(exn, vector) result" and v cs w cs1 and w1 :: "('a, 'b) world"
    by (auto simp: in_thread_def run_query split: choice.splits)
  have qry: "run (query f) cs w = (Inr v, cs1, w1) \<Longrightarrow> f w = Inr v \<and> w1 = w" for f :: "('a, 'b) world \<Rightarrow> (exn, 'c) result" and v cs w cs1 w1
    by (auto simp: run_query split: choice.splits)
  show ?thesis
    using assms
    by (auto simp: search_def Let_def run_bindP run_tryP db_read_def search_results_def map_filter_simps intro!: that
        dest!: thread qry split: sum.splits prod.splits if_splits)
qed

lemma search_result_chunk:
  assumes "r \<in> set (search_results (validated_chunks se caller ranked db) ranked)"
  obtains c owner d where "c \<in> set (db_chunks db)" "parse_text (se_unicode se) (p_user_id caller) = Some owner"
    "d \<in> set (db_documents db)" "owned_live (chk_document_id c) owner d" "doc_status d = DocumentStatus.READY"
    "chk_embedding_model_id c = Some (se_model_id se)" "chk_dimension c = Some (se_dimension se)"
    "(uuid_str (chk_id c), rr_score r) \<in> set ranked" "r = retrieval_result_of (validated_chunk (se_model_id se) c) (rr_score r)"
proof -
  let ?V = "validated_chunks se caller ranked db"
  obtain i vc where v: "(i, rr_score r) \<in> set ranked" "?V i = Some vc" "r = retrieval_result_of vc (rr_score r)"
    using assms by (auto simp: search_results_def map_filter_def retrieval_result_of_def)
  from v(2) obtain owner where owner: "parse_text (se_unicode se) (p_user_id caller) = Some owner"
    by (auto simp: validated_chunks_def chunks_validate_for_retrieval_def Let_def split: option.splits list.splits)
  with v(2) obtain c where c: "c \<in> set (db_chunks db)" "retrievable db owner (se_model_id se) (se_dimension se) c"
    "i = uuid_str (chk_id c)" "vc = validated_chunk (se_model_id se) c"
    by (auto simp: validated_chunks_def chunks_validate_for_retrieval_def Let_def split: list.splits dest!: map_of_SomeD)
  from c(2) obtain d where "d \<in> set (db_documents db)" "owned_live (chk_document_id c) owner d" "doc_status d = DocumentStatus.READY"
    "chk_embedding_model_id c = Some (se_model_id se)" "chk_dimension c = Some (se_dimension se)"
    by (auto simp: retrievable_def list_ex_iff)
  with that [OF c(1) owner] v(1,3) c(3,4) show ?thesis by blast
qed

lemma search_results_order:
  assumes "\<And>i vc. V i = Some vc \<Longrightarrow> vc_chunk_id vc = i"
  shows "map (\<lambda>r. (rr_chunk_id r, rr_score r)) (search_results V ranked) = filter (\<lambda>x. V (fst x) \<noteq> None) ranked"
proof (induction ranked)
  case (Cons x ranked)
  then show ?case using assms by (cases x) (auto simp: search_results_def map_filter_simps retrieval_result_of_def split: option.split)
qed (simp add: search_results_def map_filter_simps)

lemma validated_ids: "validated_chunks se caller ranked db i = Some vc \<Longrightarrow> vc_chunk_id vc = i"
  by (auto simp: validated_chunks_def chunks_validate_for_retrieval_def Let_def validated_chunk_def
      split: option.splits list.splits dest!: map_of_SomeD)

section \<open>Properties\<close>

text \<open>
  C8. Qdrant proposes, PostgreSQL disposes. Whatever the vector store answers, forged and stale
  payloads included, every result of a search is a chunk that the database holds at that moment, of a
  live and ready document of the caller, embedded by the model that embedded the query; its text and
  its citation are the database's; and no chunk is returned twice.
\<close>

theorem results_are_the_callers_own:
  assumes "run (search se q caller) cs w = (Inr results, cs', w')"
  shows "w' = w \<and> distinct (map rr_chunk_id results)
    \<and> (\<forall>r \<in> set results. \<exists>c \<in> set (db_chunks (w_db w)). \<exists>d \<in> set (db_documents (w_db w)).
        doc_id d = chk_document_id c \<and> is_live d \<and> doc_status d = DocumentStatus.READY
        \<and> parse_text (se_unicode se) (p_user_id caller) = Some (doc_user_id d)
        \<and> chk_embedding_model_id c = Some (se_model_id se) \<and> chk_dimension c = Some (se_dimension se)
        \<and> rr_chunk_id r = uuid_str (chk_id c) \<and> rr_document_id r = uuid_str (doc_id d) \<and> rr_content r = chk_content c
        \<and> rr_chunk_index r = chk_chunk_index c \<and> rr_section r = chk_section c
        \<and> rr_page_start r = chk_page_start c \<and> rr_page_end r = chk_page_end c)"
  using assms
proof (rule search_returned)
  fix t v ms
  let ?ranked = "rank_candidates ms"
  assume w: "w' = w" and results: "results = search_results (validated_chunks se caller ?ranked (w_db w)) ?ranked"
  have "map fst (map (\<lambda>r. (rr_chunk_id r, rr_score r)) results)
      = map fst (filter (\<lambda>x. validated_chunks se caller ?ranked (w_db w) (fst x) \<noteq> None) ?ranked)"
    unfolding results by (subst search_results_order) (auto dest: validated_ids)
  moreover have "distinct (map fst ?ranked)"
    using rank_candidates_props [of "[]" ms] by (simp add: rank_candidates_def)
  ultimately have "distinct (map rr_chunk_id results)"
    by (simp add: comp_def distinct_map_filter)
  moreover have "\<exists>c \<in> set (db_chunks (w_db w)). \<exists>d \<in> set (db_documents (w_db w)).
        doc_id d = chk_document_id c \<and> is_live d \<and> doc_status d = DocumentStatus.READY
        \<and> parse_text (se_unicode se) (p_user_id caller) = Some (doc_user_id d)
        \<and> chk_embedding_model_id c = Some (se_model_id se) \<and> chk_dimension c = Some (se_dimension se)
        \<and> rr_chunk_id r = uuid_str (chk_id c) \<and> rr_document_id r = uuid_str (doc_id d) \<and> rr_content r = chk_content c
        \<and> rr_chunk_index r = chk_chunk_index c \<and> rr_section r = chk_section c
        \<and> rr_page_start r = chk_page_start c \<and> rr_page_end r = chk_page_end c" if "r \<in> set results" for r
    using that [unfolded results]
  proof (rule search_result_chunk)
    fix c owner d
    assume h: "c \<in> set (db_chunks (w_db w))" "parse_text (se_unicode se) (p_user_id caller) = Some owner"
      "d \<in> set (db_documents (w_db w))" "owned_live (chk_document_id c) owner d" "doc_status d = DocumentStatus.READY"
      "chk_embedding_model_id c = Some (se_model_id se)" "chk_dimension c = Some (se_dimension se)"
      "r = retrieval_result_of (validated_chunk (se_model_id se) c) (rr_score r)"
    from h(8) have "rr_chunk_id r = uuid_str (chk_id c)" "rr_document_id r = uuid_str (chk_document_id c)"
      "rr_content r = chk_content c" "rr_chunk_index r = chk_chunk_index c" "rr_section r = chk_section c"
      "rr_page_start r = chk_page_start c" "rr_page_end r = chk_page_end c"
      by (metis RetrievalResult.select_convs ValidatedChunk.select_convs retrieval_result_of_def validated_chunk_def)+
    with h show ?thesis by (intro bexI [of _ c] bexI [of _ d]) (auto simp: owned_live_def)
  qed
  ultimately show ?thesis using w by blast
qed

text \<open>
  C9. An outage is never an empty answer. A search that returns nothing has embedded an acceptable
  query, one that is not blank and fits the model with its special tokens, and has had an answer from
  the vector store in which the database confirmed no candidate.
\<close>

theorem empty_means_nothing_found:
  assumes "run (search se q caller) cs w = (Inr [], cs', w')"
  shows "\<exists>t v ms. t = py_strip (u_nfc (se_unicode se) (rq_text q)) \<and> t \<noteq> [] \<and> int (length t) \<le> se_max_query_chars se
    \<and> int (se_count se t) + 2 \<le> se_max_input_tokens se
    \<and> se_embed_query se t = Inr v \<and> find_candidates se q caller v (w_points w) = Inr ms
    \<and> (\<forall>m \<in> set ms. validated_chunks se caller (rank_candidates ms) (w_db w) (vm_id m) = None)"
  using assms
proof (rule search_returned)
  fix t v ms
  let ?ranked = "rank_candidates ms" let ?V = "validated_chunks se caller ?ranked (w_db w)"
  assume h: "acceptable se (rq_text q) = Inr t" "se_embed_query se t = Inr v" "find_candidates se q caller v (w_points w) = Inr ms"
    and results: "[] = search_results ?V ?ranked"
  have "filter (\<lambda>x. ?V (fst x) \<noteq> None) ?ranked = []"
    using search_results_order [of ?V ?ranked] validated_ids results by (metis list.simps(8))
  moreover have "fst ` set ?ranked = vm_id ` set ms"
    using rank_candidates_props [of "[]" ms] by (simp add: rank_candidates_def)
  ultimately have "\<forall>m \<in> set ms. ?V (vm_id m) = None"
    by (auto simp: filter_empty_conv image_iff) (metis image_eqI imageE)
  with h show ?thesis
    by (intro exI [of _ t] exI [of _ v] exI [of _ ms])
      (auto simp: acceptable_def Let_def SPECIAL_TOKENS_PER_SEQUENCE_def split: if_splits)
qed

text \<open>
  C10. Best first. Over a vector store that keeps its documented promises, the results of a search
  come in descending order of score, none is below the threshold asked for, and there are at most as
  many as asked for.
\<close>

theorem results_are_ranked:
  assumes "run (search se q caller) cs w = (Inr results, cs', w')" and "qdrant_reads (se_qdrant se)"
  shows "sorted_wrt (\<lambda>a b. rr_score b \<le> rr_score a) results
    \<and> (\<forall>r \<in> set results. (case rq_score_threshold q of None \<Rightarrow> se_score_threshold se | Some t \<Rightarrow> t) \<le> rr_score r)
    \<and> length results \<le> nat (case rq_top_k q of None \<Rightarrow> se_top_k se | Some k \<Rightarrow> if k = 0 then se_top_k se else k)"
  using assms(1)
proof (rule search_returned)
  fix t v ms
  let ?ranked = "rank_candidates ms" let ?V = "validated_chunks se caller ?ranked (w_db w)"
  let ?k = "case rq_top_k q of None \<Rightarrow> se_top_k se | Some k \<Rightarrow> if k = 0 then se_top_k se else k"
  let ?thr = "case rq_score_threshold q of None \<Rightarrow> se_score_threshold se | Some t \<Rightarrow> t"
  assume ms: "find_candidates se q caller v (w_points w) = Inr ms" and results: "results = search_results ?V ?ranked"
  obtain conds points where points: "q_query (se_qdrant se) v conds ?k ?thr (w_points w) = Some points"
    "map_result (match_of_point (p_user_id caller)) points = Inr ms"
    using ms by (auto simp: find_candidates_def vectors_search_def split: if_splits)
  have laws: "length points \<le> nat ?k" "sorted_wrt (\<lambda>a b. sp_score b \<le> sp_score a) points" "\<forall>h \<in> set points. ?thr \<le> sp_score h"
    using assms(2) points(1) unfolding qdrant_reads_def by blast+
  have all2: "list_all2 (\<lambda>p m. match_of_point (p_user_id caller) p = Inr m) points ms" by (rule map_result_Inr [OF points(2)])
  then have "list_all2 (\<lambda>p m. vm_score m = sp_score p) points ms"
    by (rule list.rel_mono_strong) (auto simp: match_of_point_def split: if_splits)
  then have eq: "map vm_score ms = map sp_score points" by (auto simp: list_all2_conv_all_nth intro: nth_equalityI)
  have "sorted_wrt (\<lambda>a b. b \<le> a) (map vm_score ms)" "\<forall>x \<in> set (map vm_score ms). ?thr \<le> x"
    unfolding eq using laws(2,3) by (simp_all add: sorted_wrt_map)
  then have sorted: "sorted_wrt (\<lambda>a b. vm_score b \<le> vm_score a) ms" and thr: "\<forall>m \<in> set ms. ?thr \<le> vm_score m"
    by (simp_all add: sorted_wrt_map)
  have len: "length ms \<le> nat ?k" using laws(1) arg_cong [OF eq, of length] by simp
  have ranked: "sorted_wrt (\<lambda>a b. snd b \<le> snd a) ?ranked" "\<forall>x \<in> set ?ranked. ?thr \<le> snd x" "length ?ranked \<le> nat ?k"
    using rank_sorted [of "[]" ms] sorted rank_candidates_props [of "[]" ms] thr rank_length [of "[]" ms] len
    by (auto simp: rank_candidates_def)
  have order: "map (\<lambda>r. (rr_chunk_id r, rr_score r)) results = filter (\<lambda>x. ?V (fst x) \<noteq> None) ?ranked"
    unfolding results by (rule search_results_order) (rule validated_ids)
  have "sorted_wrt (\<lambda>a b. snd b \<le> snd a) (map (\<lambda>r. (rr_chunk_id r, rr_score r)) results)"
    unfolding order using ranked(1) by (rule sorted_wrt_filter)
  moreover have "\<forall>x \<in> set (map (\<lambda>r. (rr_chunk_id r, rr_score r)) results). ?thr \<le> snd x"
    unfolding order using ranked(2) by simp
  moreover have "length (map (\<lambda>r. (rr_chunk_id r, rr_score r)) results) \<le> nat ?k"
    unfolding order by (rule order_trans [OF length_filter_le ranked(3)])
  ultimately show ?thesis by (simp add: sorted_wrt_map)
qed

section \<open>A search that finds\<close>

text \<open>The store of the example, with a query that returns its one point when the filter matches it.\<close>

definition finding_qdrant :: "(ustr \<Rightarrow> (vector \<times> mapping) option) qdrant" where
  "finding_qdrant = example_qdrant\<lparr>q_query := \<lambda>_ conds limit thr s.
     Some (case s (uuid_str 3) of None \<Rightarrow> []
       | Some (v, m) \<Rightarrow> (if filter_matches conds m \<and> thr \<le> 1 \<and> 0 < limit
           then [\<lparr>sp_id = uuid_str 3, sp_score = 1, sp_payload = Some m\<rparr>] else []))\<rparr>"

lemma finding_qdrant_reads: "qdrant_reads finding_qdrant"
  by (auto simp: qdrant_reads_def finding_qdrant_def example_qdrant_def split: option.splits if_splits)

definition example_searcher :: "(ustr \<Rightarrow> (vector \<times> mapping) option) searcher" where
  "example_searcher = \<lparr>se_unicode = ascii_unicode, se_embed_query = \<lambda>_. Inr [1, 0], se_count = length,
     se_model_id = py_str ''m'', se_dimension = 2, se_max_input_tokens = 512, se_qdrant = finding_qdrant,
     se_top_k = 10, se_score_threshold = 7 / 10, se_max_query_chars = 2000\<rparr>"

definition example_query :: RetrievalQuery where
  "example_query = \<lparr>rq_text = [119], rq_top_k = None, rq_score_threshold = None, rq_document_ids = None\<rparr>"

definition example_caller :: "uuid \<Rightarrow> Principal" where
  "example_caller u = \<lparr>p_user_id = uuid_str u, p_email = [], p_role = RESEARCHER\<rparr>"

lemma example_filter:
  "filter_matches [MatchValue (py_str ''user_id'') (uuid_str u)] (as_mapping example_payload) \<longleftrightarrow> u = 1"
  by (auto simp: filter_matches_def as_mapping_def example_payload_def)

lemma example_candidates:
  "find_candidates example_searcher example_query (example_caller u) v (w_points (staged_world DocumentStatus.READY)) =
     Inr (if u = 1 then [\<lparr>vm_id = uuid_str 3, vm_score = 1, vm_payload = example_payload\<rparr>] else [])"
proof -
  have "vp_user_id example_payload = uuid_str 1" by (simp add: example_payload_def)
  moreover have "owned_by_filter (uuid_str u) None = Inr [MatchValue (py_str ''user_id'') (uuid_str u)]"
    by (simp add: owned_by_filter_def) (metis length_uuid_str list.size(3) zero_neq_numeral)
  ultimately show ?thesis
    using example_filter [of u]
    by (simp add: find_candidates_def example_searcher_def example_query_def example_caller_def vectors_search_def
        finding_qdrant_def staged_world_def match_of_point_def del: py_str_simps)
qed

lemma example_search:
  "run (search example_searcher example_query (example_caller 1)) [] (staged_world DocumentStatus.READY) =
     (Inr [retrieval_result_of (validated_chunk (py_str ''m'') example_chunk_row) 1], [], staged_world DocumentStatus.READY)"
proof -
  have acc: "acceptable example_searcher (rq_text example_query) = Inr [119]"
    by (simp add: acceptable_def example_searcher_def example_query_def ascii_unicode_def py_strip_def py_strip_by_def
        py_isspace_def SPECIAL_TOKENS_PER_SEQUENCE_def)
  have db: "w_db (staged_world DocumentStatus.READY) = staged_db DocumentStatus.READY" by (simp add: staged_world_def)
  have "retrievable (staged_db DocumentStatus.READY) 1 (py_str ''m'') 2 example_chunk_row"
    by (simp add: retrievable_def staged_db_def owned_live_def example_row_def example_chunk_row_def is_live_def)
  then have valid: "validated_chunks example_searcher (example_caller 1) [(uuid_str 3, 1)] (staged_db DocumentStatus.READY)
      = [uuid_str 3 \<mapsto> validated_chunk (py_str ''m'') example_chunk_row]"
    by (simp add: validated_chunks_def chunks_validate_for_retrieval_def example_searcher_def example_caller_def
        map_filter_simps select_where_def staged_db_def example_chunk_row_def)
  have "se_embed_query example_searcher t = Inr [1, 0]" for t by (simp add: example_searcher_def)
  then show ?thesis
    using example_candidates [of 1] valid acc
    by (simp add: search_def run_simps in_thread_def db_read_def db rank_candidates_def set_default_def search_results_def
        map_filter_simps Let_def del: py_str_simps)
qed

theorem results_are_the_callers_own_witness:
  "\<exists>results. fst (run (search example_searcher example_query (example_caller 1)) [] (staged_world DocumentStatus.READY)) = Inr results
    \<and> length results = 1 \<and> (\<forall>r \<in> set results. rr_document_id r = uuid_str 2)"
  using results_are_the_callers_own [OF example_search] example_search
  by (auto simp: staged_world_def staged_db_def example_row_def)

theorem results_are_ranked_witness:
  "\<exists>results. fst (run (search example_searcher example_query (example_caller 1)) [] (staged_world DocumentStatus.READY)) = Inr results
    \<and> (\<forall>r \<in> set results. 7 / 10 \<le> rr_score r) \<and> length results \<le> 10"
  using results_are_ranked [OF example_search] finding_qdrant_reads example_search
  by (simp add: example_searcher_def example_query_def)

lemma example_search_other:
  "run (search example_searcher example_query (example_caller 7)) [] (staged_world DocumentStatus.READY) =
     (Inr [], [], staged_world DocumentStatus.READY)"
proof -
  have acc: "acceptable example_searcher (rq_text example_query) = Inr [119]"
    by (simp add: acceptable_def example_searcher_def example_query_def ascii_unicode_def py_strip_def py_strip_by_def
        py_isspace_def SPECIAL_TOKENS_PER_SEQUENCE_def)
  have "se_embed_query example_searcher t = Inr [1, 0]" for t by (simp add: example_searcher_def)
  then show ?thesis
    using example_candidates [of 7] acc
    by (simp add: search_def run_simps in_thread_def rank_candidates_def Let_def)
qed

theorem empty_means_nothing_found_witness:
  "find_candidates example_searcher example_query (example_caller 7) [1, 0] (w_points (staged_world DocumentStatus.READY)) = Inr []
    \<and> (\<exists>v ms. find_candidates example_searcher example_query (example_caller 7) v (w_points (staged_world DocumentStatus.READY)) = Inr ms)"
  using empty_means_nothing_found [OF example_search_other] example_candidates [of 7] by auto

end
