(* ===== verification/UploadToReady.thy ===== *)
theory UploadToReady
  imports Delivery SearchService
begin

text \<open>
  The path of a document from end to end: the upload in the API process, the job it hands to the
  queue, the delivery of that job in the worker, and the search in the API process again.
  \<open>DocumentService\<close>, \<open>IngestionService\<close> and \<open>SearchService\<close> meet only in the database, the object store, the
  queue and the vector store; here their effects are put together.
\<close>

text \<open>An upload that nothing disturbs, step by step: row, object and job.\<close>

lemma run_store_upload:
  assumes "parse_text (sv_unicode sv) owner_id = Some u"
    and "\<forall>r \<in> set (db_documents (w_db w)). \<not> (doc_content_hash r = Some (vpdf_content_hash v) \<and> doc_user_id r = u \<and> is_live r)"
    and "document_storage_key (sv_unicode sv) owner_id (vpdf_content_hash v) = Inr key"
    and "documents_error (db_users (w_db w)) (db_documents (w_db w) @ [row]) = None"
    and "row = new_document_row new_id u (upload_values name key v) (db_now (w_db w))"
    and "sv_enqueue sv \<lparr>job_document_id = uuid_str new_id, job_owner_id = owner_id, job_storage_key = key,
      job_content_hash = vpdf_content_hash v, job_mime_type = vpdf_mime_type v\<rparr> (w_queue w) = (Inr b, q)"
  shows "run (store_upload sv new_id name data owner_id v) [] w =
    (Inr \<lparr>up_document = document_to_domain row, up_created = True\<rparr>, [],
     w\<lparr>w_db := w_db w\<lparr>db_documents := db_documents (w_db w) @ [row]\<rparr>,
       w_objects := snd (object_put key data (w_objects w)), w_queue := q\<rparr>)"
proof -
  have "select_where (\<lambda>r. doc_content_hash r = Some (vpdf_content_hash v) \<and> doc_user_id r = u \<and> is_live r)
      (db_documents (w_db w)) = []"
    using assms(2) by (auto simp: select_where_def filter_empty_conv)
  then have none: "documents_find_live_by_content_hash_for_user (sv_unicode sv) (vpdf_content_hash v) owner_id (w_db w) = Inr None"
    using assms(1) by (simp add: documents_find_live_by_content_hash_for_user_def)
  have created: "documents_create (sv_unicode sv) new_id owner_id (upload_values name key v) (w_db w) =
      Inr (document_to_domain row, w_db w\<lparr>db_documents := db_documents (w_db w) @ [row]\<rparr>)"
    using assms(1,4,5) by (simp add: documents_create_def write_documents_def Let_def)
  have id: "d_id (document_to_domain row) = uuid_str new_id"
    by (simp add: assms(5) document_to_domain_def new_document_row_def)
  have key: "is_storage_key key" by (rule storage_key_valid [OF assms(3)])
  obtain c objs where put: "object_put key data (w_objects w) = (c, objs)" by fastforce
  show ?thesis
    using none assms(3,6) key put created id
    by (simp add: store_upload_def hand_over_def find_content_def db_read_def storage_put_def enqueue_def run_simps run_db_tx)
qed

text \<open>Rows of an id that no document has do not exist.\<close>

lemma no_children_yet:
  assumes "wf_db db" and "d \<notin> doc_id ` set (db_documents db)"
  shows "pages_of db d = []" and "chunks_of db d = []"
  using wf_db_references(1,2) [OF assms(1)] assms(2) by (auto simp: pages_of_def chunks_of_def filter_empty_conv)

lemma validated:
  assumes "validate_pdf h open_pdf data n = Inr v"
  shows "vpdf_content_hash v = h data" and "vpdf_mime_type v = PDF_MIME_TYPE" and "vpdf_page_count v \<le> n"
  using assms by (auto simp: validate_pdf_def split: if_splits option.splits prod.splits)

text \<open>The row an upload records and the job it queues.\<close>

abbreviation uploaded_row :: "uuid \<Rightarrow> uuid \<Rightarrow> ustr \<Rightarrow> ustr \<Rightarrow> ValidatedPdf \<Rightarrow> int \<Rightarrow> DocumentRow" where
  "uploaded_row new_id u name key v now \<equiv> new_document_row new_id u (upload_values name key v) now"

abbreviation uploaded_job :: "uuid \<Rightarrow> uuid \<Rightarrow> ustr \<Rightarrow> ValidatedPdf \<Rightarrow> IngestionJob" where
  "uploaded_job new_id u key v \<equiv> \<lparr>job_document_id = uuid_str new_id, job_owner_id = uuid_str u, job_storage_key = key,
    job_content_hash = vpdf_content_hash v, job_mime_type = vpdf_mime_type v\<rparr>"

text \<open>What the upload records is the job's own document: the worker will not refuse it.\<close>

lemma job_of_upload:
  assumes "document_storage_key U (uuid_str u) (vpdf_content_hash v) = Inr key"
  shows "job_from_row U (ingestion_target (uploaded_row new_id u name key v now)) = Some (uploaded_job new_id u key v)"
  using assms by (simp add: job_from_row_def ingestion_target_def new_document_row_def upload_values_def)

text \<open>A search that nothing disturbs, and what it finds: every candidate the database confirms.\<close>

lemma run_search:
  assumes "acceptable se (rq_text q) = Inr t" and "se_embed_query se t = Inr v"
    and "find_candidates se q caller v (w_points w) = Inr ms"
  shows "run (search se q caller) [] w =
    (Inr (search_results (validated_chunks se caller (rank_candidates ms) (w_db w)) (rank_candidates ms)), [], w)"
  using assms by (simp add: search_def run_simps in_thread_def db_read_def Let_def search_results_def map_filter_simps)

lemma search_finds:
  assumes "wf_db db" and "c \<in> set (db_chunks db)" and "parse_text (se_unicode se) (p_user_id caller) = Some owner"
    and "retrievable db owner (se_model_id se) (se_dimension se) c" and "uuid_str (chk_id c) \<in> vm_id ` set ms"
  shows "\<exists>score. retrieval_result_of (validated_chunk (se_model_id se) c) score
    \<in> set (search_results (validated_chunks se caller (rank_candidates ms) db) (rank_candidates ms))"
proof -
  let ?i = "uuid_str (chk_id c)" and ?ranked = "rank_candidates ms"
  have "?i \<in> fst ` set ?ranked" using assms(5) rank_candidates_props [of "[]" ms] by (simp add: rank_candidates_def)
  then obtain score where ranked: "(?i, score) \<in> set ?ranked" by auto
  let ?targets = "List.map_filter (\<lambda>x. parse_text (se_unicode se) x) (map fst ?ranked)"
  have target: "chk_id c \<in> set ?targets"
    using ranked by (force simp: map_filter_def)
  let ?rows = "select_where (\<lambda>x. chk_id x \<in> set ?targets \<and> retrievable db owner (se_model_id se) (se_dimension se) x) (db_chunks db)"
  have "distinct (map chk_id ?rows)"
    unfolding select_where_def by (rule distinct_map_filter) (rule wf_db_keys(2) [OF assms(1)])
  then have "distinct (map fst (map (\<lambda>x. (uuid_str (chk_id x), validated_chunk (se_model_id se) x)) ?rows))"
    by (simp add: comp_def distinct_map inj_on_def)
  moreover have "(?i, validated_chunk (se_model_id se) c) \<in> set (map (\<lambda>x. (uuid_str (chk_id x), validated_chunk (se_model_id se) x)) ?rows)"
    using assms(2,4) target by (auto simp: select_where_def)
  ultimately have "map_of (map (\<lambda>x. (uuid_str (chk_id x), validated_chunk (se_model_id se) x)) ?rows) ?i = Some (validated_chunk (se_model_id se) c)"
    by simp
  moreover have "?targets \<noteq> []" using target by (metis empty_iff empty_set)
  ultimately have "validated_chunks se caller ?ranked db ?i = Some (validated_chunk (se_model_id se) c)"
    using assms(3) by (auto simp: validated_chunks_def chunks_validate_for_retrieval_def Let_def split: list.split)
  with ranked show ?thesis by (force simp: search_results_def map_filter_def)
qed

text \<open>
  A search service that was built for the same model, given an acceptable query and an answer of the
  vector store, returns every chunk of the document that is among the candidates, with its own text.
\<close>

definition searches_find :: "('q, 'r) service \<Rightarrow> Principal \<Rightarrow> uuid \<Rightarrow> ('q, 'r) world \<Rightarrow> bool" where
  "searches_find sv caller d w \<longleftrightarrow>
     (\<forall>se q t v ms. se_unicode se = sv_unicode sv \<and> se_model_id se = sv_model_id sv \<and> se_dimension se = sv_dimension sv
        \<and> acceptable se (rq_text q) = Inr t \<and> se_embed_query se t = Inr v \<and> find_candidates se q caller v (w_points w) = Inr ms \<longrightarrow>
        (\<exists>results. run (search se q caller) [] w = (Inr results, [], w)
          \<and> (\<forall>c \<in> set (chunks_of (w_db w) d). uuid_str (chk_id c) \<in> vm_id ` set ms \<longrightarrow>
              (\<exists>r \<in> set results. rr_chunk_id r = uuid_str (chk_id c) \<and> rr_document_id r = uuid_str d \<and> rr_content r = chk_content c))))"

lemma retrievable_is_found:
  assumes "wf_db (w_db w)" and "parse_text (sv_unicode sv) (p_user_id caller) = Some owner"
    and "\<forall>c \<in> set (chunks_of (w_db w) d). retrievable (w_db w) owner (sv_model_id sv) (sv_dimension sv) c"
  shows "searches_find sv caller d w"
  unfolding searches_find_def
proof (intro allI impI, elim conjE)
  fix se q t v ms
  assume se: "se_unicode se = sv_unicode sv" "se_model_id se = sv_model_id sv" "se_dimension se = sv_dimension sv"
    and found: "acceptable se (rq_text q) = Inr t" "se_embed_query se t = Inr v" "find_candidates se q caller v (w_points w) = Inr ms"
  let ?results = "search_results (validated_chunks se caller (rank_candidates ms) (w_db w)) (rank_candidates ms)"
  have "\<exists>r \<in> set ?results. rr_chunk_id r = uuid_str (chk_id c) \<and> rr_document_id r = uuid_str d \<and> rr_content r = chk_content c"
    if c: "c \<in> set (chunks_of (w_db w) d)" and m: "uuid_str (chk_id c) \<in> vm_id ` set ms" for c
  proof -
    have "c \<in> set (db_chunks (w_db w))" "chk_document_id c = d" using c by (simp_all add: chunks_of_def)
    with search_finds [OF assms(1) _ _ _ m, of se caller owner] assms(2,3) c se show ?thesis
      by (force simp: retrieval_result_of_def validated_chunk_def)
  qed
  with run_search [OF found] show "\<exists>results. run (search se q caller) [] w = (Inr results, [], w)
      \<and> (\<forall>c \<in> set (chunks_of (w_db w) d). uuid_str (chk_id c) \<in> vm_id ` set ms \<longrightarrow>
          (\<exists>r \<in> set results. rr_chunk_id r = uuid_str (chk_id c) \<and> rr_document_id r = uuid_str d \<and> rr_content r = chk_content c))"
    by blast
qed

section \<open>Properties\<close>


text \<open>A world with an account and nothing else, and the file it uploads.\<close>

definition empty_world :: "(ustr \<Rightarrow> (vector \<times> mapping) option, IngestionJob list) world" where
  "empty_world = \<lparr>w_db = (staged_db DocumentStatus.PENDING)\<lparr>db_documents := [], db_pages := [], db_chunks := []\<rparr>,
     w_objects = (\<lambda>_. None), w_points = (\<lambda>_. None), w_queue = []\<rparr>"

definition example_uploader :: Principal where
  "example_uploader = \<lparr>p_user_id = uuid_str 1, p_email = py_str ''a@b'', p_role = RESEARCHER\<rparr>"

lemma empty_world_wf: "wf_db (w_db empty_world)"
  using staged_db_wf [of DocumentStatus.PENDING]
  by (simp add: wf_db_def empty_world_def staged_db_def documents_error_def pages_error_def chunks_error_def content_index_def)

lemma example_upload:
  "display_filename ascii_unicode (Some (py_str ''p.pdf'')) = Inr (py_str ''p.pdf'')"
  "read_capped pdf_magic 1000 = Inr pdf_magic"
  "validate_pdf (sv_content_hash example_service) (ul_open_pdf example_uploads) pdf_magic (ul_max_pages example_uploads) =
    Inr \<lparr>vpdf_content_hash = replicate 64 97, vpdf_size_bytes = 5, vpdf_mime_type = PDF_MIME_TYPE, vpdf_page_count = 1\<rparr>"
  subgoal by code_simp
  subgoal by (simp add: read_capped_def read_capped_loop_eq pdf_magic_def)
  subgoal by (simp add: validate_pdf_def example_service_def example_uploads_def pdf_magic_def starts_with_def)
  done


end
