(* ===== verification/PdfExtraction.thy ===== *)
theory PdfExtraction
  imports TextModels Database "HOL-Library.Product_Lexorder" "HOL-Library.Multiset"
begin

text \<open>
  \<open>document_processing/pdf_parser.py\<close>: from the bytes of a PDF to its text, in reading order. PyMuPDF
  is not part of the program: an opened document is the record \<open>pdf_document\<close> of what the parser
  asks of it, where \<open>None\<close> is a call that raised. Positions and sizes are the rationals the floats
  denote; \<open>round(size, 1)\<close> is the nearest tenth, ties to even.
\<close>

section \<open>Cleaning text\<close>

definition DROPPED_CATEGORIES :: "string list" where
  "DROPPED_CATEGORIES = [''Cc'', ''Cf'', ''Cs'', ''Co'', ''Cn'']"

definition REPLACEMENT_CHARACTER :: nat where
  "REPLACEMENT_CHARACTER = 65533"

definition readable :: "unicode \<Rightarrow> nat \<Rightarrow> bool" where
  "readable U ch \<longleftrightarrow> py_isspace ch
     \<or> (ch \<noteq> REPLACEMENT_CHARACTER \<and> u_category U ch \<notin> set DROPPED_CATEGORIES)"

definition clean_text :: "unicode \<Rightarrow> ustr \<Rightarrow> ustr" where
  "clean_text U raw = py_join [32] (py_split (filter (readable U) (u_nfc U raw)))"

section \<open>Reading order\<close>

record LayoutBlock =
  lb_x0 :: rat
  lb_y0 :: rat
  lb_x1 :: rat
  lb_y1 :: rat
  lb_text :: ustr
  lb_font_size :: rat

definition GUTTER_TOLERANCE :: rat where
  "GUTTER_TOLERANCE = 1 / 50"

definition position :: "LayoutBlock \<Rightarrow> rat \<times> rat" where
  "position b = (lb_y0 b, lb_x0 b)"

definition crosses :: "rat \<Rightarrow> LayoutBlock \<Rightarrow> bool" where
  "crosses width b \<longleftrightarrow> lb_x0 b < width / 2 - width * GUTTER_TOLERANCE
     \<and> width / 2 + width * GUTTER_TOLERANCE < lb_x1 b"

definition in_left_column :: "rat \<Rightarrow> LayoutBlock \<Rightarrow> bool" where
  "in_left_column width b \<longleftrightarrow> lb_x1 b \<le> width / 2 + width * GUTTER_TOLERANCE"

definition close_band :: "LayoutBlock list \<Rightarrow> LayoutBlock list \<Rightarrow> LayoutBlock list \<Rightarrow> LayoutBlock list" where
  "close_band ordered left right = ordered @ sort_key position left @ sort_key position right"

fun reading_loop ::
  "rat \<Rightarrow> LayoutBlock list \<Rightarrow> LayoutBlock list \<Rightarrow> LayoutBlock list \<Rightarrow> LayoutBlock list \<Rightarrow> LayoutBlock list" where
  "reading_loop width ordered left right [] = close_band ordered left right"
| "reading_loop width ordered left right (b # bs) =
     (if crosses width b then reading_loop width (close_band ordered left right @ [b]) [] [] bs
      else if in_left_column width b then reading_loop width ordered (left @ [b]) right bs
      else reading_loop width ordered left (right @ [b]) bs)"

definition reading_order :: "LayoutBlock list \<Rightarrow> rat \<Rightarrow> LayoutBlock list" where
  "reading_order blocks width = reading_loop width [] [] [] (sort_key position blocks)"

section \<open>Blocks of a page\<close>

record pdf_span =
  sn_text :: ustr
  sn_size :: rat

record pdf_block =
  bk_type :: "int option"
  bk_lines :: "pdf_span list list"
  bk_bbox :: "rat \<times> rat \<times> rat \<times> rat"

record pdf_page =
  pp_width :: rat
  pp_blocks :: "pdf_block list"

record pdf_document =
  pd_needs_pass :: bool
  pd_page_count :: int
  pd_load_page :: "int \<Rightarrow> pdf_page option"

definition round_half_even :: "rat \<Rightarrow> int" where
  "round_half_even x =
     (let f = floor x; d = x - of_int f in
      if d < 1 / 2 then f else if 1 / 2 < d then f + 1 else if even f then f else f + 1)"

definition round_tenth :: "rat \<Rightarrow> rat" where
  "round_tenth x = of_int (round_half_even (10 * x)) / 10"

text \<open>\<open>sizes[size] = sizes.get(size, 0) + characters\<close>, the dictionary in insertion order.\<close>

fun add_size :: "rat \<Rightarrow> nat \<Rightarrow> (rat \<times> nat) list \<Rightarrow> (rat \<times> nat) list" where
  "add_size points n [] = [(points, n)]"
| "add_size points n ((s, m) # sizes) =
     (if s = points then (s, m + n) # sizes else (s, m) # add_size points n sizes)"

definition count_span :: "unicode \<Rightarrow> (rat \<times> nat) list \<Rightarrow> pdf_span \<Rightarrow> (rat \<times> nat) list" where
  "count_span U sizes sn =
     (let characters = length (clean_text U (sn_text sn)) in
      if characters = 0 then sizes else add_size (round_tenth (sn_size sn)) characters sizes)"

text \<open>\<open>max\<close> of an empty dictionary raises.\<close>

definition dominant_size :: "(rat \<times> nat) list \<Rightarrow> (exn, rat) result" where
  "dominant_size sizes =
     (case sizes of [] \<Rightarrow> Inl ValueError
      | item # items \<Rightarrow> Inr (fst (foldl (\<lambda>a b. if (snd a, fst a) < (snd b, fst b) then b else a) item items)))"

definition block_lines :: "unicode \<Rightarrow> pdf_block \<Rightarrow> ustr list" where
  "block_lines U b =
     filter (\<lambda>t. t \<noteq> []) (map (\<lambda>spans. clean_text U (concat (map sn_text spans))) (bk_lines b))"

definition block_sizes :: "unicode \<Rightarrow> pdf_block \<Rightarrow> (rat \<times> nat) list" where
  "block_sizes U b = foldl (count_span U) [] (concat (bk_lines b))"

definition layout_block :: "unicode \<Rightarrow> pdf_block \<Rightarrow> (exn, LayoutBlock) result" where
  "layout_block U b =
     (case bk_bbox b of (x0, y0, x1, y1) \<Rightarrow>
        bind_result (dominant_size (block_sizes U b)) (\<lambda>points.
          Inr \<lparr>lb_x0 = x0, lb_y0 = y0, lb_x1 = x1, lb_y1 = y1,
               lb_text = py_join [10] (block_lines U b), lb_font_size = points\<rparr>))"

definition page_blocks :: "unicode \<Rightarrow> pdf_page \<Rightarrow> (exn, LayoutBlock list) result" where
  "page_blocks U page =
     map_result (layout_block U)
       (filter (\<lambda>b. bk_type b = Some 0 \<and> block_lines U b \<noteq> []) (pp_blocks page))"

section \<open>\<open>extract_pdf_text\<close>\<close>

definition extract_page :: "unicode \<Rightarrow> pdf_document \<Rightarrow> int \<Rightarrow> (exn, ExtractedPage) result" where
  "extract_page U document index =
     (case pd_load_page document index of
        None \<Rightarrow> Inl OtherError
      | Some page \<Rightarrow>
          bind_result (page_blocks U page) (\<lambda>blocks.
          bind_result (map_result (\<lambda>b. mk_text_block (lb_text b) (lb_font_size b))
              (reading_order blocks (pp_width page))) (\<lambda>texts.
            mk_page (index + 1) texts)))"

definition extract_pdf_text ::
  "unicode \<Rightarrow> (bytes \<Rightarrow> pdf_document option) \<Rightarrow> bytes \<Rightarrow> int \<Rightarrow> (exn, ExtractedText) result" where
  "extract_pdf_text U open_pdf data max_pages =
     (case open_pdf data of
        None \<Rightarrow> Inl (PdfExtractionError OPEN_FAILED)
      | Some document \<Rightarrow>
          (if pd_needs_pass document then Inl (PdfExtractionError ExtractionFailure.ENCRYPTED)
           else if pd_page_count document < 1 then Inl (PdfExtractionError OPEN_FAILED)
           else if max_pages < pd_page_count document
           then Inl (PdfExtractionError ExtractionFailure.PAGE_LIMIT_EXCEEDED)
           else case map_result (extract_page U document) [0..pd_page_count document - 1] of
             Inl e \<Rightarrow> (if is_Exception e then Inl (PdfExtractionError PARSE_FAILED) else Inl e)
           | Inr pages \<Rightarrow> mk_extracted_text (pd_page_count document) pages))"

section \<open>The killable process\<close>

record extractor =
  ex_timeout :: rat
  ex_concurrency :: int

definition mk_extractor :: "rat \<Rightarrow> int \<Rightarrow> (exn, extractor) result" where
  "mk_extractor timeout_seconds max_concurrency =
     (if timeout_seconds \<le> 0 then Inl ValueError
      else if max_concurrency < 1 then Inl ValueError
      else Inr \<lparr>ex_timeout = timeout_seconds, ex_concurrency = max_concurrency\<rparr>)"

text \<open>
  How a run in a worker process ends: with what the function returned or raised after so many
  seconds, with the process dead, or with a cancellation from outside. A run that takes longer than
  the deadline is killed.
\<close>

datatype process_run = Finished rat | Died rat | Cancelled rat

definition extractor_extract ::
  "extractor \<Rightarrow> (bytes \<Rightarrow> int \<Rightarrow> (exn, ExtractedText) result) \<Rightarrow> process_run \<Rightarrow> bytes \<Rightarrow> int
   \<Rightarrow> (exn, ExtractedText) result" where
  "extractor_extract x extract process data max_pages =
     (let before = (\<lambda>t r. if ex_timeout x < t then Inl (PdfExtractionError TIMEOUT) else r) in
      case process of
        Finished t \<Rightarrow> before t (extract data max_pages)
      | Died t \<Rightarrow> before t (Inl (PdfExtractionError ExtractionFailure.PARSER_UNAVAILABLE))
      | Cancelled t \<Rightarrow> before t (Inl CancelledError))"

section \<open>Reading order: the reference\<close>

text \<open>
  What a reader does, walking down the page: up to the next block that crosses the middle, first the
  left column, then the right one; then that block; then on.
\<close>

function read_bands :: "rat \<Rightarrow> LayoutBlock list \<Rightarrow> LayoutBlock list" where
  "read_bands width bs =
     (let band = takeWhile (\<lambda>b. \<not> crosses width b) bs in
      filter (in_left_column width) band @ filter (\<lambda>b. \<not> in_left_column width b) band
      @ (case dropWhile (\<lambda>b. \<not> crosses width b) bs of [] \<Rightarrow> [] | c # rest \<Rightarrow> c # read_bands width rest))"
  by pat_completeness auto
termination
proof (relation "measure (\<lambda>(_, bs). length bs)")
  fix width bs band c and rest :: "LayoutBlock list"
  assume "dropWhile (\<lambda>b. \<not> crosses width b) bs = c # rest"
  then have "length (c # rest) \<le> length bs" by (metis length_dropWhile_le)
  then show "((width, rest), (width, bs)) \<in> measure (\<lambda>(_, bs). length bs)" by simp
qed simp

declare read_bands.simps [simp del]

lemma read_bands_simps:
  "read_bands width [] = []"
  "crosses width b \<Longrightarrow> read_bands width (b # bs) = b # read_bands width bs"
  by (simp_all add: read_bands.simps [of width "[]"] read_bands.simps [of width "b # bs"])

text \<open>The loop, started anywhere: what it has collected of a band is sorted already.\<close>

lemma reading_loop_bands:
  assumes "sorted (map position (left @ bs))" and "sorted (map position (right @ bs))"
  shows "reading_loop width ordered left right bs =
    ordered @ left @ filter (in_left_column width) (takeWhile (\<lambda>b. \<not> crosses width b) bs)
      @ right @ filter (\<lambda>b. \<not> in_left_column width b) (takeWhile (\<lambda>b. \<not> crosses width b) bs)
      @ (case dropWhile (\<lambda>b. \<not> crosses width b) bs of [] \<Rightarrow> [] | c # rest \<Rightarrow> c # read_bands width rest)"
  using assms
proof (induction bs arbitrary: ordered left right)
  case Nil
  then show ?case by (simp add: close_band_def sort_key_id_if_sorted)
next
  case (Cons b bs)
  from Cons.prems have keys: "sort_key position left = left" "sort_key position right = right"
    "sorted (map position bs)"
    by (simp_all add: sort_key_id_if_sorted sorted_append)
  consider "crosses width b" | "\<not> crosses width b" "in_left_column width b"
    | "\<not> crosses width b" "\<not> in_left_column width b" by blast
  then show ?case
  proof cases
    case 1
    with Cons.IH [of "[]" "[]" "close_band ordered left right @ [b]"] keys show ?thesis
      by (simp add: close_band_def read_bands.simps [of width bs] Let_def)
  next
    case 2
    with Cons.IH [of "left @ [b]" right ordered] Cons.prems show ?thesis by (simp add: sorted_append)
  next
    case 3
    with Cons.IH [of left "right @ [b]" ordered] Cons.prems show ?thesis by (simp add: sorted_append)
  qed
qed

lemma reading_order_bands: "reading_order blocks width = read_bands width (sort_key position blocks)"
  using reading_loop_bands [of "[]" "sort_key position blocks" "[]" width "[]"]
  by (simp add: reading_order_def read_bands.simps [of width "sort_key position blocks"] Let_def)

lemma mset_read_bands: "mset (read_bands width bs) = mset bs"
proof (induction width bs rule: read_bands.induct)
  case (1 width bs)
  let ?band = "takeWhile (\<lambda>b. \<not> crosses width b) bs" and ?after = "dropWhile (\<lambda>b. \<not> crosses width b) bs"
  have "mset (case ?after of [] \<Rightarrow> [] | c # rest \<Rightarrow> c # read_bands width rest) = mset ?after"
    using 1 by (auto split: list.split)
  moreover have "mset bs = mset ?band + mset ?after"
    by (metis mset_append takeWhile_dropWhile_id)
  ultimately show ?case
    by (simp add: read_bands.simps [of width bs] Let_def)
qed

lemma set_reading_order [simp]: "set (reading_order blocks width) = set blocks"
  by (metis mset_read_bands mset_sort reading_order_bands set_mset_mset)

section \<open>What is kept of the text\<close>

lemma set_py_join: "c \<in> set (py_join sep ws) \<Longrightarrow> c \<in> set sep \<or> (\<exists>w \<in> set ws. c \<in> set w)"
  by (induction sep ws rule: py_join.induct) auto

lemma py_join_word: "w \<in> set ws \<Longrightarrow> set w \<subseteq> set (py_join sep ws)"
  by (induction sep ws rule: py_join.induct) auto

lemma clean_text_chars:
  assumes "c \<in> set (clean_text U raw)"
  shows "c = 32 \<or> \<not> py_isspace c \<and> c \<noteq> REPLACEMENT_CHARACTER \<and> u_category U c \<notin> set DROPPED_CATEGORIES"
proof -
  from set_py_join assms consider "c = 32"
    | w where "w \<in> set (py_split (filter (readable U) (u_nfc U raw)))" "c \<in> set w"
    unfolding clean_text_def by fastforce
  then show ?thesis
  proof cases
    case 2
    with py_split_words [OF 2(1)] show ?thesis by (auto simp: readable_def)
  qed simp
qed

lemma clean_text_visible:
  assumes "clean_text U raw \<noteq> []"
  shows "\<exists>c \<in> set (clean_text U raw). \<not> py_isspace c"
proof -
  let ?ws = "py_split (filter (readable U) (u_nfc U raw))"
  from assms obtain w where w: "w \<in> set ?ws" by (cases ?ws) (auto simp: clean_text_def)
  with py_split_words [OF w] obtain c where "c \<in> set w" "\<not> py_isspace c" by (cases w) auto
  with py_join_word [OF w] show ?thesis unfolding clean_text_def by blast
qed

text \<open>The two facts about the Unicode character database that PostgreSQL's text type relies on.\<close>

definition unicode_sane :: "unicode \<Rightarrow> bool" where
  "unicode_sane U \<longleftrightarrow> u_category U 0 = ''Cc'' \<and> (\<forall>c. is_surrogate c \<longrightarrow> u_category U c = ''Cs'')"

lemma clean_text_fits: "unicode_sane U \<Longrightarrow> text_fits (clean_text U raw)"
  using clean_text_chars [of _ U raw]
  by (fastforce simp: text_fits_def list_all_iff unicode_sane_def DROPPED_CATEGORIES_def is_surrogate_def)

lemma layout_text:
  assumes "layout_block U b = Inr l" and "block_lines U b \<noteq> []"
  shows "py_strip (lb_text l) \<noteq> []" and "unicode_sane U \<Longrightarrow> text_fits (lb_text l)"
proof -
  have l: "lb_text l = py_join [10] (block_lines U b)"
    using assms(1) by (auto simp: layout_block_def split: prod.splits)
  have lines: "\<exists>raw. t = clean_text U raw \<and> t \<noteq> []" if "t \<in> set (block_lines U b)" for t
    using that by (auto simp: block_lines_def)
  obtain t where t: "t \<in> set (block_lines U b)" using assms(2) by (cases "block_lines U b") auto
  with lines [OF t] clean_text_visible py_join_word [OF t, of "[10]"] show "py_strip (lb_text l) \<noteq> []"
    unfolding py_strip_Nil_iff l by blast
  show "text_fits (lb_text l)" if U: "unicode_sane U"
    unfolding l text_fits_def list_all_iff
  proof
    fix c assume "c \<in> set (py_join [10] (block_lines U b))"
    from set_py_join [OF this] lines clean_text_fits [OF U] show "c \<noteq> 0 \<and> \<not> is_surrogate c"
      by (auto simp: text_fits_def list_all_iff is_surrogate_def)
  qed
qed

section \<open>What extraction returns\<close>

lemma map_result_Inl: "map_result f xs = Inl e \<Longrightarrow> \<exists>x \<in> set xs. f x = Inl e"
  by (induction xs) (auto simp: bind_result_eq_Inl)

lemma map_result_in:
  assumes "map_result f xs = Inr ys" and "y \<in> set ys"
  shows "\<exists>x \<in> set xs. f x = Inr y"
  using map_result_Inr [OF assms(1)] assms(2) by (force simp: list_all2_conv_all_nth in_set_conv_nth)

lemma extract_page_result:
  assumes "extract_page U document i = Inr p" and "0 \<le> i"
  shows "ep_page_number p = i + 1 \<and> wf_page p
    \<and> (unicode_sane U \<longrightarrow> list_all (\<lambda>b. text_fits (tb_text b)) (ep_blocks p))"
proof -
  obtain page blocks texts where page: "page_blocks U page = Inr blocks"
    and texts: "map_result (\<lambda>b. mk_text_block (lb_text b) (lb_font_size b)) (reading_order blocks (pp_width page)) = Inr texts"
    and p: "mk_page (i + 1) texts = Inr p"
    using assms(1) by (auto simp: extract_page_def split: option.splits)
  have fits: "text_fits (tb_text b)" if "unicode_sane U" "b \<in> set texts" for b
  proof -
    from map_result_in [OF texts that(2)] obtain l where l: "l \<in> set blocks" "mk_text_block (lb_text l) (lb_font_size l) = Inr b"
      by auto
    from map_result_in [OF page [unfolded page_blocks_def] l(1)] layout_text(2) that(1)
    have "text_fits (lb_text l)" by auto
    with l(2) show ?thesis by (auto simp: mk_text_block_def split: if_splits)
  qed
  have "list_all wf_text_block texts"
    using map_result_in [OF texts] mk_text_block_wf by (fastforce simp: list_all_iff)
  with p fits assms(2) show ?thesis
    by (auto simp: mk_page_def wf_page_def list_all_iff split: if_splits)
qed

lemma extract_page_error:
  assumes "extract_page U document i = Inl e" shows "e = OtherError \<or> e = ValueError"
proof -
  have sizes: "dominant_size z = Inl e \<Longrightarrow> e = ValueError" for z
    by (auto simp: dominant_size_def split: list.splits)
  have "page_blocks U page = Inl e \<Longrightarrow> e = ValueError" for page
    by (auto simp: page_blocks_def layout_block_def bind_result_eq_Inl dest!: map_result_Inl sizes split: prod.splits)
  with assms show ?thesis
    by (auto simp: extract_page_def mk_page_def mk_text_block_def bind_result_eq_Inl dest!: map_result_Inl
        split: option.splits if_splits)
qed

lemma upto_shift: "map (\<lambda>i. i + 1) [a..b] = [a + 1..b + (1::int)]"
  by (induction a b rule: upto.induct) (simp add: upto.simps)

lemma extracted_pages:
  assumes "map_result (extract_page U document) [0..n - 1] = Inr pages"
  shows "map ep_page_number pages = [1..n] \<and> list_all wf_page pages
    \<and> (unicode_sane U \<longrightarrow> list_all (\<lambda>p. list_all (\<lambda>b. text_fits (tb_text b)) (ep_blocks p)) pages)"
proof -
  have all2: "list_all2 (\<lambda>i p. extract_page U document i = Inr p) [0..n - 1] pages"
    by (rule map_result_Inr [OF assms])
  then have "list_all2 (\<lambda>i p. ep_page_number p = i + 1) [0..n - 1] pages"
    by (rule list.rel_mono_strong) (auto dest: extract_page_result)
  then have "map ep_page_number pages = map (\<lambda>i. i + 1) [0..n - 1]"
    by (auto simp: list_all2_conv_all_nth list_eq_iff_nth_eq nth_upto)
  with map_result_in [OF assms] extract_page_result show ?thesis
    using upto_shift [of 0 "n - 1"] by (fastforce simp: list_all_iff)
qed

lemma extract_pdf_text_error:
  assumes "extract_pdf_text U open_pdf data max_pages = Inl e"
  shows "e \<in> PdfExtractionError ` {OPEN_FAILED, ExtractionFailure.ENCRYPTED, ExtractionFailure.PAGE_LIMIT_EXCEEDED, PARSE_FAILED}"
proof (cases "open_pdf data")
  case (Some document)
  show ?thesis
  proof (cases "map_result (extract_page U document) [0..pd_page_count document - 1]")
    case (Inl e')
    with map_result_Inl [OF Inl] extract_page_error Some assms show ?thesis
      by (fastforce simp: extract_pdf_text_def is_Exception_def split: if_splits)
  next
    case (Inr pages)
    with extracted_pages [OF Inr] Some assms show ?thesis
      by (auto simp: extract_pdf_text_def mk_extracted_text_def split: if_splits)
  qed
qed (use assms in \<open>simp add: extract_pdf_text_def\<close>)

section \<open>Font sizes\<close>

definition size_weight :: "(rat \<times> nat) list \<Rightarrow> rat \<Rightarrow> nat" where
  "size_weight sizes points = (case map_of sizes points of None \<Rightarrow> 0 | Some n \<Rightarrow> n)"

text \<open>How many characters of these spans are set in this size.\<close>

definition characters_at :: "unicode \<Rightarrow> pdf_span list \<Rightarrow> rat \<Rightarrow> nat" where
  "characters_at U spans points =
     sum_list (map (\<lambda>sn. if round_tenth (sn_size sn) = points then length (clean_text U (sn_text sn)) else 0) spans)"

lemma add_size_weight: "size_weight (add_size p n sizes) s = size_weight sizes s + (if s = p then n else 0)"
  by (induction p n sizes rule: add_size.induct) (auto simp: size_weight_def split: option.splits)

lemma add_size_keys: "fst ` set (add_size p n sizes) = insert p (fst ` set sizes)"
  by (induction p n sizes rule: add_size.induct) auto

lemma add_size_distinct: "distinct (map fst sizes) \<Longrightarrow> distinct (map fst (add_size p n sizes))"
proof (induction p n sizes rule: add_size.induct)
  case (2 p n s m sizes)
  then show ?case using add_size_keys [of p n sizes] by (auto simp: image_iff)
qed simp

lemma count_spans:
  "distinct (map fst sizes) \<Longrightarrow> distinct (map fst (foldl (count_span U) sizes spans))
    \<and> size_weight (foldl (count_span U) sizes spans) s = size_weight sizes s + characters_at U spans s"
proof (induction spans arbitrary: sizes)
  case (Cons sn spans)
  have "distinct (map fst (count_span U sizes sn))"
    using Cons.prems by (simp add: count_span_def Let_def add_size_distinct)
  moreover have "size_weight (count_span U sizes sn) s = size_weight sizes s + characters_at U [sn] s"
    by (auto simp: count_span_def Let_def add_size_weight characters_at_def)
  ultimately show ?case using Cons.IH by (simp add: characters_at_def)
qed (simp add: characters_at_def)

definition heavier :: "rat \<times> nat \<Rightarrow> rat \<times> nat \<Rightarrow> rat \<times> nat" where
  "heavier a b = (if (snd a, fst a) < (snd b, fst b) then b else a)"

lemma foldl_heavier:
  "foldl heavier a items \<in> set (a # items)
    \<and> (\<forall>x \<in> set (a # items). (snd x, fst x) \<le> (snd (foldl heavier a items), fst (foldl heavier a items)))"
proof (induction items arbitrary: a)
  case (Cons b items)
  let ?k = "\<lambda>x :: rat \<times> nat. (snd x, fst x)" and ?h = "heavier a b"
  have le: "?k a \<le> ?k ?h" "?k b \<le> ?k ?h" and h: "?h = a \<or> ?h = b"
    by (auto simp: heavier_def)
  have "?k ?h \<le> ?k (foldl heavier ?h items)" and rest: "\<forall>x \<in> set items. ?k x \<le> ?k (foldl heavier ?h items)"
    and mem: "foldl heavier ?h items \<in> set (?h # items)"
    using Cons [of ?h] by simp_all
  then have "?k a \<le> ?k (foldl heavier ?h items)" "?k b \<le> ?k (foldl heavier ?h items)"
    using order_trans [OF le(1)] order_trans [OF le(2)] by blast+
  with rest mem h show ?case by (simp del: less_eq_prod_simp) metis
qed simp

lemma dominant_size_max:
  assumes "dominant_size sizes = Inr p" and "distinct (map fst sizes)"
  shows "size_weight sizes s < size_weight sizes p \<or> size_weight sizes s = size_weight sizes p \<and> (s \<le> p \<or> size_weight sizes s = 0)"
proof -
  obtain a items where sz: "sizes = a # items" using assms(1) by (cases sizes) (simp_all add: dominant_size_def)
  let ?m = "foldl heavier a items"
  have p: "p = fst ?m"
    using assms(1) unfolding sz by (simp add: dominant_size_def heavier_def [abs_def] fun_eq_iff)
  have m: "?m \<in> set sizes" and max: "\<forall>x \<in> set sizes. (snd x, fst x) \<le> (snd ?m, fst ?m)"
    using foldl_heavier [of a items] unfolding sz by blast+
  have pm: "size_weight sizes p = snd ?m"
  proof -
    have "map_of sizes (fst ?m) = Some (snd ?m)"
      using assms(2) m by (intro map_of_is_SomeI) simp_all
    then show ?thesis by (simp add: size_weight_def p)
  qed
  show ?thesis
  proof (cases "map_of sizes s")
    case (Some n)
    then have "(s, n) \<in> set sizes" by (rule map_of_SomeD)
    with max have "(n, s) \<le> (snd ?m, fst ?m)" by fastforce
    with Some pm p show ?thesis by (auto simp: size_weight_def less_eq_prod_def)
  qed (auto simp: size_weight_def)
qed

section \<open>Properties\<close>

text \<open>
  C15. The text of a page comes out in the order a person reads it, and all of it comes out:
  \<open>reading_order\<close> is the walk down the page that reads, between two blocks crossing the middle, first
  the left column and then the right one (\<open>read_bands\<close>); its result is a permutation of the blocks;
  and a page of one column comes out from top to bottom.
\<close>

theorem reads_column_by_column:
  "reading_order blocks width = read_bands width (sort_key position blocks)
    \<and> mset (reading_order blocks width) = mset blocks
    \<and> (list_all (crosses width) blocks \<longrightarrow> reading_order blocks width = sort_key position blocks)"
proof -
  have "list_all (crosses width) bs \<Longrightarrow> read_bands width bs = bs" for bs
    by (induction bs) (simp_all add: read_bands_simps)
  then have "list_all (crosses width) blocks \<Longrightarrow> read_bands width (sort_key position blocks) = sort_key position blocks"
    by (simp add: list_all_iff)
  then show ?thesis by (simp add: reading_order_bands mset_read_bands)
qed

definition example_block :: "rat \<Rightarrow> rat \<Rightarrow> rat \<Rightarrow> LayoutBlock" where
  "example_block x0 y0 x1 = \<lparr>lb_x0 = x0, lb_y0 = y0, lb_x1 = x1, lb_y1 = y0 + 10, lb_text = [65], lb_font_size = 10\<rparr>"

theorem reads_column_by_column_witness:
  "reading_order [example_block 10 50 90, example_block 10 20 90] 100 = [example_block 10 20 90, example_block 10 50 90]"
proof -
  let ?bs = "[example_block 10 50 90, example_block 10 20 90]"
  have "sort_key position ?bs = [example_block 10 20 90, example_block 10 50 90]"
    by (simp add: example_block_def position_def)
  moreover have "list_all (crosses 100) ?bs"
    by (simp add: example_block_def crosses_def GUTTER_TOLERANCE_def)
  ultimately show ?thesis using reads_column_by_column [of ?bs 100] by argo
qed


definition example_unicode :: unicode where
  "example_unicode = ascii_unicode\<lparr>u_category := \<lambda>c. if is_surrogate c then ''Cs'' else ascii_category c\<rparr>"

definition example_pdf :: pdf_document where
  "example_pdf = \<lparr>pd_needs_pass = False, pd_page_count = 1, pd_load_page = \<lambda>_. Some \<lparr>pp_width = 100,
     pp_blocks = [\<lparr>bk_type = Some 0, bk_lines = [[\<lparr>sn_text = [65, 0, 66], sn_size = 10\<rparr>]], bk_bbox = (0, 0, 50, 10)\<rparr>]\<rparr>\<rparr>"


text \<open>
  The font size of a block, by which headings are told from body text, is the size most of its
  characters are set in, and the larger one of two that are equally frequent.
\<close>

theorem block_font_size_is_dominant:
  assumes "layout_block U b = Inr l"
  shows "let chars = characters_at U (concat (bk_lines b)) in
    chars points < chars (lb_font_size l)
    \<or> chars points = chars (lb_font_size l) \<and> (points \<le> lb_font_size l \<or> chars points = 0)"
proof -
  have "dominant_size (block_sizes U b) = Inr (lb_font_size l)"
    using assms by (auto simp: layout_block_def split: prod.splits)
  moreover have "distinct (map fst (block_sizes U b))"
    and "size_weight (block_sizes U b) s = characters_at U (concat (bk_lines b)) s" for s
    using count_spans [of "[]" U "concat (bk_lines b)"] by (simp_all add: block_sizes_def size_weight_def)
  ultimately show ?thesis using dominant_size_max [of "block_sizes U b" "lb_font_size l" points] by simp
qed

theorem block_font_size_is_dominant_witness:
  "\<exists>l. layout_block example_unicode (hd (pp_blocks (the (pd_load_page example_pdf 0)))) = Inr l \<and> lb_font_size l = 10
    \<and> characters_at example_unicode [\<lparr>sn_text = [65, 0, 66], sn_size = 10\<rparr>] 12 < 2"
proof -
  have clean: "clean_text example_unicode [65, 0, 66] = [65, 66]"
    by (simp add: clean_text_def example_unicode_def ascii_unicode_def readable_def py_isspace_def REPLACEMENT_CHARACTER_def
        DROPPED_CATEGORIES_def ascii_category_def is_surrogate_def py_split_def)
  let ?b = "hd (pp_blocks (the (pd_load_page example_pdf 0)))"
  obtain l where l: "layout_block example_unicode ?b = Inr l" "lb_font_size l = 10"
    by (simp add: example_pdf_def layout_block_def block_lines_def block_sizes_def count_span_def clean dominant_size_def
        round_tenth_def round_half_even_def Let_def)
  from block_font_size_is_dominant [OF l(1), of 12] l show ?thesis
    by (simp add: example_pdf_def characters_at_def round_tenth_def round_half_even_def clean Let_def)
qed

end
