(* ===== verification/Worker.thy ===== *)
theory Worker
  imports Effects Queue Settings Embedding PdfExtraction ReadyDocuments
begin

text \<open>
  \<open>backend/ingestion/worker.py\<close>: what the ARQ worker does around the ingestion service. \<open>startup\<close>
  is the composition root: it builds the collaborators from the settings, or refuses to start.
  \<open>ingest_document\<close> turns a delivery into a result or into \<open>Retry\<close>, and gives up on the last
  attempt. ARQ's context is the record \<open>worker\<close>; \<open>job_try\<close> is ARQ's count of attempts.
\<close>

definition RETRY_DELAYS_SECONDS :: "int list" where
  "RETRY_DELAYS_SECONDS = [2, 10, 30, 60]"

definition RECOVERY_BATCH_SIZE :: nat where
  "RECOVERY_BATCH_SIZE = 500"

definition retry_delay_seconds :: "int \<Rightarrow> int" where
  "retry_delay_seconds job_try =
     RETRY_DELAYS_SECONDS ! (nat (min (max job_try 1) (int (length RETRY_DELAYS_SECONDS)) - 1))"

definition refuse_chunks_the_model_cannot_read :: "int \<Rightarrow> provider \<Rightarrow> (exn, unit) result" where
  "refuse_chunks_the_model_cannot_read chunk_size p =
     (let budget = chunk_size + SPECIAL_TOKENS_PER_SEQUENCE in
      if pr_max_input_tokens p < budget then Inl RuntimeError else Inr ())"

section \<open>Startup\<close>

text \<open>What the process was given: the model loader, the catalogue, the vector store's service.\<close>

record 'q outside =
  out_load :: "ustr \<Rightarrow> fastembed option"
  out_declared :: "ustr \<Rightarrow> int option"
  out_qdrant :: "'q qdrant"

record 'q worker =
  wk_extractor :: extractor
  wk_embedder :: provider
  wk_chunker :: chunker
  wk_version :: "ustr \<times> ustr"
  wk_qdrant :: "'q qdrant"
  wk_max_pages :: int
  wk_max_tries :: int
  wk_stale_seconds :: int

definition startup :: "'q outside \<Rightarrow> Settings \<Rightarrow> 'q \<Rightarrow> (exn, 'q worker) result \<times> 'q" where
  "startup out s store =
     (case bind_result (mk_extractor (of_int (INGEST_PARSE_TIMEOUT_SECONDS s)) (ARQ_MAX_JOBS s)) (\<lambda>extractor.
           bind_result (mk_provider (out_load out) (out_declared out) (EMBEDDING_MODEL s) (EMBEDDING_BATCH_SIZE s)) (\<lambda>p.
           bind_result (refuse_chunks_the_model_cannot_read (CHUNK_SIZE_TOKENS s) p) (\<lambda>_.
           bind_result (mk_chunker (pr_tokenizer p) (CHUNK_SIZE_TOKENS s) (CHUNK_OVERLAP_TOKENS s)) (\<lambda>ck.
             Inr \<lparr>wk_extractor = extractor, wk_embedder = p, wk_chunker = ck,
                  wk_version = (STRATEGY_VERSION, tk_id (pr_tokenizer p)), wk_qdrant = out_qdrant out,
                  wk_max_pages = MAX_PDF_PAGES s, wk_max_tries = INGEST_MAX_TRIES s,
                  wk_stale_seconds = INGEST_STALE_PROCESSING_SECONDS s\<rparr>))))
      of Inl e \<Rightarrow> (Inl e, store)
       | Inr wk \<Rightarrow>
           (case ensure_collection (wk_qdrant wk) (pr_dimension (wk_embedder wk)) store of
              (Inl e, store') \<Rightarrow> (Inl e, store')
            | (Inr _, store') \<Rightarrow> (Inr wk, store')))"

section \<open>The tasks\<close>

definition give_up :: "('q, 'r) service \<Rightarrow> IngestionJob \<Rightarrow> (('q, 'r) world, unit) prog" where
  "give_up sv job =
     tryP (record_given_up sv job) (\<lambda>e. if is_Exception e then Return () else Raise e) (\<lambda>_. Return ())"

definition invalid_job :: IngestionResult where
  "invalid_job = \<lparr>res_outcome = IngestionOutcome.REJECTED, res_document_id = None, res_reason = Some INVALID_JOB\<rparr>"

definition delivery_failed ::
  "('q, 'r) service \<Rightarrow> IngestionJob \<Rightarrow> int \<Rightarrow> bool \<Rightarrow> exn \<Rightarrow> (('q, 'r) world, IngestionResult) prog" where
  "delivery_failed sv job job_try final e =
     (case e of
        TransientIngestionError _ \<Rightarrow> Raise (Retry (retry_delay_seconds job_try))
      | _ \<Rightarrow>
          (if \<not> is_Exception e then Raise e
           else if final then bindP (give_up sv job) (\<lambda>_. Raise e)
           else Raise (Retry (retry_delay_seconds job_try))))"

definition ingest_document ::
  "('q, 'r) service \<Rightarrow> int \<Rightarrow> int \<Rightarrow> json \<Rightarrow> (('q, 'r) world, IngestionResult) prog" where
  "ingest_document sv max_tries job_try payload =
     (case job_validate payload of
        None \<Rightarrow> Return invalid_job
      | Some job \<Rightarrow>
          (let final = (max_tries \<le> job_try) in
           tryP (ingest sv job final) (delivery_failed sv job job_try final) Return))"

definition recover_pending_documents :: "('q, 'r) service \<Rightarrow> (('q, 'r) world, RecoveryResult) prog" where
  "recover_pending_documents sv = recover_pending sv RECOVERY_BATCH_SIZE"

definition reap_task :: "'q worker \<Rightarrow> (('q, 'r) world, ustr list) prog" where
  "reap_task wk = reap_stale_processing (wk_stale_seconds wk)"

section \<open>How a delivery ends\<close>

lemma retry_delay_bounds: "2 \<le> retry_delay_seconds t \<and> retry_delay_seconds t \<le> 60"
proof -
  have "nat (min (max t 1) 4 - 1) \<in> {0, 1, 2, 3}" by auto
  then show ?thesis unfolding retry_delay_seconds_def RETRY_DELAYS_SECONDS_def
    by (auto simp: numeral_eq_Suc)
qed

lemma retry_delay_mono:
  assumes "s \<le> t" shows "retry_delay_seconds s \<le> retry_delay_seconds t"
proof -
  have "nat (min (max s 1) 4 - 1) \<in> {0, 1, 2, 3}" "nat (min (max t 1) 4 - 1) \<in> {0, 1, 2, 3}"
    "nat (min (max s 1) 4 - 1) \<le> nat (min (max t 1) 4 - 1)"
    using assms by auto
  then show ?thesis unfolding retry_delay_seconds_def RETRY_DELAYS_SECONDS_def
    by (auto simp: numeral_eq_Suc)
qed

text \<open>The collaborators raise no exception that is a signal of the service or of the worker.\<close>

definition well_behaved :: "('q, 'r) service \<Rightarrow> bool" where
  "well_behaved sv \<longleftrightarrow> (\<forall>texts e. sv_embed sv texts = Inl e \<longrightarrow> \<not> is_signal e)
     \<and> (\<forall>job q e q'. sv_enqueue sv job q = (Inl e, q') \<longrightarrow> \<not> is_signal e)"

lemma well_behaved_effects:
  "well_behaved sv \<Longrightarrow> system_effects sv (\<lambda>_. True) (\<lambda>_ _. True) (\<lambda>e. \<not> is_signal e)"
  unfolding well_behaved_def by unfold_locales (simp_all, blast+)

definition task_ends :: "int \<Rightarrow> int \<Rightarrow> (exn, 'a) result \<Rightarrow> bool" where
  "task_ends max_tries job_try r \<longleftrightarrow> (case r of Inr _ \<Rightarrow> True | Inl e \<Rightarrow> e = CancelledError
     \<or> (if job_try < max_tries then e = Retry (retry_delay_seconds job_try) else \<not> is_signal e))"

lemma ends_give_up:
  assumes "well_behaved sv"
  shows "does (raising (\<lambda>e. \<not> is_signal e)) (on_db (\<lambda>_ _. True)) (\<lambda>r. \<forall>e. r = Inl e \<longrightarrow> e = CancelledError) (give_up sv job)"
proof -
  note fx = well_behaved_effects [OF assms]
  show ?thesis unfolding give_up_def
    by (rule does_tryP [OF system_effects.fine_given_up [OF fx]]) (auto simp: is_Exception_def)
qed

lemma ends_ingest_document:
  assumes "well_behaved sv"
  shows "does (raising (\<lambda>e. \<not> is_signal e)) (on_db (\<lambda>_ _. True)) (task_ends max_tries job_try)
    (ingest_document sv max_tries job_try payload)"
proof (cases "job_validate payload")
  case (Some job)
  note fx = well_behaved_effects [OF assms]
  have handler: "does (raising (\<lambda>e. \<not> is_signal e)) (on_db (\<lambda>_ _. True)) (task_ends max_tries job_try)
      (delivery_failed sv job job_try (max_tries \<le> job_try) e)"
    if "system_effects.delivers (\<lambda>e. \<not> is_signal e) (max_tries \<le> job_try) (Inl e :: (exn, IngestionResult) result)" for e
  proof -
    have e: "\<not> is_signal e \<or> job_try < max_tries \<and> (\<exists>x. e = TransientIngestionError x)"
      using that unfolding system_effects.delivers_def [OF fx] by auto
    show ?thesis
    proof (cases "max_tries \<le> job_try \<and> is_Exception e")
      case True
      with e have d: "delivery_failed sv job job_try (max_tries \<le> job_try) e = bindP (give_up sv job) (\<lambda>_. Raise e)"
        by (cases e) (auto simp: delivery_failed_def)
      show ?thesis unfolding d
        by (rule does_bindP [OF ends_give_up [OF assms]]) (use True e in \<open>auto simp: task_ends_def\<close>)
    next
      case False
      with e show ?thesis by (cases e) (auto simp: delivery_failed_def task_ends_def is_Exception_def)
    qed
  qed
  show ?thesis
    unfolding ingest_document_def Some Let_def option.case
    by (rule does_tryP [OF system_effects.delivery_ingest [OF fx]]) (auto simp: task_ends_def handler)
qed (simp add: ingest_document_def task_ends_def)

section \<open>Properties\<close>

text \<open>
  C11. No delivery is retried for ever. Whatever fails around a delivery, before the last attempt it
  ends in a result, in its cancellation or in a retry after at least 2 and at most 60 seconds; on
  the last attempt it never asks for another one.
\<close>

theorem deliveries_end:
  assumes "well_behaved sv" and "list_all (raising (\<lambda>e. \<not> is_signal e)) cs"
  shows "case fst (run (ingest_document sv max_tries job_try payload) cs w) of
      Inr result \<Rightarrow> True
    | Inl e \<Rightarrow> e = CancelledError
        \<or> job_try < max_tries \<and> (\<exists>seconds. e = Retry seconds \<and> 2 \<le> seconds \<and> seconds \<le> 60)
        \<or> max_tries \<le> job_try \<and> (\<forall>seconds. e \<noteq> Retry seconds)"
proof -
  have "task_ends max_tries job_try (fst (run (ingest_document sv max_tries job_try payload) cs w))"
    using does_run [OF ends_ingest_document [OF assms(1)] _ assms(2)] by simp
  then show ?thesis
    using retry_delay_bounds [of job_try] by (auto simp: task_ends_def is_signal_def split: sum.splits if_splits)
qed


definition example_encode :: "ustr \<Rightarrow> (span \<times> bool) list" where
  "example_encode s = map (\<lambda>sp. (sp, False)) (regex_spans ascii_unicode 0 s)"

lemma example_encode_tokens: "fastembed_tokenize example_encode t = regex_spans ascii_unicode 0 t"
proof -
  have "list_all (\<lambda>x. fst x < snd x) (regex_spans ascii_unicode 0 t)"
    using regex.spans [of t ascii_unicode]
    by (auto simp: spans_ok_def list_all_iff regex_tokenizer_def regex_tokenize_def)
  then have "filter (\<lambda>x. fst x < snd x) (regex_spans ascii_unicode 0 t) = regex_spans ascii_unicode 0 t"
    by (simp add: list_all_iff filter_id_conv)
  then show ?thesis
    by (simp add: fastembed_tokenize_def example_encode_def filter_map comp_def)
qed

lemma example_tokenizer_visible: "visible_tokenizer (fastembed_tokenizer example_encode model)"
  using regex.spans [of _ ascii_unicode] regex_visible.visible [of _ ascii_unicode]
  by unfold_locales
    (simp_all add: fastembed_tokenizer_def fastembed_count_def example_encode_tokens regex_tokenizer_def regex_tokenize_def regex_count_def)

definition example_outside :: "(ustr \<Rightarrow> (vector \<times> mapping) option) outside" where
  "example_outside = \<lparr>out_load = \<lambda>_. Some \<lparr>fe_embed = \<lambda>ts. Some (map (\<lambda>_. [1, 0]) ts), fe_encode = Some example_encode,
     fe_max_length = 512\<rparr>, out_declared = \<lambda>_. None, out_qdrant = example_qdrant\<rparr>"


theorem deliveries_end_witness:
  "\<forall>seconds. fst (run (ingest_document example_service 2 2 (job_dump \<lparr>job_document_id = uuid_str 2, job_owner_id = uuid_str 1,
     job_storage_key = uuid_str 1 @ [47] @ replicate 64 97 @ py_str ''.pdf'', job_content_hash = replicate 64 97,
     job_mime_type = PDF_MIME_TYPE\<rparr>)) [FailBefore (DatabaseError OperationalError)] (staged_world DocumentStatus.PENDING))
   \<noteq> Inl (Retry seconds)"
proof -
  have "well_behaved example_service" by (simp add: well_behaved_def example_service_def)
  then have "fst (run (ingest_document example_service 2 2 payload) [FailBefore (DatabaseError OperationalError)] w) \<noteq> Inl (Retry n)"
    for payload w n
    using deliveries_end [of example_service "[FailBefore (DatabaseError OperationalError)]" 2 2 payload w] by auto
  then show ?thesis by blast
qed

end
