(* ===== verification/Schedule.thy ===== *)
theory Schedule
  imports Worker
begin

text \<open>
  \<open>backend/ingestion/worker_settings.py\<close>: what the ARQ worker is told to run, and when; and the
  connection settings of \<open>backend/ingestion/queue.py\<close>. ARQ itself is outside: a cron job is the
  seconds it names, and the properties here say what happens if ARQ fires it in them.
\<close>

section \<open>The worker's settings\<close>

datatype task = IngestDocument | ReapStaleProcessing | RecoverPendingDocuments

datatype hook = Startup | Shutdown

record RedisSettings =
  rs_host :: ustr
  rs_port :: int
  rs_database :: int
  rs_conn_timeout :: int
  rs_conn_retries :: int

definition redis_settings_from :: "Settings \<Rightarrow> int \<Rightarrow> RedisSettings" where
  "redis_settings_from s conn_retries =
     \<lparr>rs_host = REDIS_HOST s, rs_port = REDIS_PORT s, rs_database = REDIS_DB s, rs_conn_timeout = 1,
      rs_conn_retries = conn_retries\<rparr>"

record task_function =
  fn_coroutine :: task
  fn_name :: ustr
  fn_max_tries :: int
  fn_timeout :: int

record cron_job =
  cj_coroutine :: task
  cj_minute :: "int list"
  cj_second :: int
  cj_run_at_startup :: bool
  cj_unique :: bool

record worker_settings =
  ws_functions :: "task_function list"
  ws_cron_jobs :: "cron_job list"
  ws_on_startup :: hook
  ws_on_shutdown :: hook
  ws_redis_settings :: RedisSettings
  ws_max_jobs :: int
  ws_job_timeout :: int
  ws_max_tries :: int
  ws_keep_result :: int

definition ingest_function :: "Settings \<Rightarrow> task_function" where
  "ingest_function s = \<lparr>fn_coroutine = IngestDocument, fn_name = INGEST_DOCUMENT_TASK,
     fn_max_tries = INGEST_MAX_TRIES s, fn_timeout = INGEST_JOB_TIMEOUT_SECONDS s\<rparr>"

definition reaper_cron :: cron_job where
  "reaper_cron = \<lparr>cj_coroutine = ReapStaleProcessing, cj_minute = [0..59], cj_second = 0, cj_run_at_startup = True, cj_unique = True\<rparr>"

definition recovery_cron :: cron_job where
  "recovery_cron = \<lparr>cj_coroutine = RecoverPendingDocuments, cj_minute = [0..59], cj_second = 30, cj_run_at_startup = True, cj_unique = True\<rparr>"

definition WorkerSettings :: "Settings \<Rightarrow> worker_settings" where
  "WorkerSettings s =
     \<lparr>ws_functions = [ingest_function s], ws_cron_jobs = [reaper_cron, recovery_cron],
      ws_on_startup = Startup, ws_on_shutdown = Shutdown,
      ws_redis_settings = redis_settings_from s 5, ws_max_jobs = ARQ_MAX_JOBS s,
      ws_job_timeout = INGEST_JOB_TIMEOUT_SECONDS s, ws_max_tries = INGEST_MAX_TRIES s, ws_keep_result = 0\<rparr>"

section \<open>When a cron job is due\<close>

text \<open>The seconds since the epoch that a cron job names, and the instants inside them.\<close>

definition cron_names :: "cron_job \<Rightarrow> int \<Rightarrow> bool" where
  "cron_names j n \<longleftrightarrow> n div 60 mod 60 \<in> set (cj_minute j) \<and> n mod 60 = cj_second j"

definition cron_due :: "cron_job \<Rightarrow> timestamp \<Rightarrow> bool" where
  "cron_due j t \<longleftrightarrow> cron_names j (t div 1000000)"

abbreviation seconds :: "int \<Rightarrow> timestamp" where
  "seconds n \<equiv> 1000000 * n"

text \<open>A job that names every minute is due within any minute, at whatever microsecond ARQ fires.\<close>

lemma next_due:
  fixes x :: int
  assumes "0 \<le> m" "m < 1000000" and "k = (x - (1000000 * c + m)) div 60000000 + 1" and "n = 60 * k + c"
  shows "x < 1000000 * n + m" and "1000000 * n + m \<le> x + 60000000"
    and "(1000000 * n + m) div 1000000 = n" and "(1000000 * n + m) mod 1000000 = m"
proof -
  let ?y = "x - (1000000 * c + m)"
  have "?y = 60000000 * (?y div 60000000) + ?y mod 60000000" "0 \<le> ?y mod 60000000" "?y mod 60000000 < 60000000" by simp_all
  with assms(3,4) show "x < 1000000 * n + m" "1000000 * n + m \<le> x + 60000000" by linarith+
  show "(1000000 * n + m) div 1000000 = n" by (rule int_div_pos_eq [where r = m]) (use assms(1,2) in simp_all)
  show "(1000000 * n + m) mod 1000000 = m" by (rule int_mod_pos_eq [where q = n]) (use assms(1,2) in simp_all)
qed

lemma due_every_minute:
  assumes "cj_minute j = [0..59]" and "0 \<le> cj_second j" "cj_second j < 60" and "0 \<le> m" "m < 1000000"
  shows "\<exists>t. x < t \<and> t \<le> x + seconds 60 \<and> t mod 1000000 = m \<and> cron_due j t"
proof -
  obtain k n where k: "k = (x - (1000000 * cj_second j + m)) div 60000000 + 1" "n = 60 * k + cj_second j" by simp
  have "n mod 60 = cj_second j" by (rule int_mod_pos_eq [where q = k]) (use k(2) assms(2,3) in simp_all)
  with next_due [OF assms(4,5) k] assms(1) show ?thesis
    by (intro exI [of _ "seconds n + m"]) (simp add: cron_due_def cron_names_def)
qed

lemma never_due_together: "cron_due reaper_cron t \<Longrightarrow> \<not> cron_due recovery_cron t"
  by (simp add: cron_due_def cron_names_def reaper_cron_def recovery_cron_def)

section \<open>The reaper\<close>

text \<open>The same world at another instant of the database clock.\<close>

definition at_time :: "timestamp \<Rightarrow> ('q, 'r) world \<Rightarrow> ('q, 'r) world" where
  "at_time t w = w\<lparr>w_db := (w_db w)\<lparr>db_now := t\<rparr>\<rparr>"

lemma started_worker_threshold:
  "startup out s store = (Inr wk, store') \<Longrightarrow> wk_stale_seconds wk = INGEST_STALE_PROCESSING_SECONDS s"
  by (auto simp: startup_def split: sum.splits prod.splits)

lemma reason_fits: "varchar_fits 64 (py_str (reason_value STALE_PROCESSING))"
  by (rule reason_value_fits)

lemma reap_accepted:
  assumes "wf_db db"
  shows "\<exists>db'. documents_fail_stale_processing n (py_str (reason_value STALE_PROCESSING)) db =
      Inr (map (\<lambda>r. uuid_str (doc_id r)) (select_where (is_stale n (db_now db)) (db_documents db)), db') \<and> wf_db db'
    \<and> db_documents db' = update_where (is_stale n (db_now db))
        (move_status DocumentStatus.FAILED (Some (py_str (reason_value STALE_PROCESSING))) None (db_now db)) (db_documents db)"
proof -
  let ?rows = "update_where (is_stale n (db_now db))
    (move_status DocumentStatus.FAILED (Some (py_str (reason_value STALE_PROCESSING))) None (db_now db)) (db_documents db)"
  have docs: "documents_error (db_users db) (db_documents db) = None" using assms by (simp add: wf_db_def)
  have "documents_error (db_users db) ?rows = None"
    using docs reason_fits
    by (intro documents_error_update [OF docs]) (auto simp: documents_error_None row_kept_def document_fits_def move_status_def
      is_live_def reason_iff_failed_def)
  then have "write_documents ?rows db = Inr (db\<lparr>db_documents := ?rows\<rparr>)" by (simp add: write_documents_def)
  moreover have "wf_db (db\<lparr>db_documents := ?rows\<rparr>)"
    by (rule wf_db_write_documents [OF assms calculation]) (simp add: doc_ids_update)
  ultimately show ?thesis by (simp add: documents_fail_stale_processing_def)
qed

text \<open>Whatever fails, a row that is not stale stays as it is.\<close>

lemma reap_spares:
  assumes "run (reap_stale_processing n) cs w = (res, cs', w')" and "r \<in> set (db_documents (w_db w))" and "\<not> is_stale n (db_now (w_db w)) r"
  shows "r \<in> set (db_documents (w_db w'))"
  using assms
  by (auto simp: reap_stale_processing_def db_tx_def run_call documents_fail_stale_processing_def bind_result_eq_Inr
    split: choice.splits sum.splits prod.splits)

text \<open>Undisturbed, a row that is stale is failed and reported.\<close>

lemma reap_takes:
  assumes "wf_db (w_db w)" and "r \<in> set (db_documents (w_db w))" and "is_stale n t r"
  shows "\<exists>ids w'. run (reap_stale_processing n) [] (at_time t w) = (Inr ids, [], w') \<and> wf_db (w_db w') \<and> uuid_str (doc_id r) \<in> set ids
    \<and> (\<exists>r' \<in> set (db_documents (w_db w')). owned_live (doc_id r) (doc_user_id r) r' \<and> doc_status r' = DocumentStatus.FAILED
        \<and> doc_failure_reason r' = Some (py_str ''stale_processing''))"
proof -
  let ?f = "move_status DocumentStatus.FAILED (Some (py_str (reason_value STALE_PROCESSING))) None t"
  obtain db' where reap: "documents_fail_stale_processing n (py_str (reason_value STALE_PROCESSING)) (w_db (at_time t w))
      = Inr (map (\<lambda>r. uuid_str (doc_id r)) (select_where (is_stale n t) (db_documents (w_db w))), db')"
    and db': "wf_db db'" "db_documents db' = update_where (is_stale n t) ?f (db_documents (w_db w))"
    using reap_accepted [of "w_db (at_time t w)" n] assms(1) by (auto simp: at_time_def)
  have "run (reap_stale_processing n) [] (at_time t w) =
      (Inr (map (\<lambda>r. uuid_str (doc_id r)) (select_where (is_stale n t) (db_documents (w_db w)))), [], (at_time t w)\<lparr>w_db := db'\<rparr>)"
    unfolding reap_stale_processing_def run_db_tx reap by simp
  moreover have "?f r \<in> set (db_documents db')"
    unfolding db'(2) using assms(2,3) by (rule update_where_changes [where p = "is_stale n t"])
  moreover have "is_live r" using assms(3) by (simp add: is_stale_def)
  ultimately show ?thesis
    using db'(1) assms(2,3) by (intro exI conjI bexI [of _ "?f r"]) (auto simp: select_where_def owned_live_def)
qed

section \<open>The recovery sweep\<close>

text \<open>
  A row whose storage key is not the one its owner and hash give is skipped, and stays where it is:
  with a batch of such rows the oldest, a sweep does nothing, and neither does the next.
\<close>

lemma recover_loop_skips:
  assumes "\<forall>t \<in> set targets. job_from_row (sv_unicode sv) t = None"
  shows "run (recover_loop sv targets requeued already skips) [] w =
    (Inr \<lparr>rec_requeued = requeued, rec_already_queued = already, rec_skipped = skips + length targets\<rparr>, [], w)"
  using assms by (induction targets arbitrary: skips) simp_all

lemma unusable_rows_starve_the_sweep:
  assumes "documents_list_for_recovery RECOVERABLE_STATUSES RECOVERY_BATCH_SIZE (w_db w) = Inr targets"
    and "\<forall>t \<in> set targets. job_from_row (sv_unicode sv) t = None"
  shows "run (recover_pending_documents sv) [] w =
    (Inr \<lparr>rec_requeued = [], rec_already_queued = 0, rec_skipped = length targets\<rparr>, [], w)"
  using assms recover_loop_skips [OF assms(2), of "[]" 0 0 w]
  by (simp add: recover_pending_documents_def recover_pending_def db_read_def run_simps)

section \<open>Properties\<close>

text \<open>
  C18. A claim whose worker is gone does not outlive the threshold by more than a minute, and no
  claim of a worker that may still be alive is touched. Under settings that start, and at whatever
  microsecond of its second ARQ fires it, the reaper is due within sixty seconds after a document's
  claim has become stale, and run then it fails the document with the reason \<open>stale_processing\<close> and
  reports it; run at any time up to the job timeout after the claim, at which ARQ cancels the job, it
  leaves the row as it is, whatever fails; and the recovery sweep is never due in the same second.
\<close>

theorem abandoned_claims_are_reaped:
  assumes "mk_settings U s = Inr s'" and "startup out s' store = (Inr wk, store')"
    and "wf_db (w_db w)" and "r \<in> set (db_documents (w_db w))" and "is_live r" and "doc_status r = DocumentStatus.PROCESSING"
    and "0 \<le> m" and "m < 1000000"
  shows "(\<exists>j \<in> set (ws_cron_jobs (WorkerSettings s')). \<exists>t ids w'. cj_coroutine j = ReapStaleProcessing
      \<and> cron_due j t \<and> t mod 1000000 = m \<and> t \<le> doc_updated_at r + seconds (INGEST_STALE_PROCESSING_SECONDS s + 60)
      \<and> run (reap_task wk) [] (at_time t w) = (Inr ids, [], w') \<and> wf_db (w_db w') \<and> uuid_str (doc_id r) \<in> set ids
      \<and> (\<exists>r' \<in> set (db_documents (w_db w')). owned_live (doc_id r) (doc_user_id r) r' \<and> doc_status r' = DocumentStatus.FAILED
          \<and> doc_failure_reason r' = Some (py_str ''stale_processing'')))
    \<and> (\<forall>t cs res cs' w'. t \<le> doc_updated_at r + seconds (ws_job_timeout (WorkerSettings s')) \<longrightarrow>
        run (reap_task wk) cs (at_time t w) = (res, cs', w') \<longrightarrow> r \<in> set (db_documents (w_db w')))
    \<and> (\<forall>j \<in> set (ws_cron_jobs (WorkerSettings s')). \<forall>k \<in> set (ws_cron_jobs (WorkerSettings s')). \<forall>t. j \<noteq> k \<longrightarrow> cron_due j t \<longrightarrow> \<not> cron_due k t)"
proof -
  have s: "s' = s" "INGEST_JOB_TIMEOUT_SECONDS s < INGEST_STALE_PROCESSING_SECONDS s"
    using started_settings_are_workable [OF assms(1)] assms(1) by (simp_all add: mk_settings_def split: if_splits)
  have task: "(reap_task wk :: (('a, 'b) world, ustr list) prog) = reap_stale_processing (INGEST_STALE_PROCESSING_SECONDS s)"
    using started_worker_threshold [OF assms(2)] s(1) by (simp add: reap_task_def)
  have due: "cj_minute reaper_cron = [0..59]" "0 \<le> cj_second reaper_cron" "cj_second reaper_cron < 60"
    by (simp_all add: reaper_cron_def)
  obtain t where t: "doc_updated_at r + seconds (INGEST_STALE_PROCESSING_SECONDS s) < t"
    "t \<le> doc_updated_at r + seconds (INGEST_STALE_PROCESSING_SECONDS s) + seconds 60" "t mod 1000000 = m" "cron_due reaper_cron t"
    using due_every_minute [OF due assms(7,8)] by blast
  have "is_stale (INGEST_STALE_PROCESSING_SECONDS s) t r"
    using t(1) assms(5,6) by (simp add: is_stale_def)
  note reaped = reap_takes [OF assms(3,4) this]
  show ?thesis
  proof (intro conjI)
    show "\<exists>j \<in> set (ws_cron_jobs (WorkerSettings s')). \<exists>t ids w'. cj_coroutine j = ReapStaleProcessing
      \<and> cron_due j t \<and> t mod 1000000 = m \<and> t \<le> doc_updated_at r + seconds (INGEST_STALE_PROCESSING_SECONDS s + 60)
      \<and> run (reap_task wk) [] (at_time t w) = (Inr ids, [], w') \<and> wf_db (w_db w') \<and> uuid_str (doc_id r) \<in> set ids
      \<and> (\<exists>r' \<in> set (db_documents (w_db w')). owned_live (doc_id r) (doc_user_id r) r' \<and> doc_status r' = DocumentStatus.FAILED
          \<and> doc_failure_reason r' = Some (py_str ''stale_processing''))"
      using t(2-4) reaped by (intro bexI [of _ reaper_cron] exI [of _ t]) (simp_all add: task WorkerSettings_def reaper_cron_def)
    show "\<forall>t cs res cs' w'. t \<le> doc_updated_at r + seconds (ws_job_timeout (WorkerSettings s')) \<longrightarrow>
        run (reap_task wk) cs (at_time t w) = (res, cs', w') \<longrightarrow> r \<in> set (db_documents (w_db w'))"
      using s assms(4) by (auto simp: task at_time_def WorkerSettings_def is_stale_def elim!: reap_spares)
  qed (use never_due_together in \<open>auto simp: WorkerSettings_def\<close>)
qed

theorem abandoned_claims_are_reaped_witness:
  "\<exists>wk t ids w'. startup example_outside default_settings Map.empty = (Inr wk, Map.empty) \<and> cron_due reaper_cron t
    \<and> run (reap_task wk) [] (at_time t (staged_world DocumentStatus.PROCESSING)) = (Inr ids, [], w') \<and> uuid_str 2 \<in> set ids"
proof -
  obtain wk where wk: "startup example_outside default_settings Map.empty = (Inr wk, Map.empty)"
    by (simp add: startup_def example_outside_def default_settings_def mk_extractor_def mk_provider_def run_model_def
        refuse_chunks_the_model_cannot_read_def SPECIAL_TOKENS_PER_SEQUENCE_def mk_chunker_def ensure_collection_def
        example_qdrant_def del: py_str_simps)
  have r: "example_row DocumentStatus.PROCESSING 1 \<in> set (db_documents (w_db (staged_world DocumentStatus.PROCESSING)))"
    "is_live (example_row DocumentStatus.PROCESSING 1)" "doc_status (example_row DocumentStatus.PROCESSING 1) = DocumentStatus.PROCESSING"
    "doc_id (example_row DocumentStatus.PROCESSING 1) = 2"
    by (simp_all add: staged_world_def staged_db_def example_row_def is_live_def)
  have wf: "wf_db (w_db (staged_world DocumentStatus.PROCESSING))"
    by (simp add: staged_world_def staged_db_wf)
  from abandoned_claims_are_reaped [OF default_settings_start wk wf r(1-3), of 0] r(4) wk show ?thesis
    by (auto simp: WorkerSettings_def recovery_cron_def)
qed

end
