(* ===== verification/Passwords.thy ===== *)
theory Passwords
  imports Domain
begin

text \<open>
  \<open>backend/security/passwords.py\<close>. bcrypt is a library and a parameter: \<open>bc_gensalt\<close> is its random
  salt (its argument stands for the randomness), \<open>bc_checkpw\<close> may raise. A password is compared only
  in its normal form NFKC, and the policy counts characters and bytes of that form.
\<close>

record bcrypt =
  bc_gensalt :: "nat \<Rightarrow> bytes"
  bc_hashpw :: "bytes \<Rightarrow> bytes \<Rightarrow> bytes"
  bc_checkpw :: "bytes \<Rightarrow> bytes \<Rightarrow> (exn, bool) result"

definition MINIMUM_LENGTH :: nat where
  "MINIMUM_LENGTH = 12"

definition MAXIMUM_BYTES :: nat where
  "MAXIMUM_BYTES = 72"

definition normalize_password :: "unicode \<Rightarrow> ustr \<Rightarrow> ustr" where
  "normalize_password U raw = u_nfkc U raw"

text \<open>\<open>str.encode("utf-8")\<close> raises \<open>UnicodeEncodeError\<close>, a \<open>ValueError\<close>, for a lone surrogate.\<close>

definition py_encode :: "ustr \<Rightarrow> (exn, bytes) result" where
  "py_encode s = (case utf8_encode s of None \<Rightarrow> Inl ValueError | Some b \<Rightarrow> Inr b)"

definition ascii_decode :: "bytes \<Rightarrow> (exn, ustr) result" where
  "ascii_decode b = (if list_all (\<lambda>c. unat c < 128) b then Inr (map unat b) else Inl ValueError)"

definition validate_password :: "unicode \<Rightarrow> ustr \<Rightarrow> (exn, ustr) result" where
  "validate_password U raw =
     (let normalised = normalize_password U raw in
      if length normalised < MINIMUM_LENGTH then Inl PasswordPolicyError
      else bind_result (py_encode normalised) (\<lambda>encoded.
        if MAXIMUM_BYTES < length encoded then Inl PasswordPolicyError
        else if 0 \<in> set normalised then Inl PasswordPolicyError
        else Inr normalised))"

definition hash_password :: "unicode \<Rightarrow> bcrypt \<Rightarrow> nat \<Rightarrow> ustr \<Rightarrow> (exn, ustr) result" where
  "hash_password U B rnd raw =
     bind_result (validate_password U raw) (\<lambda>normalised.
     bind_result (py_encode normalised) (\<lambda>encoded.
       ascii_decode (bc_hashpw B encoded (bc_gensalt B rnd))))"

definition verify_candidate :: "unicode \<Rightarrow> bcrypt \<Rightarrow> ustr \<Rightarrow> ustr \<Rightarrow> (exn, bool) result" where
  "verify_candidate U B raw password_hash =
     bind_result (py_encode (normalize_password U raw)) (\<lambda>candidate.
       if MAXIMUM_BYTES < length candidate then Inr False
       else case bind_result (py_encode password_hash) (bc_checkpw B candidate) of
         Inr matched \<Rightarrow> Inr matched
       | Inl e \<Rightarrow> if is_ValueError e \<or> e = TypeError then Inr False else Inl e)"

text \<open>The throwaway hash: of a random token, the argument \<open>token\<close>, made once and cached.\<close>

definition absent_password_hash :: "unicode \<Rightarrow> bcrypt \<Rightarrow> nat \<Rightarrow> ustr \<Rightarrow> (exn, ustr) result" where
  "absent_password_hash U B rnd token = hash_password U B rnd token"

definition verify_password ::
  "unicode \<Rightarrow> bcrypt \<Rightarrow> (exn, ustr) result \<Rightarrow> ustr \<Rightarrow> ustr option \<Rightarrow> (exn, bool) result" where
  "verify_password U B absent raw password_hash =
     (case password_hash of
        None \<Rightarrow> bind_result absent (\<lambda>h. bind_result (verify_candidate U B raw h) (\<lambda>_. Inr False))
      | Some h \<Rightarrow>
          (if h = [] then bind_result absent (\<lambda>h. bind_result (verify_candidate U B raw h) (\<lambda>_. Inr False))
           else verify_candidate U B raw h))"

section \<open>What is documented of bcrypt\<close>

text \<open>
  A digest is ASCII text that is not empty; a password verifies against its own digest, whatever the
  salt, as long as it is one bcrypt reads in full: at most 72 bytes, none of them NUL. Checking
  raises nothing but \<open>ValueError\<close> or \<open>TypeError\<close>.
\<close>

definition bcrypt_laws :: "bcrypt \<Rightarrow> bool" where
  "bcrypt_laws B \<longleftrightarrow>
     (\<forall>p rnd. length p \<le> MAXIMUM_BYTES \<longrightarrow> 0 \<notin> set p \<longrightarrow>
        (let h = bc_hashpw B p (bc_gensalt B rnd) in
         h \<noteq> [] \<and> list_all (\<lambda>c. unat c < 128) h \<and> bc_checkpw B p h = Inr True))
     \<and> (\<forall>p h e. bc_checkpw B p h = Inl e \<longrightarrow> e = ValueError \<or> e = TypeError)"

text \<open>An instance: a digest that is the password written in 7-bit pieces. It keeps the laws, nothing else.\<close>

definition spell_byte :: "8 word \<Rightarrow> bytes" where
  "spell_byte b = [of_nat (65 + unat b div 16), of_nat (65 + unat b mod 16)]"

definition transparent_bcrypt :: bcrypt where
  "transparent_bcrypt = \<lparr>bc_gensalt = (\<lambda>_. [36]),
     bc_hashpw = (\<lambda>p s. s @ concat (map spell_byte p)),
     bc_checkpw = (\<lambda>p h. Inr (h = 36 # concat (map spell_byte p)))\<rparr>"

lemma spell_byte_ascii: "c \<in> set (spell_byte b) \<Longrightarrow> unat c < 128"
proof -
  have "unat b < 2 ^ LENGTH(8)" by (rule unsigned_less)
  then have "65 + unat b div 16 < 128" "65 + unat b mod 16 < 128" by auto
  then show "c \<in> set (spell_byte b) \<Longrightarrow> unat c < 128"
    by (auto simp: spell_byte_def unsigned_of_nat take_bit_eq_mod simp del: of_nat_add)
qed

lemma transparent_bcrypt_laws: "bcrypt_laws transparent_bcrypt"
  using spell_byte_ascii by (auto simp: bcrypt_laws_def transparent_bcrypt_def Let_def list_all_iff)

section \<open>Encodings\<close>

lemma py_encode_eq [simp]: "py_encode s = Inr b \<longleftrightarrow> utf8_encode s = Some b"
  by (auto simp: py_encode_def split: option.splits)

lemma utf8_char_nul: "0 \<in> set (utf8_char c) \<Longrightarrow> c < 1114112 \<Longrightarrow> c = 0"
proof (rule ccontr)
  assume "0 \<in> set (utf8_char c)" and c: "c < 1114112" "c \<noteq> 0"
  have low: "(of_nat (128 + n mod 64) :: 8 word) \<noteq> 0" for n
    by (auto simp del: of_nat_add simp: word_of_nat_eq_0_iff dest!: dvd_imp_le)
  have lead: "(of_nat n :: 8 word) \<noteq> 0" if "0 < n" "n < 256" for n
    using that by (auto simp: word_of_nat_eq_0_iff dest!: dvd_imp_le)
  have "c < 2048 \<Longrightarrow> c div 64 < 32" "c < 65536 \<Longrightarrow> c div 4096 < 16" "c div 262144 < 5"
    using c(1) by auto
  with \<open>0 \<in> set (utf8_char c)\<close> c(2) show False
    using low [of c] low [of "c div 64"] low [of "c div 4096"] lead [of c] lead [of "192 + c div 64"]
      lead [of "224 + c div 4096"] lead [of "240 + c div 262144"]
    by (auto simp: utf8_char_def simp del: of_nat_add split: if_splits)
qed

lemma ascii_decode_encode:
  assumes "ascii_decode b = Inr s"
  shows "utf8_encode s = Some b"
proof -
  from assms have small: "list_all (\<lambda>c. unat c < 128) b" and s: "s = map unat b"
    by (auto simp: ascii_decode_def split: if_splits)
  then have "\<not> list_ex is_surrogate s"
    by (induction b) (auto simp: list_ex_iff list_all_iff is_surrogate_def)
  moreover have "concat (map utf8_char (map unat b)) = b"
    using small by (induction b) (auto simp: utf8_char_def)
  ultimately show ?thesis using s by (simp add: utf8_encode_def)
qed

section \<open>Hashing and verifying\<close>

text \<open>A \<open>str\<close> holds code points, and there are none from \<open>0x110000\<close> on.\<close>

definition is_text :: "ustr \<Rightarrow> bool" where
  "is_text s \<longleftrightarrow> list_all (\<lambda>c. c < 1114112) s"

lemma utf8_nul_free: "utf8_encode s = Some b \<Longrightarrow> is_text s \<Longrightarrow> 0 \<notin> set s \<Longrightarrow> 0 \<notin> set b"
  using utf8_char_nul by (fastforce simp: utf8_encode_def is_text_def list_all_iff split: if_splits)

lemma validate_password_eq:
  "validate_password U raw = Inr n \<longleftrightarrow> n = u_nfkc U raw \<and> 12 \<le> length n \<and> 0 \<notin> set n
     \<and> (\<exists>b. utf8_encode n = Some b \<and> length b \<le> 72)"
proof (cases "utf8_encode (u_nfkc U raw)")
  case None
  then have "py_encode (u_nfkc U raw) = Inl ValueError" by (simp add: py_encode_def)
  with None show ?thesis by (auto simp: validate_password_def Let_def normalize_password_def)
next
  case (Some b)
  then have "py_encode (u_nfkc U raw) = Inr b" by simp
  with Some show ?thesis
    by (auto simp: validate_password_def Let_def normalize_password_def MINIMUM_LENGTH_def MAXIMUM_BYTES_def)
qed

lemma hash_passwordE:
  assumes "bcrypt_laws B" and "is_text (u_nfkc U raw)" and "hash_password U B rnd raw = Inr h"
  obtains b digest where "validate_password U raw = Inr (u_nfkc U raw)" "utf8_encode (u_nfkc U raw) = Some b"
    "length b \<le> 72" "utf8_encode h = Some digest" "bc_checkpw B b digest = Inr True" "h \<noteq> []"
proof -
  from assms(3) obtain b where v: "validate_password U raw = Inr (u_nfkc U raw)"
    and b: "utf8_encode (u_nfkc U raw) = Some b" and h: "ascii_decode (bc_hashpw B b (bc_gensalt B rnd)) = Inr h"
    by (auto simp: hash_password_def validate_password_eq)
  from v b have "length b \<le> 72" "0 \<notin> set b"
    using utf8_nul_free [OF b assms(2)] by (auto simp: validate_password_eq)
  with assms(1) have "bc_hashpw B b (bc_gensalt B rnd) \<noteq> []"
    "bc_checkpw B b (bc_hashpw B b (bc_gensalt B rnd)) = Inr True"
    by (auto simp: bcrypt_laws_def MAXIMUM_BYTES_def Let_def)
  with that [OF v b _ ascii_decode_encode [OF h]] \<open>length b \<le> 72\<close> h show ?thesis
    by (auto simp: ascii_decode_def split: if_splits)
qed

lemma verify_password_Some:
  "h \<noteq> [] \<Longrightarrow> verify_password U B absent raw (Some h) = verify_candidate U B raw h"
  by (simp add: verify_password_def)

lemma enrolled_verifies:
  assumes "bcrypt_laws B" and "is_text (u_nfkc U raw)" and "hash_password U B rnd raw = Inr h"
    and "u_nfkc U raw' = u_nfkc U raw"
  shows "verify_password U B absent raw' (Some h) = Inr True"
  using assms(4)
  by (rule_tac hash_passwordE [OF assms(1-3)])
    (simp add: verify_password_def verify_candidate_def normalize_password_def MAXIMUM_BYTES_def py_encode_def)

lemma candidate_total:
  assumes "bcrypt_laws B" and "utf8_encode (u_nfkc U raw) = Some b"
  shows "\<exists>m. verify_candidate U B raw h = Inr m"
proof -
  from assms(1) have refuses: "bc_checkpw B p d = Inl e \<Longrightarrow> e = ValueError \<or> e = TypeError" for p d e
    by (simp add: bcrypt_laws_def)
  show ?thesis
    using assms(2) by (auto simp: verify_candidate_def normalize_password_def py_encode_def
        is_ValueError_def split: sum.splits option.splits dest: refuses)
qed

lemma verification_total:
  assumes "bcrypt_laws B" and "absent_password_hash U B rnd token = Inr a" and "utf8_encode (u_nfkc U raw) = Some b"
  shows "\<exists>m. verify_password U B (Inr a) raw stored = Inr m"
  using candidate_total [OF assms(1,3)] by (auto simp: verify_password_def split: option.splits)

text \<open>
  \<open>verify_password\<close> says that it never raises. A JSON body may hold a lone surrogate, which no
  normalisation removes, and encoding the candidate happens before the \<open>try\<close>.
\<close>

lemma surrogate_candidate_raises:
  "list_ex is_surrogate (normalize_password U raw) \<Longrightarrow> h \<noteq> [] \<Longrightarrow> verify_password U B absent raw (Some h) = Inl ValueError"
  by (simp add: verify_password_def verify_candidate_def py_encode_def utf8_encode_def)

section \<open>Properties\<close>

text \<open>
  C19. A password that was accepted verifies against its own digest, whatever the salt, and in every
  spelling that has the same compatibility normal form. It was accepted only if that form has at
  least 12 characters and at most 72 bytes, so that bcrypt reads all of it.
\<close>

theorem accepted_password_verifies:
  assumes "bcrypt_laws B" and "is_text (u_nfkc U raw)" and "hash_password U B rnd raw = Inr h"
  shows "(\<forall>raw'. u_nfkc U raw' = u_nfkc U raw \<longrightarrow> verify_password U B absent raw' (Some h) = Inr True)
    \<and> 12 \<le> length (u_nfkc U raw) \<and> (\<exists>b. utf8_encode (u_nfkc U raw) = Some b \<and> length b \<le> 72 \<and> 0 \<notin> set b)"
  using enrolled_verifies [OF assms] utf8_nul_free [OF _ assms(2)]
  by (rule_tac hash_passwordE [OF assms]) (auto simp: validate_password_eq)

text \<open>A password of twelve letters, spelled out.\<close>

abbreviation example_password :: ustr where
  "example_password \<equiv> [97, 97, 97, 97, 97, 97, 97, 97, 97, 97, 97, 97]"

abbreviation example_digest :: ustr where
  "example_digest \<equiv>
     [36, 71, 66, 71, 66, 71, 66, 71, 66, 71, 66, 71, 66, 71, 66, 71, 66, 71, 66, 71, 66, 71, 66, 71, 66]"

lemmas password_example_simps = normalize_password_def ascii_unicode_def
  MINIMUM_LENGTH_def MAXIMUM_BYTES_def py_encode_def utf8_encode_def is_surrogate_def utf8_char_def
  transparent_bcrypt_def spell_byte_def ascii_decode_def

lemma example_password_hash:
  "hash_password ascii_unicode transparent_bcrypt 0 example_password = Inr example_digest"
  by (simp add: hash_password_def validate_password_def Let_def password_example_simps)

lemma example_password_text: "is_text (u_nfkc ascii_unicode example_password)"
  by (simp add: is_text_def ascii_unicode_def)

theorem accepted_password_verifies_witness:
  "verify_password ascii_unicode transparent_bcrypt (Inr []) example_password
     (Some example_digest) = Inr True"
  using accepted_password_verifies [OF transparent_bcrypt_laws example_password_text example_password_hash] by blast

text \<open>
  C20. Verification fails closed. Against no digest, an empty one, or any text that bcrypt refuses to
  read, the answer is no; so it is for every candidate of more than 72 bytes, which bcrypt would have
  cut; and for a text without lone surrogates it never raises.
\<close>

theorem verification_fails_closed:
  assumes "bcrypt_laws B" and "absent_password_hash U B rnd token = Inr a" and "utf8_encode (u_nfkc U raw) = Some b"
  shows "(\<exists>matched. verify_password U B (Inr a) raw stored = Inr matched)
    \<and> (stored = None \<or> stored = Some [] \<or> 72 < length b \<longrightarrow> verify_password U B (Inr a) raw stored = Inr False)
    \<and> (\<forall>h. stored = Some h \<longrightarrow> (\<forall>d. utf8_encode h = Some d \<longrightarrow> bc_checkpw B b d \<noteq> Inr True)
         \<longrightarrow> verify_password U B (Inr a) raw stored = Inr False)"
proof -
  have total: "\<exists>m. verify_candidate U B raw h = Inr m" for h
    using candidate_total [OF assms(1,3)] .
  have long: "verify_candidate U B raw h = Inr False" if "72 < length b" for h
    using that assms(3) by (simp add: verify_candidate_def normalize_password_def py_encode_def MAXIMUM_BYTES_def)
  have refused: "verify_candidate U B raw h = Inr False"
    if "\<forall>d. utf8_encode h = Some d \<longrightarrow> bc_checkpw B b d \<noteq> Inr True" for h
    using total [of h] that assms(3)
    by (auto simp: verify_candidate_def normalize_password_def py_encode_def split: sum.splits option.splits if_splits)
  from total [of a] show ?thesis
    using total long refused by (auto simp: verify_password_def split: option.splits)
qed

theorem verification_fails_closed_witness:
  "verify_password ascii_unicode transparent_bcrypt (Inr example_digest) [98, 98, 98, 98, 98, 98, 98, 98, 98, 98, 98, 98] (Some example_digest) = Inr False"
proof -
  let ?other = "[98, 98, 98, 98, 98, 98, 98, 98, 98, 98, 98, 98]"
  have absent: "absent_password_hash ascii_unicode transparent_bcrypt 0 example_password = Inr example_digest"
    unfolding absent_password_hash_def by (rule example_password_hash)
  have other: "utf8_encode (u_nfkc ascii_unicode ?other) = Some (map of_nat ?other)"
    by (simp add: password_example_simps)
  have "utf8_encode example_digest = Some (map of_nat example_digest)"
    by (simp add: password_example_simps)
  moreover have "bc_checkpw transparent_bcrypt (map of_nat ?other) (map of_nat example_digest) \<noteq> Inr True"
    by (simp add: password_example_simps)
  ultimately have "\<forall>d. utf8_encode example_digest = Some d \<longrightarrow> bc_checkpw transparent_bcrypt (map of_nat ?other) d \<noteq> Inr True"
    by simp
  with verification_fails_closed [OF transparent_bcrypt_laws absent other] show ?thesis by blast
qed

end
