(* ===== verification/Users.thy ===== *)
theory Users
  imports ReadyDocuments
begin

text \<open>
  \<open>backend/db/repositories/user.py\<close>. \<open>User.email\<close> is an \<open>EmailStr\<close>: building a \<open>User\<close> from a row
  validates the address again, and keeps the form the validator returns. The validator is not part
  of the program; it is the parameter \<open>email_ok\<close>.
\<close>

definition user_to_domain :: "(ustr \<Rightarrow> ustr option) \<Rightarrow> UserRow \<Rightarrow> (exn, User) result" where
  "user_to_domain email_ok r =
     (case email_ok (usr_email r) of
        None \<Rightarrow> Inl ValueError
      | Some email \<Rightarrow> Inr \<lparr>u_id = uuid_str (usr_id r), u_email = email, u_full_name = usr_full_name r,
          u_role = usr_role r, u_is_active = usr_is_active r, u_created_at = usr_created_at r\<rparr>)"

text \<open>\<open>uuid4\<close> draws the id, here \<open>new_id\<close>; \<open>is_active\<close> defaults to true.\<close>

definition new_user_row :: "uuid \<Rightarrow> ustr \<Rightarrow> ustr \<Rightarrow> UserRole \<Rightarrow> ustr option \<Rightarrow> timestamp \<Rightarrow> UserRow" where
  "new_user_row new_id email full_name role password_hash now =
     \<lparr>usr_id = new_id, usr_email = email, usr_full_name = full_name, usr_role = role, usr_is_active = True,
      usr_password_hash = password_hash, usr_created_at = now, usr_updated_at = now\<rparr>"

definition users_create ::
  "(ustr \<Rightarrow> ustr option) \<Rightarrow> uuid \<Rightarrow> ustr \<Rightarrow> ustr \<Rightarrow> UserRole \<Rightarrow> ustr option \<Rightarrow> database
   \<Rightarrow> (exn, User \<times> database) result" where
  "users_create email_ok new_id email full_name role password_hash db =
     (let row = new_user_row new_id email full_name role password_hash (db_now db) in
      bind_result (write_users (db_users db @ [row]) db) (\<lambda>db'.
      bind_result (user_to_domain email_ok row) (\<lambda>user. Inr (user, db'))))"

definition users_get_by_id ::
  "unicode \<Rightarrow> (ustr \<Rightarrow> ustr option) \<Rightarrow> ustr \<Rightarrow> database \<Rightarrow> (exn, User option) result" where
  "users_get_by_id U email_ok user_id db =
     (case parse_text U user_id of
        None \<Rightarrow> Inr None
      | Some i \<Rightarrow> bind_result (one_or_none (select_where (\<lambda>r. usr_id r = i) (db_users db))) (\<lambda>row.
          case row of None \<Rightarrow> Inr None
          | Some r \<Rightarrow> bind_result (user_to_domain email_ok r) (\<lambda>user. Inr (Some user))))"

definition users_get_by_email ::
  "(ustr \<Rightarrow> ustr option) \<Rightarrow> ustr \<Rightarrow> database \<Rightarrow> (exn, User option) result" where
  "users_get_by_email email_ok email db =
     bind_result (one_or_none (select_where (\<lambda>r. usr_email r = email) (db_users db))) (\<lambda>row.
       case row of None \<Rightarrow> Inr None
       | Some r \<Rightarrow> bind_result (user_to_domain email_ok r) (\<lambda>user. Inr (Some user)))"

definition user_credentials :: "UserRow \<Rightarrow> UserCredentials" where
  "user_credentials r = \<lparr>uc_user_id = uuid_str (usr_id r), uc_email = usr_email r,
     uc_password_hash = usr_password_hash r, uc_role = usr_role r, uc_is_active = usr_is_active r\<rparr>"

definition users_get_credentials_by_email :: "ustr \<Rightarrow> database \<Rightarrow> (exn, UserCredentials option) result" where
  "users_get_credentials_by_email email db =
     bind_result (one_or_none (select_where (\<lambda>r. usr_email r = email) (db_users db)))
       (\<lambda>row. Inr (map_option user_credentials row))"

section \<open>Looking up\<close>

lemma one_or_none_key:
  assumes "distinct (map key rows)"
  shows "one_or_none (select_where (\<lambda>r. key r = k) rows) = Inr (List.find (\<lambda>r. key r = k) rows)"
  using assms
proof (induction rows)
  case (Cons r rows)
  then show ?case
  proof (cases "key r = k")
    case True
    then have "filter (\<lambda>r. key r = k) rows = []" using Cons.prems by (auto simp: filter_empty_conv image_iff)
    with True show ?thesis by (simp add: select_where_def)
  qed (simp add: select_where_def)
qed (simp add: select_where_def)

lemma find_key:
  assumes "distinct (map key rows)"
  shows "List.find (\<lambda>r. key r = k) rows = Some r \<longleftrightarrow> r \<in> set rows \<and> key r = k"
  using assms by (induction rows) (auto simp: image_iff)

lemma user_by_id:
  assumes "wf_db db" and "users_get_by_id U email_ok s db = Inr (Some user)"
  obtains r where "r \<in> set (db_users db)" "parse_text U s = Some (usr_id r)" "user_to_domain email_ok r = Inr user"
  using assms one_or_none_key [OF wf_db_keys(3) [OF assms(1)]] find_key [OF wf_db_keys(3) [OF assms(1)]]
  by (auto simp: users_get_by_id_def split: option.splits)

lemma user_by_id_eq:
  assumes "wf_db db" and "r \<in> set (db_users db)" and "parse_text U s = Some (usr_id r)"
  shows "users_get_by_id U email_ok s db = bind_result (user_to_domain email_ok r) (\<lambda>user. Inr (Some user))"
proof -
  have "List.find (\<lambda>x. usr_id x = usr_id r) (db_users db) = Some r"
    using find_key [OF wf_db_keys(3) [OF assms(1)]] assms(2) by simp
  then show ?thesis
    using assms(3) one_or_none_key [OF wf_db_keys(3) [OF assms(1)]] by (simp add: users_get_by_id_def)
qed

lemma credentials_eq:
  assumes "wf_db db" and "r \<in> set (db_users db)"
  shows "users_get_credentials_by_email (usr_email r) db = Inr (Some (user_credentials r))"
proof -
  have "List.find (\<lambda>x. usr_email x = usr_email r) (db_users db) = Some r"
    using find_key [OF wf_db_keys(4) [OF assms(1)]] assms(2) by simp
  then show ?thesis
    using one_or_none_key [OF wf_db_keys(4) [OF assms(1)]] by (simp add: users_get_credentials_by_email_def)
qed

lemma credentials_found:
  assumes "wf_db db" and "users_get_credentials_by_email email db = Inr (Some c)"
  obtains r where "r \<in> set (db_users db)" "usr_email r = email" "c = user_credentials r"
  using assms one_or_none_key [OF wf_db_keys(4) [OF assms(1)]] find_key [OF wf_db_keys(4) [OF assms(1)]]
  by (auto simp: users_get_credentials_by_email_def)

text \<open>An insertion that was accepted keeps every constraint and adds exactly one row.\<close>

lemma users_create_row:
  assumes "users_create email_ok i email name role hash db = Inr (user, db')" and "wf_db db"
  shows "db' = db\<lparr>db_users := db_users db @ [new_user_row i email name role hash (db_now db)]\<rparr> \<and> wf_db db'
    \<and> user_to_domain email_ok (new_user_row i email name role hash (db_now db)) = Inr user"
proof -
  let ?row = "new_user_row i email name role hash (db_now db)"
  have e: "users_error (db_users db @ [?row]) = None" and db': "db' = db\<lparr>db_users := db_users db @ [?row]\<rparr>"
    and "user_to_domain email_ok ?row = Inr user"
    using assms(1) by (auto simp: users_create_def Let_def)
  moreover have "documents_error (db_users db @ [?row]) (db_documents db) = None"
    using assms(2) by (auto simp: wf_db_def documents_error_def list_all_iff)
  ultimately show ?thesis using assms(2) by (simp add: wf_db_def)
qed

end
