(* ===== verification/Security.thy ===== *)
theory Security
  imports Passwords Settings Users IngestionService "HOL-Library.Countable"
begin

text \<open>
  Access tokens (\<open>backend/security/jwt_handler.py\<close>), the identity behind a token
  (\<open>authentication.py\<close>), what a role may do (\<open>rbac.py\<close>) and the guards of the routes
  (\<open>api_security.py\<close>). PyJWT is a parameter: \<open>jw_encode\<close> signs claims or
  refuses the key, \<open>jw_decode\<close> verifies a token
  at a time and answers its claims, or \<open>None\<close> for \<open>InvalidTokenError\<close>. The process's clock is an
  argument, in microseconds. An \<open>HTTPException\<close> is its status code.
\<close>

section \<open>Tokens\<close>

type_synonym claims = "(ustr \<times> json) list"

record jwt =
  jw_encode :: "claims \<Rightarrow> ustr \<Rightarrow> ustr \<Rightarrow> (exn, ustr) result"
  jw_decode :: "ustr \<Rightarrow> ustr \<Rightarrow> ustr list \<Rightarrow> ustr list \<Rightarrow> timestamp \<Rightarrow> claims option"

fun role_value :: "UserRole \<Rightarrow> string" where
  "role_value ADMIN = ''admin''"
| "role_value RESEARCHER = ''researcher''"
| "role_value VIEWER = ''viewer''"

definition role_of_json :: "json \<Rightarrow> UserRole option" where
  "role_of_json j = List.find (\<lambda>r. j = JStr (py_str (role_value r))) [ADMIN, RESEARCHER, VIEWER]"

text \<open>
  \<open>datetime.now(utc) + expires\<close> raises \<open>OverflowError\<close> outside the years 1 to 9999. \<open>expires_delta\<close> is
  in microseconds, and a zero one is falsy. The signing library writes an expiry in whole seconds.
\<close>

definition FIRST_SECOND :: int where "FIRST_SECOND = - 62135596800"
definition LAST_SECOND :: int where "LAST_SECOND = 253402300799"

definition token_lifetime :: "Settings \<Rightarrow> int option \<Rightarrow> int" where
  "token_lifetime s expires_delta =
     (case expires_delta of Some d \<Rightarrow> if d \<noteq> 0 then d else JWT_EXPIRE_MINUTES s * 60 * 1000000
      | None \<Rightarrow> JWT_EXPIRE_MINUTES s * 60 * 1000000)"

definition token_claims :: "ustr \<Rightarrow> ustr \<Rightarrow> UserRole \<Rightarrow> timestamp \<Rightarrow> claims" where
  "token_claims user_id email role expires =
     [(py_str ''sub'', JStr user_id), (py_str ''email'', JStr email), (py_str ''role'', JStr (py_str (role_value role))),
      (py_str ''exp'', JInt (expires div 1000000))]"

definition create_access_token ::
  "jwt \<Rightarrow> Settings \<Rightarrow> timestamp \<Rightarrow> ustr \<Rightarrow> ustr \<Rightarrow> UserRole \<Rightarrow> int option \<Rightarrow> (exn, ustr) result" where
  "create_access_token J s now user_id email role expires_delta =
     (let expires = now + token_lifetime s expires_delta in
      if FIRST_SECOND * 1000000 \<le> expires \<and> expires < (LAST_SECOND + 1) * 1000000
      then jw_encode J (token_claims user_id email role expires) (JWT_SECRET s) (JWT_ALGORITHM s)
      else Inl OtherError)"

text \<open>
  \<open>datetime.fromtimestamp(x, utc)\<close>: a year outside 1 to 9999 is a \<open>ValueError\<close>, one the C library cannot
  represent an \<open>OSError\<close>, a number no \<open>time_t\<close> holds an \<open>OverflowError\<close>, and what is not a number a
  \<open>TypeError\<close>. Fractions are rounded to microseconds, half to even.
\<close>

definition round_half_even :: "rat \<Rightarrow> int" where
  "round_half_even q =
     (let n = \<lfloor>q\<rfloor>; f = q - of_int n in
      if f < 1 / 2 then n else if 1 / 2 < f then n + 1 else if even n then n else n + 1)"

definition timestamp_error :: "int \<Rightarrow> exn" where
  "timestamp_error n =
     (if n < - (2 ^ 63) \<or> 2 ^ 63 \<le> n then OtherError
      else if n < - 67768040609740800 \<or> 67768036191676799 < n then OSError else ValueError)"

fun from_timestamp :: "json \<Rightarrow> (exn, timestamp) result" where
  "from_timestamp (JInt n) =
     (if FIRST_SECOND \<le> n \<and> n \<le> LAST_SECOND then Inr (n * 1000000) else Inl (timestamp_error n))"
| "from_timestamp (JFloat q) =
     (let us = round_half_even (q * 1000000) in
      if FIRST_SECOND * 1000000 \<le> us \<and> us < (LAST_SECOND + 1) * 1000000 then Inr us
      else Inl (timestamp_error (us div 1000000)))"
| "from_timestamp (JBool b) = Inr (if b then 1000000 else 0)"
| "from_timestamp _ = Inl TypeError"

fun json_str :: "json \<Rightarrow> ustr option" where
  "json_str (JStr s) = Some s"
| "json_str _ = None"

definition usable_claims :: "claims \<Rightarrow> (exn, TokenData) result" where
  "usable_claims payload =
     (case (map_of payload (py_str ''sub''), map_of payload (py_str ''email''), map_of payload (py_str ''role'')) of
        (Some sub, Some email, Some role) \<Rightarrow>
          (case role_of_json role of None \<Rightarrow> Inl ValueError
           | Some r \<Rightarrow>
               (case map_of payload (py_str ''exp'') of None \<Rightarrow> Inl KeyError
                | Some e \<Rightarrow> bind_result (from_timestamp e) (\<lambda>t.
                    case (json_str sub, json_str email) of
                      (Some i, Some m) \<Rightarrow> Inr \<lparr>td_user_id = i, td_email = m, td_role = r, td_exp = t\<rparr>
                    | _ \<Rightarrow> Inl ValueError)))
      | _ \<Rightarrow> Inl KeyError)"

definition verify_token :: "jwt \<Rightarrow> Settings \<Rightarrow> timestamp \<Rightarrow> ustr \<Rightarrow> (exn, TokenData) result" where
  "verify_token J s now token =
     (case jw_decode J token (JWT_SECRET s) [JWT_ALGORITHM s] [py_str ''exp'', py_str ''sub''] now of
        None \<Rightarrow> Inl TokenError
      | Some payload \<Rightarrow>
          (case usable_claims payload of
             Inr claims \<Rightarrow> Inr claims
           | Inl e \<Rightarrow> if e = KeyError \<or> is_ValueError e then Inl TokenError else Inl e))"

text \<open>
  A token this application signed for another purpose may carry claims it cannot use; every rejection
  is said to leave by the same raise. An expiry too large for a date does not: only \<open>KeyError\<close> and
  \<open>ValueError\<close> are caught.
\<close>

lemma far_expiry_escapes:
  assumes "jw_decode J token (JWT_SECRET s) [JWT_ALGORITHM s] [py_str ''exp'', py_str ''sub''] now =
      Some [(py_str ''sub'', JStr i), (py_str ''email'', JStr m), (py_str ''role'', JStr (py_str ''viewer'')), (py_str ''exp'', JInt (10 ^ 18))]"
  shows "verify_token J s now token = Inl OSError"
  using assms by (simp add: verify_token_def usable_claims_def timestamp_error_def LAST_SECOND_def py_str_def role_of_json_def is_ValueError_def)

section \<open>What is documented of PyJWT\<close>

text \<open>
  A token that was signed with a secret and an algorithm verifies with the same ones, and with the
  same claims, as long as it has not expired and its claims are text PyJWT can write as JSON. From
  1970 on, a token that verifies has not expired.
\<close>

definition plain_claim :: "json \<Rightarrow> bool" where
  "plain_claim j = (case j of JStr s \<Rightarrow> \<not> list_ex is_surrogate s | JInt n \<Rightarrow> True | _ \<Rightarrow> False)"

definition jwt_laws :: "jwt \<Rightarrow> bool" where
  "jwt_laws J \<longleftrightarrow>
     (\<forall>payload secret alg token algs required now e.
        jw_encode J payload secret alg = Inr token \<longrightarrow>
        distinct (map fst payload) \<longrightarrow> list_all (\<lambda>(k, j). plain_claim j) payload \<longrightarrow>
        alg \<in> set ALLOWED_JWT_ALGORITHMS \<longrightarrow> alg \<in> set algs \<longrightarrow> set required \<subseteq> fst ` set payload \<longrightarrow>
        map_of payload (py_str ''exp'') = Some (JInt e) \<longrightarrow> now < e * 1000000 \<longrightarrow>
        jw_decode J token secret algs required now = Some payload)
     \<and> (\<forall>token secret algs required now payload j t.
        0 \<le> now \<longrightarrow> jw_decode J token secret algs required now = Some payload \<longrightarrow>
        map_of payload (py_str ''exp'') = Some j \<longrightarrow> from_timestamp j = Inr t \<longrightarrow> now < t)"

section \<open>Identities\<close>

text \<open>What authentication is configured with.\<close>

record auth =
  au_unicode :: unicode
  au_email_ok :: "ustr \<Rightarrow> ustr option"
  au_bcrypt :: bcrypt
  au_jwt :: jwt
  au_settings :: Settings
  au_absent :: "(exn, ustr) result"

definition resolve_principal :: "auth \<Rightarrow> timestamp \<Rightarrow> ustr \<Rightarrow> (('q, 'r) world, Principal) prog" where
  "resolve_principal au now token =
     tryP (of_result (verify_token (au_jwt au) (au_settings au) now token))
       (\<lambda>e. if e = TokenError then Raise AuthenticationError else Raise e)
       (\<lambda>claims. bindP (db_read (users_get_by_id (au_unicode au) (au_email_ok au) (td_user_id claims))) (\<lambda>user.
          case user of
            None \<Rightarrow> Raise AuthenticationError
          | Some u \<Rightarrow>
              if \<not> u_is_active u then Raise AuthenticationError
              else Return \<lparr>p_user_id = u_id u, p_email = u_email u, p_role = u_role u\<rparr>))"

section \<open>Permissions\<close>

datatype Permission =
  DOCUMENT_READ | DOCUMENT_WRITE | AGENT_RUN | SEARCH_QUERY | WORKSPACE_READ | WORKSPACE_WRITE

definition all_permissions :: "Permission list" where
  "all_permissions = [DOCUMENT_READ, DOCUMENT_WRITE, AGENT_RUN, SEARCH_QUERY, WORKSPACE_READ, WORKSPACE_WRITE]"

fun PERMISSIONS :: "UserRole \<Rightarrow> Permission list" where
  "PERMISSIONS ADMIN = all_permissions"
| "PERMISSIONS RESEARCHER = [DOCUMENT_READ, DOCUMENT_WRITE, AGENT_RUN, SEARCH_QUERY, WORKSPACE_READ, WORKSPACE_WRITE]"
| "PERMISSIONS VIEWER = [DOCUMENT_READ, SEARCH_QUERY, WORKSPACE_READ]"

text \<open>An argument that is a member of the enumeration, or a string that may only look like one.\<close>

datatype 'a dynamic = Member 'a | RawStr ustr

definition has_permission :: "UserRole dynamic \<Rightarrow> Permission dynamic \<Rightarrow> bool" where
  "has_permission role permission =
     (case (role, permission) of (Member r, Member p) \<Rightarrow> p \<in> set (PERMISSIONS r) | _ \<Rightarrow> False)"

definition get_permissions :: "UserRole dynamic \<Rightarrow> Permission list" where
  "get_permissions role = (case role of Member r \<Rightarrow> PERMISSIONS r | RawStr s \<Rightarrow> [])"

section \<open>Guards of the routes\<close>

definition unauthenticated :: exn where "unauthenticated = HTTPException 401"
definition forbidden :: exn where "forbidden = HTTPException 403"

text \<open>\<open>credentials\<close> is what follows the scheme \<open>Bearer\<close>; anything else in the header is \<open>None\<close>.\<close>

definition get_current_user :: "auth \<Rightarrow> timestamp \<Rightarrow> ustr option \<Rightarrow> (('q, 'r) world, Principal) prog" where
  "get_current_user au now credentials =
     (case credentials of
        None \<Rightarrow> Raise unauthenticated
      | Some token \<Rightarrow> catchP (resolve_principal au now token) (\<lambda>e. e = AuthenticationError) (\<lambda>_. Raise unauthenticated))"

definition require_permission ::
  "auth \<Rightarrow> timestamp \<Rightarrow> Permission \<Rightarrow> ustr option \<Rightarrow> (('q, 'r) world, Principal) prog" where
  "require_permission au now permission credentials =
     bindP (get_current_user au now credentials) (\<lambda>caller.
       if \<not> has_permission (Member (p_role caller)) (Member permission) then Raise forbidden else Return caller)"

definition mk_require_permission :: "Permission dynamic \<Rightarrow> (exn, Permission) result" where
  "mk_require_permission permission = (case permission of Member p \<Rightarrow> Inr p | RawStr s \<Rightarrow> Inl TypeError)"

primrec members :: "'a dynamic list \<Rightarrow> (exn, 'a list) result" where
  "members [] = Inr []"
| "members (x # xs) =
     (case x of Member a \<Rightarrow> bind_result (members xs) (\<lambda>as. Inr (a # as)) | RawStr s \<Rightarrow> Inl TypeError)"

definition mk_require_role :: "UserRole dynamic list \<Rightarrow> (exn, UserRole list) result" where
  "mk_require_role roles = (if roles = [] then Inl ValueError else members roles)"

definition require_role ::
  "auth \<Rightarrow> timestamp \<Rightarrow> UserRole list \<Rightarrow> ustr option \<Rightarrow> (('q, 'r) world, Principal) prog" where
  "require_role au now roles credentials =
     bindP (get_current_user au now credentials) (\<lambda>caller.
       if p_role caller \<notin> set roles then Raise forbidden else Return caller)"

section \<open>Tokens that verify\<close>

lemma role_of_value [simp]: "role_of_json (JStr (py_str (role_value r))) = Some r"
  by (cases r) (simp_all add: role_of_json_def)

lemma usable_token_claims:
  assumes "FIRST_SECOND * 1000000 \<le> expires" and "expires < (LAST_SECOND + 1) * 1000000"
  shows "usable_claims (token_claims user_id email role expires)
    = Inr \<lparr>td_user_id = user_id, td_email = email, td_role = role, td_exp = expires div 1000000 * 1000000\<rparr>"
proof -
  have "FIRST_SECOND \<le> expires div 1000000" "expires div 1000000 \<le> LAST_SECOND" using assms by auto
  then show ?thesis by (simp add: usable_claims_def token_claims_def del: py_str_simps) (simp add: py_str_inject)
qed

lemma token_verifies:
  assumes "jwt_laws (J)" and "create_access_token J s now user_id email role delta = Inr token"
    and "JWT_ALGORITHM s \<in> set ALLOWED_JWT_ALGORITHMS" and "\<not> list_ex is_surrogate user_id" and "\<not> list_ex is_surrogate email"
    and "now' < (now + token_lifetime s delta) div 1000000 * 1000000"
  shows "verify_token J s now' token
    = Inr \<lparr>td_user_id = user_id, td_email = email, td_role = role, td_exp = (now + token_lifetime s delta) div 1000000 * 1000000\<rparr>"
proof -
  let ?e = "now + token_lifetime s delta"
  let ?p = "token_claims user_id email role ?e"
  have e: "FIRST_SECOND * 1000000 \<le> ?e" "?e < (LAST_SECOND + 1) * 1000000"
    and t: "jw_encode J ?p (JWT_SECRET s) (JWT_ALGORITHM s) = Inr token"
    using assms(2) by (auto simp: create_access_token_def Let_def split: if_splits)
  have role: "\<not> list_ex is_surrogate (py_str (role_value role))"
    by (cases role) (simp_all add: is_surrogate_def)
  have "distinct (map fst ?p)" "list_all (\<lambda>(k, j). plain_claim j) ?p" "map_of ?p (py_str ''exp'') = Some (JInt (?e div 1000000))"
    using assms(4,5) role by (simp_all add: token_claims_def plain_claim_def)
  moreover have "set [py_str ''exp'', py_str ''sub''] \<subseteq> fst ` set ?p" by (simp add: token_claims_def)
  ultimately have "jw_decode J token (JWT_SECRET s) [JWT_ALGORITHM s] [py_str ''exp'', py_str ''sub''] now' = Some ?p"
    using assms(1,3,6) t unfolding jwt_laws_def by (metis list.set_intros(1))
  then show ?thesis by (simp add: verify_token_def usable_token_claims [OF e])
qed

lemma verified_not_expired:
  assumes "jwt_laws J" and "verify_token J s now token = Inr td" and "0 \<le> now"
  shows "now < td_exp td"
proof -
  from assms(2) obtain payload where d: "jw_decode J token (JWT_SECRET s) [JWT_ALGORITHM s] [py_str ''exp'', py_str ''sub''] now = Some payload"
    and u: "usable_claims payload = Inr td"
    by (auto simp: verify_token_def split: option.splits sum.splits if_splits)
  from u obtain j where "map_of payload (py_str ''exp'') = Some j" "from_timestamp j = Inr (td_exp td)"
    by (auto simp: usable_claims_def split: option.split_asm) (metis TokenData.select_convs(4) option.exhaust)
  with d assms(1,3) show ?thesis unfolding jwt_laws_def by blast
qed

section \<open>A JSON library that keeps the laws\<close>

instance json :: countable
  by countable_datatype

text \<open>Tokens that are the number of what was signed.\<close>

definition numbering_jwt :: jwt where
  "numbering_jwt =
     \<lparr>jw_encode = (\<lambda>payload secret alg. Inr [to_nat (payload, secret, alg)]),
      jw_decode = (\<lambda>token secret algs required now.
        case from_nat (hd token) of (payload, s, alg) \<Rightarrow>
          (if s = secret \<and> alg \<in> set algs \<and> set required \<subseteq> fst ` set payload
             \<and> (case map_of payload (py_str ''exp'') of Some (JInt e) \<Rightarrow> now < e * 1000000 | _ \<Rightarrow> False)
           then Some payload else None))\<rparr>"

lemma numbering_jwt_laws: "jwt_laws numbering_jwt"
  unfolding jwt_laws_def
proof (intro conjI allI impI)
  fix token secret algs required now payload j t
  assume "jw_decode numbering_jwt token secret algs required now = Some payload"
    and "map_of payload (py_str ''exp'') = Some j" and "from_timestamp j = Inr t"
  then show "now < t"
    by (auto simp: numbering_jwt_def split: prod.splits if_splits option.splits json.splits)
qed (auto simp: numbering_jwt_def)

section \<open>Who is calling\<close>

lemma user_to_domain_fields:
  "user_to_domain email_ok r = Inr u \<Longrightarrow>
     u_id u = uuid_str (usr_id r) \<and> u_role u = usr_role r \<and> u_is_active u = usr_is_active r
     \<and> email_ok (usr_email r) = Some (u_email u)"
  by (auto simp: user_to_domain_def split: option.splits)

text \<open>The decision for a verified token, with the row its subject names.\<close>

lemma run_resolve_principal:
  assumes "verify_token (au_jwt au) (au_settings au) now token = Inr td" and "wf_db (w_db w)"
    and "r \<in> set (db_users (w_db w))" and "parse_text (au_unicode au) (td_user_id td) = Some (usr_id r)"
    and "user_to_domain (au_email_ok au) r = Inr u"
  shows "run (resolve_principal au now token) [] w =
    (if usr_is_active r then Inr \<lparr>p_user_id = uuid_str (usr_id r), p_email = u_email u, p_role = usr_role r\<rparr>
     else Inl AuthenticationError, [], w)"
  using assms user_by_id_eq [OF assms(2-4)] user_to_domain_fields [OF assms(5)]
  by (auto simp: resolve_principal_def run_simps db_read_def)

lemma resolved_principal:
  assumes "run (resolve_principal au now token) cs w = (Inr caller, cs', w')" and "wf_db (w_db w)"
  obtains td r where "w' = w" "verify_token (au_jwt au) (au_settings au) now token = Inr td"
    "r \<in> set (db_users (w_db w))" "parse_text (au_unicode au) (td_user_id td) = Some (usr_id r)" "usr_is_active r"
    "p_user_id caller = uuid_str (usr_id r)" "p_role caller = usr_role r"
proof -
  from assms(1) obtain td u where v: "verify_token (au_jwt au) (au_settings au) now token = Inr td" and "w' = w"
    and u: "users_get_by_id (au_unicode au) (au_email_ok au) (td_user_id td) (w_db w) = Inr (Some u)" "u_is_active u"
    and c: "p_user_id caller = u_id u" "p_role caller = u_role u"
    by (auto simp: resolve_principal_def run_simps db_read_def split: sum.splits choice.splits option.splits if_splits prod.splits)
  from user_by_id [OF assms(2) u(1)] user_to_domain_fields show ?thesis
    using that [OF \<open>w' = w\<close> v] u(2) c by metis
qed

lemma current_user:
  assumes "run (get_current_user au now credentials) cs w = (Inr caller, cs', w')"
  obtains token where "credentials = Some token" "run (resolve_principal au now token) cs w = (Inr caller, cs', w')"
  using assms by (auto simp: get_current_user_def run_catchP unauthenticated_def split: option.splits sum.splits prod.splits if_splits)

lemma run_get_current_user:
  assumes "run (resolve_principal au now token) cs w = (Inl AuthenticationError, cs', w')"
  shows "run (get_current_user au now (Some token)) cs w = (Inl (HTTPException 401), cs', w')"
  using assms by (simp add: get_current_user_def run_catchP unauthenticated_def)

text \<open>An example: a token that claims to be an administrator's, for the researcher of the example database.\<close>

definition example_auth :: auth where
  "example_auth = \<lparr>au_unicode = ascii_unicode, au_email_ok = Some, au_bcrypt = transparent_bcrypt,
     au_jwt = numbering_jwt, au_settings = default_settings, au_absent = Inr example_digest\<rparr>"

lemma example_token:
  obtains token td where "verify_token (au_jwt example_auth) (au_settings example_auth) 5 token = Inr td"
    "parse_text (au_unicode example_auth) (td_user_id td) = Some (usr_id example_user)" "td_role td = ADMIN"
proof -
  have minutes: "JWT_EXPIRE_MINUTES default_settings = 60" and alg: "JWT_ALGORITHM default_settings \<in> set ALLOWED_JWT_ALGORITHMS"
    by (simp_all add: default_settings_def ALLOWED_JWT_ALGORITHMS_def)
  obtain token where t: "create_access_token numbering_jwt default_settings 0 (uuid_str 1) (py_str ''a@b'') ADMIN None = Inr token"
    by (simp add: create_access_token_def token_lifetime_def minutes FIRST_SECOND_def LAST_SECOND_def numbering_jwt_def)
  have plain: "\<not> list_ex is_surrogate (uuid_str 1)" "\<not> list_ex is_surrogate (py_str ''a@b'')"
    using uuid_str_scalar by (auto simp: list_ex_iff is_surrogate_def)
  have "verify_token numbering_jwt default_settings 5 token
      = Inr \<lparr>td_user_id = uuid_str 1, td_email = py_str ''a@b'', td_role = ADMIN, td_exp = 3600000000\<rparr>"
    using token_verifies [OF numbering_jwt_laws t alg plain, of 5] unfolding token_lifetime_def minutes by simp
  with that show ?thesis by (simp add: example_auth_def example_user_def)
qed

section \<open>Properties\<close>

text \<open>
  C21. A token that was issued verifies to exactly the identity it was issued for until its expiry,
  and no token, whoever made it, verifies once its expiry has passed.
\<close>

theorem tokens_verify_until_they_expire:
  assumes "jwt_laws J" and "create_access_token J s now user_id email role delta = Inr token"
    and "JWT_ALGORITHM s \<in> set ALLOWED_JWT_ALGORITHMS" and "\<not> list_ex is_surrogate user_id" and "\<not> list_ex is_surrogate email"
  shows "let expiry = (now + token_lifetime s delta) div 1000000 * 1000000 in
    (\<forall>now' < expiry. verify_token J s now' token
       = Inr \<lparr>td_user_id = user_id, td_email = email, td_role = role, td_exp = expiry\<rparr>)
    \<and> (\<forall>now' any td. 0 \<le> now' \<longrightarrow> verify_token J s now' any = Inr td \<longrightarrow> now' < td_exp td)"
  using token_verifies [OF assms] verified_not_expired [OF assms(1)] by (simp add: Let_def)

theorem tokens_verify_until_they_expire_witness:
  "\<exists>token. verify_token numbering_jwt default_settings 0 token =
     Inr \<lparr>td_user_id = py_str ''u'', td_email = py_str ''e'', td_role = VIEWER, td_exp = 3600000000\<rparr>"
proof -
  have minutes: "JWT_EXPIRE_MINUTES default_settings = 60" and alg: "JWT_ALGORITHM default_settings \<in> set ALLOWED_JWT_ALGORITHMS"
    by (simp_all add: default_settings_def ALLOWED_JWT_ALGORITHMS_def)
  obtain token where t: "create_access_token numbering_jwt default_settings 0 (py_str ''u'') (py_str ''e'') VIEWER None = Inr token"
    by (simp add: create_access_token_def token_lifetime_def minutes FIRST_SECOND_def LAST_SECOND_def numbering_jwt_def)
  have plain: "\<not> list_ex is_surrogate (py_str ''u'')" "\<not> list_ex is_surrogate (py_str ''e'')"
    by (simp_all add: is_surrogate_def)
  have "verify_token numbering_jwt default_settings 0 token =
     Inr \<lparr>td_user_id = py_str ''u'', td_email = py_str ''e'', td_role = VIEWER, td_exp = 3600000000\<rparr>"
    using tokens_verify_until_they_expire [OF numbering_jwt_laws t alg plain]
    unfolding Let_def token_lifetime_def minutes by simp
  then show ?thesis ..
qed

text \<open>
  C22. Nobody passes a guard on the strength of a claim. Whoever is let through presented a token that
  verifies now, and is an active user in the database now; identity and role are those of the row,
  whatever the token says, and the role of the row holds the permission. Asking changes nothing.
\<close>

theorem guards_trust_only_the_row:
  assumes "run (require_permission au now permission credentials) cs w = (Inr caller, cs', w')" and "wf_db (w_db w)"
  shows "w' = w \<and> (\<exists>token td r. credentials = Some token
    \<and> verify_token (au_jwt au) (au_settings au) now token = Inr td
    \<and> r \<in> set (db_users (w_db w)) \<and> parse_text (au_unicode au) (td_user_id td) = Some (usr_id r) \<and> usr_is_active r
    \<and> p_user_id caller = uuid_str (usr_id r) \<and> p_role caller = usr_role r
    \<and> permission \<in> set (PERMISSIONS (usr_role r)))"
proof -
  from assms(1) have g: "run (get_current_user au now credentials) cs w = (Inr caller, cs', w')"
    and p: "permission \<in> set (PERMISSIONS (p_role caller))"
    by (auto simp: require_permission_def run_bindP has_permission_def forbidden_def split: sum.splits prod.splits if_splits)
  from current_user [OF g] resolved_principal [OF _ assms(2)] p show ?thesis by metis
qed

theorem guards_trust_only_the_row_witness:
  "\<exists>token caller. run (require_permission example_auth 5 DOCUMENT_WRITE (Some token)) [] (staged_world DocumentStatus.READY)
     = (Inr caller, [], staged_world DocumentStatus.READY) \<and> p_role caller = RESEARCHER"
proof -
  let ?w = "staged_world DocumentStatus.READY"
  obtain token td where v: "verify_token (au_jwt example_auth) (au_settings example_auth) 5 token = Inr td"
    and p: "parse_text (au_unicode example_auth) (td_user_id td) = Some (usr_id example_user)"
    by (rule example_token)
  have wf: "wf_db (w_db ?w)" and r: "example_user \<in> set (db_users (w_db ?w))"
    using staged_db_wf [of DocumentStatus.READY] by (simp_all add: staged_world_def staged_db_def)
  obtain u where u: "user_to_domain (au_email_ok example_auth) example_user = Inr u"
    by (simp add: user_to_domain_def example_auth_def)
  obtain caller where c: "run (require_permission example_auth 5 DOCUMENT_WRITE (Some token)) [] ?w = (Inr caller, [], ?w)"
    using run_resolve_principal [OF v wf r p u]
    by (simp add: require_permission_def get_current_user_def run_simps has_permission_def example_user_def)
  from guards_trust_only_the_row [OF c wf] have "p_role caller = RESEARCHER"
    by (auto simp: staged_world_def staged_db_def example_user_def)
  with c show ?thesis by blast
qed

text \<open>
  C23. The two refusals are never swapped. Without credentials, with a token that does not verify, or
  with one whose subject is no active user, the answer is 401, whatever is asked for; 403 is only for
  an active user whose current role lacks the permission; and an active user whose role holds it
  passes.
\<close>

theorem refusals_are_not_swapped:
  assumes "wf_db (w_db w)"
  shows "fst (run (require_permission au now permission None) [] w) = Inl (HTTPException 401)
    \<and> (verify_token (au_jwt au) (au_settings au) now token = Inl TokenError \<longrightarrow>
        fst (run (require_permission au now permission (Some token)) [] w) = Inl (HTTPException 401))
    \<and> (\<forall>td. verify_token (au_jwt au) (au_settings au) now token = Inr td \<longrightarrow>
        (parse_text (au_unicode au) (td_user_id td) \<notin> Some ` usr_id ` set (db_users (w_db w)) \<longrightarrow>
           fst (run (require_permission au now permission (Some token)) [] w) = Inl (HTTPException 401))
      \<and> (\<forall>r \<in> set (db_users (w_db w)). parse_text (au_unicode au) (td_user_id td) = Some (usr_id r) \<longrightarrow>
          (\<forall>u. user_to_domain (au_email_ok au) r = Inr u \<longrightarrow>
             fst (run (require_permission au now permission (Some token)) [] w) =
               (if \<not> usr_is_active r then Inl (HTTPException 401)
                else if permission \<in> set (PERMISSIONS (usr_role r))
                then Inr \<lparr>p_user_id = uuid_str (usr_id r), p_email = u_email u, p_role = usr_role r\<rparr>
                else Inl (HTTPException 403)))))"
proof (intro conjI allI impI ballI)
  have refused: "fst (run (require_permission au now permission (Some token)) [] w) = Inl (HTTPException 401)"
    if "run (resolve_principal au now token) [] w = (Inl AuthenticationError, [], w)"
    using run_get_current_user [OF that] by (simp add: require_permission_def run_bindP)
  show "fst (run (require_permission au now permission None) [] w) = Inl (HTTPException 401)"
    by (simp add: require_permission_def get_current_user_def unauthenticated_def run_bindP)
  show "fst (run (require_permission au now permission (Some token)) [] w) = Inl (HTTPException 401)"
    if "verify_token (au_jwt au) (au_settings au) now token = Inl TokenError"
    by (rule refused) (simp add: that resolve_principal_def run_simps)
  fix td assume v: "verify_token (au_jwt au) (au_settings au) now token = Inr td"
  show "fst (run (require_permission au now permission (Some token)) [] w) = Inl (HTTPException 401)"
    if "parse_text (au_unicode au) (td_user_id td) \<notin> Some ` usr_id ` set (db_users (w_db w))"
  proof (rule refused)
    have "users_get_by_id (au_unicode au) (au_email_ok au) (td_user_id td) (w_db w) = Inr None"
      using that one_or_none_key [OF wf_db_keys(3) [OF assms]] find_key [OF wf_db_keys(3) [OF assms]]
      by (auto simp: users_get_by_id_def split: option.splits)
    then show "run (resolve_principal au now token) [] w = (Inl AuthenticationError, [], w)"
      by (simp add: resolve_principal_def run_simps v db_read_def)
  qed
  fix r u assume r: "r \<in> set (db_users (w_db w))" "parse_text (au_unicode au) (td_user_id td) = Some (usr_id r)"
    "user_to_domain (au_email_ok au) r = Inr u"
  show "fst (run (require_permission au now permission (Some token)) [] w) =
      (if \<not> usr_is_active r then Inl (HTTPException 401)
       else if permission \<in> set (PERMISSIONS (usr_role r))
       then Inr \<lparr>p_user_id = uuid_str (usr_id r), p_email = u_email u, p_role = usr_role r\<rparr>
       else Inl (HTTPException 403))"
    using run_resolve_principal [OF v assms r]
    by (auto simp: require_permission_def get_current_user_def run_simps has_permission_def forbidden_def unauthenticated_def)
qed

theorem refusals_are_not_swapped_witness:
  "fst (run (require_permission example_auth 5 DOCUMENT_WRITE None) [] (staged_world DocumentStatus.READY)) = Inl (HTTPException 401)"
  using refusals_are_not_swapped [where w = "staged_world DocumentStatus.READY" and au = example_auth]
    staged_db_wf [of DocumentStatus.READY]
  by (simp add: staged_world_def)

end
