(* ===== verification/Migrations.thy ===== *)
theory Migrations
  imports Security
begin

text \<open>
  \<open>alembic/\<close>: the six revisions of the schema, as programs over a relational store with rows in it,
  and the schema that \<open>backend/db/models/\<close> declare under the naming convention of
  \<open>backend/db/base.py\<close>. PostgreSQL is modelled by what the statements used here mean: a store is
  the list of its tables, each with its columns, constraints, indexes and rows, and a statement is
  accepted when every row of the store it would leave satisfies every column and every constraint. A condition has
  SQL's three truth values; a CHECK refuses only what is false.
\<close>

section \<open>Values, types and conditions\<close>

datatype sql_value =
  NullV | UuidV uuid | StrV ustr | IntV int | BoolV bool | JsonV json | TimeV timestamp

datatype sql_type =
  UuidT | StringT nat | TextT | IntegerT | BigIntegerT | BooleanT | JsonbT | DateTimeT
  | EnumT string "string list"

type_synonym row = "string \<Rightarrow> sql_value"

text \<open>A non-native enum is stored as a VARCHAR as wide as its widest member; its CHECK comes with the table.\<close>

fun storage_type :: "sql_type \<Rightarrow> sql_type" where
  "storage_type (EnumT _ values) = StringT (foldr max (map length values) 0)"
| "storage_type ty = ty"

text \<open>JSONB keeps its strings as text: it refuses what a text column refuses.\<close>

fun jsonb_fits :: "json \<Rightarrow> bool" where
  "jsonb_fits (JStr s) = text_fits s"
| "jsonb_fits (JList xs) = list_all jsonb_fits xs"
| "jsonb_fits (JDict ms) = list_all (\<lambda>(k, v). text_fits k \<and> jsonb_fits v) ms"
| "jsonb_fits _ = True"

fun fits :: "sql_type \<Rightarrow> sql_value \<Rightarrow> bool" where
  "fits _ NullV = True"
| "fits UuidT (UuidV _) = True"
| "fits (StringT n) (StrV s) = varchar_fits n s"
| "fits TextT (StrV s) = text_fits s"
| "fits IntegerT (IntV i) = int4_fits i"
| "fits BigIntegerT (IntV i) = int8_fits i"
| "fits BooleanT (BoolV _) = True"
| "fits JsonbT (JsonV j) = jsonb_fits j"
| "fits DateTimeT (TimeV _) = True"
| "fits _ _ = False"

datatype condition =
  OneOf string "string list"
| Equals string string
| AtLeast string int
| Above string int
| Differs string int
| NotLess string string
| IsNull string
| IsNotNull string
| IsArray string
| EitherOf condition condition
| SameTruth condition condition

fun sql_or :: "bool option \<Rightarrow> bool option \<Rightarrow> bool option" where
  "sql_or (Some True) _ = Some True"
| "sql_or _ (Some True) = Some True"
| "sql_or (Some False) b = b"
| "sql_or None _ = None"

fun sql_str :: "(ustr \<Rightarrow> bool) \<Rightarrow> sql_value \<Rightarrow> bool option" where
  "sql_str p (StrV s) = Some (p s)"
| "sql_str p _ = None"

fun sql_int :: "(int \<Rightarrow> bool) \<Rightarrow> sql_value \<Rightarrow> bool option" where
  "sql_int p (IntV i) = Some (p i)"
| "sql_int p _ = None"

fun is_array :: "sql_value \<Rightarrow> bool option" where
  "is_array (JsonV (JList _)) = Some True"
| "is_array (JsonV _) = Some False"
| "is_array _ = None"

fun truth :: "condition \<Rightarrow> row \<Rightarrow> bool option" where
  "truth (OneOf c vs) r = sql_str (\<lambda>s. s \<in> py_str ` set vs) (r c)"
| "truth (Equals c v) r = sql_str (\<lambda>s. s = py_str v) (r c)"
| "truth (AtLeast c n) r = sql_int (\<lambda>i. n \<le> i) (r c)"
| "truth (Above c n) r = sql_int (\<lambda>i. n < i) (r c)"
| "truth (Differs c n) r = sql_int (\<lambda>i. i \<noteq> n) (r c)"
| "truth (NotLess c d) r = (case (r c, r d) of (IntV i, IntV j) \<Rightarrow> Some (j \<le> i) | _ \<Rightarrow> None)"
| "truth (IsNull c) r = Some (r c = NullV)"
| "truth (IsNotNull c) r = Some (r c \<noteq> NullV)"
| "truth (IsArray c) r = is_array (r c)"
| "truth (EitherOf a b) r = sql_or (truth a r) (truth b r)"
| "truth (SameTruth a b) r = (case (truth a r, truth b r) of (Some x, Some y) \<Rightarrow> Some (x = y) | _ \<Rightarrow> None)"

section \<open>Tables\<close>

record column =
  cn_type :: sql_type
  cn_nullable :: bool
  cn_server_default :: "string option"

datatype referential_action = RESTRICT | CASCADE

datatype table_constraint =
  Check condition
| PrimaryKey "string list"
| Unique "string list"
| ForeignKey "string list" string "string list" referential_action

record table_index =
  ti_columns :: "string list"
  ti_unique :: bool
  ti_where :: condition

record sql_table =
  tb_columns :: "(string \<times> column) list"
  tb_constraints :: "(string \<times> table_constraint) list"
  tb_indexes :: "(string \<times> table_index) list"
  tb_rows :: "row list"

type_synonym store = "(string \<times> sql_table) list"

definition row_fits :: "(string \<times> column) list \<Rightarrow> row \<Rightarrow> bool" where
  "row_fits columns r \<longleftrightarrow>
     list_all (\<lambda>(c, k). fits (cn_type k) (r c) \<and> (r c = NullV \<longrightarrow> cn_nullable k)) columns"

text \<open>Uniqueness compares only keys without NULL.\<close>

definition keys_of :: "string list \<Rightarrow> row list \<Rightarrow> sql_value list list" where
  "keys_of cs rows = map (\<lambda>r. map r cs) (filter (\<lambda>r. list_all (\<lambda>c. r c \<noteq> NullV) cs) rows)"

fun satisfied :: "store \<Rightarrow> row list \<Rightarrow> table_constraint \<Rightarrow> bool" where
  "satisfied st rows (Check cond) \<longleftrightarrow> list_all (\<lambda>r. truth cond r \<noteq> Some False) rows"
| "satisfied st rows (PrimaryKey cs) \<longleftrightarrow>
     list_all (\<lambda>r. list_all (\<lambda>c. r c \<noteq> NullV) cs) rows \<and> distinct (keys_of cs rows)"
| "satisfied st rows (Unique cs) \<longleftrightarrow> distinct (keys_of cs rows)"
| "satisfied st rows (ForeignKey cs target cs' _) \<longleftrightarrow>
     list_all (\<lambda>k. k \<in> set (case map_of st target of None \<Rightarrow> [] | Some t \<Rightarrow> keys_of cs' (tb_rows t)))
       (keys_of cs rows)"

definition index_satisfied :: "row list \<Rightarrow> table_index \<Rightarrow> bool" where
  "index_satisfied rows i \<longleftrightarrow>
     (ti_unique i \<longrightarrow> distinct (keys_of (ti_columns i) (filter (\<lambda>r. truth (ti_where i) r = Some True) rows)))"

definition table_ok :: "store \<Rightarrow> sql_table \<Rightarrow> bool" where
  "table_ok st t \<longleftrightarrow> list_all (row_fits (tb_columns t)) (tb_rows t)
     \<and> list_all (\<lambda>k. satisfied st (tb_rows t) (snd k)) (tb_constraints t)
     \<and> list_all (\<lambda>i. index_satisfied (tb_rows t) (snd i)) (tb_indexes t)"

definition store_ok :: "store \<Rightarrow> bool" where
  "store_ok st \<longleftrightarrow> list_all (\<lambda>t. table_ok st (snd t)) st"

section \<open>Statements\<close>

type_synonym statement = "store \<Rightarrow> (exn, store) result"

definition accept :: statement where
  "accept st = (if store_ok st then Inr st else Inl (DatabaseError (IntegrityError ''constraint'')))"

text \<open>A statement that names a table, column, constraint or index that is not there, or makes one that is.\<close>

definition undefined_object :: exn where
  "undefined_object = DatabaseError ProgrammingError"

definition with_table :: "string \<Rightarrow> sql_table \<Rightarrow> store \<Rightarrow> store" where
  "with_table name t' st = map (\<lambda>(n, t). (n, if n = name then t' else t)) st"

definition on_table :: "string \<Rightarrow> (sql_table \<Rightarrow> sql_table option) \<Rightarrow> statement" where
  "on_table name f st =
     (case map_of st name of
        None \<Rightarrow> Inl undefined_object
      | Some t \<Rightarrow>
          (case f t of
             None \<Rightarrow> Inl undefined_object
           | Some t' \<Rightarrow> accept (with_table name t' st)))"

fun refers_to :: "string \<Rightarrow> table_constraint \<Rightarrow> bool" where
  "refers_to name (ForeignKey _ target _ _) \<longleftrightarrow> target = name"
| "refers_to name _ \<longleftrightarrow> False"

fun condition_columns :: "condition \<Rightarrow> string list" where
  "condition_columns (OneOf c _) = [c]"
| "condition_columns (Equals c _) = [c]"
| "condition_columns (AtLeast c _) = [c]"
| "condition_columns (Above c _) = [c]"
| "condition_columns (Differs c _) = [c]"
| "condition_columns (NotLess c d) = [c, d]"
| "condition_columns (IsNull c) = [c]"
| "condition_columns (IsNotNull c) = [c]"
| "condition_columns (IsArray c) = [c]"
| "condition_columns (EitherOf a b) = condition_columns a @ condition_columns b"
| "condition_columns (SameTruth a b) = condition_columns a @ condition_columns b"

fun constraint_columns :: "table_constraint \<Rightarrow> string list" where
  "constraint_columns (Check cond) = condition_columns cond"
| "constraint_columns (PrimaryKey cs) = cs"
| "constraint_columns (Unique cs) = cs"
| "constraint_columns (ForeignKey cs _ _ _) = cs"

text \<open>What a constraint names has to be there.\<close>

definition refers_only_to :: "store \<Rightarrow> (string \<times> column) list \<Rightarrow> table_constraint \<Rightarrow> bool" where
  "refers_only_to st columns k \<longleftrightarrow> list_all (\<lambda>c. c \<in> fst ` set columns) (constraint_columns k)
     \<and> (case k of ForeignKey _ target _ _ \<Rightarrow> target \<in> fst ` set st | _ \<Rightarrow> True)"

definition naming_ck :: "string \<Rightarrow> string \<Rightarrow> string" where
  "naming_ck table name = ''ck_'' @ table @ ''_'' @ name"

fun enum_check :: "string \<Rightarrow> string \<times> column \<Rightarrow> (string \<times> table_constraint) list" where
  "enum_check table (c, k) =
     (case cn_type k of EnumT name vs \<Rightarrow> [(naming_ck table name, Check (OneOf c vs))] | _ \<Rightarrow> [])"

definition stored :: "string \<times> column \<Rightarrow> string \<times> column" where
  "stored k = (fst k, (snd k)\<lparr>cn_type := storage_type (cn_type (snd k))\<rparr>)"

definition create_table ::
  "string \<Rightarrow> (string \<times> column) list \<Rightarrow> (string \<times> table_constraint) list \<Rightarrow> statement" where
  "create_table name columns constraints st =
     (if name \<in> fst ` set st \<or> \<not> list_all (\<lambda>k. refers_only_to st columns (snd k)) constraints then Inl undefined_object
      else accept (st @ [(name, \<lparr>tb_columns = map stored columns,
        tb_constraints = constraints @ concat (map (enum_check name) columns), tb_indexes = [], tb_rows = []\<rparr>)]))"

text \<open>Without CASCADE a table that another one refers to is not dropped.\<close>

definition drop_table :: "string \<Rightarrow> statement" where
  "drop_table name st =
     (if name \<notin> fst ` set st then Inl undefined_object
      else let rest = filter (\<lambda>t. fst t \<noteq> name) st in
        if list_ex (\<lambda>t. list_ex (\<lambda>k. refers_to name (snd k)) (tb_constraints (snd t))) rest then Inl undefined_object
        else accept rest)"

definition add_column :: "string \<Rightarrow> string \<Rightarrow> column \<Rightarrow> statement" where
  "add_column table c k = on_table table (\<lambda>t.
     if c \<in> fst ` set (tb_columns t) then None else Some (t\<lparr>tb_columns := tb_columns t @ [(c, k)]\<rparr>))"

text \<open>Dropping a column takes the constraints and indexes that involve it along, and its values.\<close>

definition drop_column :: "string \<Rightarrow> string \<Rightarrow> statement" where
  "drop_column table c = on_table table (\<lambda>t.
     if c \<notin> fst ` set (tb_columns t) then None
     else Some (t\<lparr>tb_columns := filter (\<lambda>k. fst k \<noteq> c) (tb_columns t),
       tb_constraints := filter (\<lambda>k. c \<notin> set (constraint_columns (snd k))) (tb_constraints t),
       tb_indexes := filter (\<lambda>i. c \<notin> set (ti_columns (snd i) @ condition_columns (ti_where (snd i)))) (tb_indexes t),
       tb_rows := map (\<lambda>r. r(c := NullV)) (tb_rows t)\<rparr>))"

definition alter_column_nullable :: "string \<Rightarrow> string \<Rightarrow> bool \<Rightarrow> statement" where
  "alter_column_nullable table c nullable = on_table table (\<lambda>t.
     if c \<notin> fst ` set (tb_columns t) then None
     else Some (t\<lparr>tb_columns := map (\<lambda>(n, k). (n, if n = c then k\<lparr>cn_nullable := nullable\<rparr> else k)) (tb_columns t)\<rparr>))"

definition create_check_constraint :: "string \<Rightarrow> string \<Rightarrow> condition \<Rightarrow> statement" where
  "create_check_constraint name table cond = on_table table (\<lambda>t.
     if name \<in> fst ` set (tb_constraints t) \<or> \<not> list_all (\<lambda>c. c \<in> fst ` set (tb_columns t)) (condition_columns cond) then None
     else Some (t\<lparr>tb_constraints := tb_constraints t @ [(name, Check cond)]\<rparr>))"

definition drop_constraint :: "string \<Rightarrow> string \<Rightarrow> statement" where
  "drop_constraint name table = on_table table (\<lambda>t.
     if name \<notin> fst ` set (tb_constraints t) then None
     else Some (t\<lparr>tb_constraints := filter (\<lambda>k. fst k \<noteq> name) (tb_constraints t)\<rparr>))"

definition create_index :: "string \<Rightarrow> string \<Rightarrow> string list \<Rightarrow> bool \<Rightarrow> condition \<Rightarrow> statement" where
  "create_index name table columns unique cond = on_table table (\<lambda>t.
     if name \<in> fst ` set (tb_indexes t) \<or> \<not> list_all (\<lambda>c. c \<in> fst ` set (tb_columns t)) (columns @ condition_columns cond) then None
     else Some (t\<lparr>tb_indexes := tb_indexes t @ [(name, \<lparr>ti_columns = columns, ti_unique = unique, ti_where = cond\<rparr>)]\<rparr>))"

definition drop_index :: "string \<Rightarrow> string \<Rightarrow> statement" where
  "drop_index name table = on_table table (\<lambda>t.
     if name \<notin> fst ` set (tb_indexes t) then None
     else Some (t\<lparr>tb_indexes := filter (\<lambda>i. fst i \<noteq> name) (tb_indexes t)\<rparr>))"

fun assign :: "(string \<times> sql_value) list \<Rightarrow> row \<Rightarrow> row" where
  "assign [] r = r"
| "assign ((c, v) # changes) r = assign changes (r(c := v))"

definition execute_update :: "string \<Rightarrow> (string \<times> sql_value) list \<Rightarrow> condition \<Rightarrow> statement" where
  "execute_update table changes cond = on_table table (\<lambda>t.
     Some (t\<lparr>tb_rows := update_where (\<lambda>r. truth cond r = Some True) (assign changes) (tb_rows t)\<rparr>))"

text \<open>\<open>DELETE FROM table\<close>, for a table no other one refers to.\<close>

definition execute_delete :: "string \<Rightarrow> statement" where
  "execute_delete table = on_table table (\<lambda>t. Some (t\<lparr>tb_rows := []\<rparr>))"

definition select_count :: "string \<Rightarrow> store \<Rightarrow> nat" where
  "select_count table st = (case map_of st table of None \<Rightarrow> 0 | Some t \<Rightarrow> length (tb_rows t))"

fun statements :: "statement list \<Rightarrow> statement" where
  "statements [] st = Inr st"
| "statements (s # ss) st = bind_result (s st) (statements ss)"

section \<open>The revisions\<close>

definition required :: "string \<Rightarrow> sql_type \<Rightarrow> string \<times> column" where
  "required c ty = (c, \<lparr>cn_type = ty, cn_nullable = False, cn_server_default = None\<rparr>)"

definition optional :: "string \<Rightarrow> sql_type \<Rightarrow> string \<times> column" where
  "optional c ty = (c, \<lparr>cn_type = ty, cn_nullable = True, cn_server_default = None\<rparr>)"

definition defaulted :: "string \<Rightarrow> sql_type \<Rightarrow> string \<Rightarrow> string \<times> column" where
  "defaulted c ty dflt = (c, \<lparr>cn_type = ty, cn_nullable = False, cn_server_default = Some dflt\<rparr>)"

lemmas column_defs = required_def optional_def defaulted_def

abbreviation add :: "string \<Rightarrow> string \<times> column \<Rightarrow> statement" where
  "add table k \<equiv> add_column table (fst k) (snd k)"

definition upgrade_0001 :: statement where
  "upgrade_0001 = statements
     [create_table ''users''
        [required ''id'' UuidT, required ''email'' (StringT 320), required ''full_name'' (StringT 255),
         required ''role'' (EnumT ''user_role'' [''admin'', ''researcher'', ''viewer'']),
         required ''is_active'' BooleanT, defaulted ''created_at'' DateTimeT ''now()'', defaulted ''updated_at'' DateTimeT ''now()'']
        [(''pk_users'', PrimaryKey [''id'']), (''uq_users_email'', Unique [''email''])],
      create_table ''documents''
        [required ''id'' UuidT, required ''user_id'' UuidT, required ''filename'' (StringT 512),
         required ''doc_type'' (EnumT ''document_type'' [''pdf'', ''text'', ''note'', ''report'']),
         required ''status'' (EnumT ''document_status'' [''pending'', ''processing'', ''ready'', ''error'']),
         defaulted ''metadata'' JsonbT ''{}'', required ''chunk_count'' IntegerT,
         defaulted ''created_at'' DateTimeT ''now()'', defaulted ''updated_at'' DateTimeT ''now()'', optional ''deleted_at'' DateTimeT]
        [(''ck_documents_chunk_count_non_negative'', Check (AtLeast ''chunk_count'' 0)),
         (''fk_documents_user_id_users'', ForeignKey [''user_id''] ''users'' [''id''] RESTRICT),
         (''pk_documents'', PrimaryKey [''id''])],
      create_index ''ix_documents_user_id_created_at'' ''documents'' [''user_id'', ''created_at''] False (IsNull ''deleted_at''),
      create_table ''document_chunks''
        [required ''id'' UuidT, required ''document_id'' UuidT, required ''chunk_index'' IntegerT, required ''content'' TextT,
         defaulted ''metadata'' JsonbT ''{}'', optional ''embedding_model_id'' (StringT 255), optional ''dimension'' IntegerT,
         defaulted ''created_at'' DateTimeT ''now()'']
        [(''ck_document_chunks_chunk_index_non_negative'', Check (AtLeast ''chunk_index'' 0)),
         (''ck_document_chunks_dimension_positive'', Check (EitherOf (IsNull ''dimension'') (Above ''dimension'' 0))),
         (''fk_document_chunks_document_id_documents'', ForeignKey [''document_id''] ''documents'' [''id''] CASCADE),
         (''pk_document_chunks'', PrimaryKey [''id'']),
         (''uq_document_chunks_document_id_chunk_index'', Unique [''document_id'', ''chunk_index''])]]"

definition downgrade_0001 :: statement where
  "downgrade_0001 = statements
     [drop_table ''document_chunks'', drop_index ''ix_documents_user_id_created_at'' ''documents'',
      drop_table ''documents'', drop_table ''users'']"

definition upgrade_0002 :: statement where
  "upgrade_0002 = statements [add ''users'' (optional ''password_hash'' (StringT 255))]"

definition downgrade_0002 :: statement where
  "downgrade_0002 = statements [drop_column ''users'' ''password_hash'']"

definition upgrade_0003 :: statement where
  "upgrade_0003 = statements
     [add ''documents'' (optional ''storage_key'' (StringT 255)),
      add ''documents'' (optional ''content_hash'' (StringT 64)),
      add ''documents'' (optional ''size_bytes'' BigIntegerT),
      add ''documents'' (optional ''mime_type'' (StringT 255)),
      add ''documents'' (optional ''page_count'' IntegerT),
      create_check_constraint ''ck_documents_size_bytes_positive'' ''documents'' (Above ''size_bytes'' 0),
      create_check_constraint ''ck_documents_page_count_positive'' ''documents'' (Above ''page_count'' 0),
      create_index ''uq_documents_user_id_content_hash'' ''documents'' [''user_id'', ''content_hash''] True (IsNull ''deleted_at'')]"

definition downgrade_0003 :: statement where
  "downgrade_0003 = statements
     [drop_index ''uq_documents_user_id_content_hash'' ''documents'',
      drop_constraint ''ck_documents_page_count_positive'' ''documents'',
      drop_constraint ''ck_documents_size_bytes_positive'' ''documents'',
      drop_column ''documents'' ''page_count'', drop_column ''documents'' ''mime_type'', drop_column ''documents'' ''size_bytes'',
      drop_column ''documents'' ''content_hash'', drop_column ''documents'' ''storage_key'']"

abbreviation status_constraint :: string where
  "status_constraint \<equiv> ''ck_documents_document_status''"

abbreviation reason_constraint :: string where
  "reason_constraint \<equiv> ''ck_documents_failure_reason_iff_failed''"

definition upgrade_0004 :: statement where
  "upgrade_0004 = statements
     [drop_constraint status_constraint ''documents'',
      add ''documents'' (optional ''failure_reason'' (StringT 64)),
      execute_update ''documents'' [(''status'', StrV (py_str ''failed'')), (''failure_reason'', StrV (py_str ''unknown''))]
        (Equals ''status'' ''error''),
      create_check_constraint status_constraint ''documents'' (OneOf ''status'' [''pending'', ''processing'', ''ready'', ''failed'']),
      create_check_constraint reason_constraint ''documents''
        (SameTruth (Equals ''status'' ''failed'') (IsNotNull ''failure_reason''))]"

definition downgrade_0004 :: statement where
  "downgrade_0004 = statements
     [drop_constraint reason_constraint ''documents'', drop_constraint status_constraint ''documents'',
      execute_update ''documents'' [(''status'', StrV (py_str ''error''))] (Equals ''status'' ''failed''),
      drop_column ''documents'' ''failure_reason'',
      create_check_constraint status_constraint ''documents'' (OneOf ''status'' [''pending'', ''processing'', ''ready'', ''error''])]"

definition upgrade_0005 :: statement where
  "upgrade_0005 = statements
     [drop_constraint status_constraint ''documents'',
      create_check_constraint status_constraint ''documents''
        (OneOf ''status'' [''pending'', ''processing'', ''parsed'', ''ready'', ''failed'']),
      create_table ''document_pages''
        [required ''document_id'' UuidT, required ''page_number'' IntegerT, required ''blocks'' JsonbT,
         defaulted ''created_at'' DateTimeT ''now()'']
        [(''ck_document_pages_page_number_positive'', Check (AtLeast ''page_number'' 1)),
         (''ck_document_pages_blocks_is_array'', Check (IsArray ''blocks'')),
         (''fk_document_pages_document_id_documents'', ForeignKey [''document_id''] ''documents'' [''id''] CASCADE),
         (''pk_document_pages'', PrimaryKey [''document_id'', ''page_number''])]]"

definition downgrade_0005 :: statement where
  "downgrade_0005 = statements
     [drop_table ''document_pages'', drop_constraint status_constraint ''documents'',
      execute_update ''documents'' [(''status'', StrV (py_str ''pending''))] (Equals ''status'' ''parsed''),
      create_check_constraint status_constraint ''documents'' (OneOf ''status'' [''pending'', ''processing'', ''ready'', ''failed''])]"

definition STATUSES_WITH_CHUNKED :: condition where
  "STATUSES_WITH_CHUNKED = OneOf ''status'' [''pending'', ''processing'', ''parsed'', ''chunked'', ''ready'', ''failed'']"

definition STATUSES_WITHOUT_CHUNKED :: condition where
  "STATUSES_WITHOUT_CHUNKED = OneOf ''status'' [''pending'', ''processing'', ''parsed'', ''ready'', ''failed'']"

definition upgrade_0006 :: statement where
  "upgrade_0006 st =
     (if 0 < select_count ''document_chunks'' st then Inl RuntimeError
      else statements
        [add ''document_chunks'' (required ''section'' TextT),
         add ''document_chunks'' (required ''page_start'' IntegerT),
         add ''document_chunks'' (required ''page_end'' IntegerT),
         add ''document_chunks'' (required ''token_count'' IntegerT),
         add ''document_chunks'' (required ''strategy_version'' (StringT 64)),
         add ''document_chunks'' (required ''tokenizer_id'' (StringT 64)),
         alter_column_nullable ''document_chunks'' ''section'' True,
         create_check_constraint ''ck_document_chunks_page_start_positive'' ''document_chunks'' (AtLeast ''page_start'' 1),
         create_check_constraint ''ck_document_chunks_page_end_not_before_start'' ''document_chunks'' (NotLess ''page_end'' ''page_start''),
         create_check_constraint ''ck_document_chunks_token_count_positive'' ''document_chunks'' (Above ''token_count'' 0),
         drop_constraint status_constraint ''documents'',
         create_check_constraint status_constraint ''documents'' STATUSES_WITH_CHUNKED] st)"

definition downgrade_0006 :: statement where
  "downgrade_0006 = statements
     [execute_delete ''document_chunks'',
      drop_constraint ''ck_document_chunks_token_count_positive'' ''document_chunks'',
      drop_constraint ''ck_document_chunks_page_end_not_before_start'' ''document_chunks'',
      drop_constraint ''ck_document_chunks_page_start_positive'' ''document_chunks'',
      drop_column ''document_chunks'' ''tokenizer_id'', drop_column ''document_chunks'' ''strategy_version'',
      drop_column ''document_chunks'' ''token_count'', drop_column ''document_chunks'' ''page_end'',
      drop_column ''document_chunks'' ''page_start'', drop_column ''document_chunks'' ''section'',
      drop_constraint status_constraint ''documents'',
      execute_update ''documents'' [(''status'', StrV (py_str ''parsed'')), (''chunk_count'', IntV 0)] (Equals ''status'' ''chunked''),
      execute_update ''documents'' [(''chunk_count'', IntV 0)] (Differs ''chunk_count'' 0),
      create_check_constraint status_constraint ''documents'' STATUSES_WITHOUT_CHUNKED]"

text \<open>
  \<open>down_revision\<close> chains the revisions in this order. \<open>env.py\<close> runs all of them in one transaction:
  what was refused leaves nothing behind.
\<close>

definition upgrades :: "statement list" where
  "upgrades = [upgrade_0001, upgrade_0002, upgrade_0003, upgrade_0004, upgrade_0005, upgrade_0006]"

definition downgrades :: "statement list" where
  "downgrades = [downgrade_0001, downgrade_0002, downgrade_0003, downgrade_0004, downgrade_0005, downgrade_0006]"

definition run_migrations :: "statement list \<Rightarrow> store \<Rightarrow> (exn, unit) result \<times> store" where
  "run_migrations revisions st =
     (case statements revisions st of Inl e \<Rightarrow> (Inl e, st) | Inr st' \<Rightarrow> (Inr (), st'))"

section \<open>The schema the models declare\<close>

text \<open>\<open>NAMING_CONVENTION\<close>: what an unnamed index or constraint is called.\<close>

fun joined :: "string list \<Rightarrow> string" where
  "joined [] = []"
| "joined [c] = c"
| "joined (c # cs) = c @ ''_'' @ joined cs"

definition naming_ix :: "string \<Rightarrow> string list \<Rightarrow> string" where
  "naming_ix table columns = ''ix_'' @ table @ ''_'' @ joined columns"

definition naming_uq :: "string \<Rightarrow> string list \<Rightarrow> string" where
  "naming_uq table columns = ''uq_'' @ table @ ''_'' @ joined columns"

definition naming_fk :: "string \<Rightarrow> string list \<Rightarrow> string \<Rightarrow> string" where
  "naming_fk table columns target = ''fk_'' @ table @ ''_'' @ joined columns @ ''_'' @ target"

definition naming_pk :: "string \<Rightarrow> string" where
  "naming_pk table = ''pk_'' @ table"

datatype table_arg =
  CheckArg condition string
| UniqueArg "string list"
| ForeignKeyArg string string string referential_action
| PrimaryKeyArg "string list"
| IndexArg "string option" "string list" bool condition

fun arg_constraint :: "string \<Rightarrow> table_arg \<Rightarrow> (string \<times> table_constraint) list" where
  "arg_constraint table (CheckArg cond name) = [(naming_ck table name, Check cond)]"
| "arg_constraint table (UniqueArg cs) = [(naming_uq table cs, Unique cs)]"
| "arg_constraint table (ForeignKeyArg c target c' act) = [(naming_fk table [c] target, ForeignKey [c] target [c'] act)]"
| "arg_constraint table (PrimaryKeyArg cs) = [(naming_pk table, PrimaryKey cs)]"
| "arg_constraint table (IndexArg _ _ _ _) = []"

fun arg_index :: "string \<Rightarrow> table_arg \<Rightarrow> (string \<times> table_index) list" where
  "arg_index table (IndexArg name cs unique cond) =
     [(case name of None \<Rightarrow> naming_ix table cs | Some n \<Rightarrow> n, \<lparr>ti_columns = cs, ti_unique = unique, ti_where = cond\<rparr>)]"
| "arg_index table _ = []"

definition declared_table :: "string \<Rightarrow> (string \<times> column) list \<Rightarrow> table_arg list \<Rightarrow> string \<times> sql_table" where
  "declared_table name columns args = (name, \<lparr>tb_columns = map stored columns,
     tb_constraints = concat (map (arg_constraint name) args) @ concat (map (enum_check name) columns),
     tb_indexes = concat (map (arg_index name) args), tb_rows = []\<rparr>)"

definition UserORM :: "string \<times> sql_table" where
  "UserORM = declared_table ''users''
     [required ''id'' UuidT, required ''email'' (StringT 320), required ''full_name'' (StringT 255),
      required ''role'' (EnumT ''user_role'' (map role_value [ADMIN, RESEARCHER, VIEWER])),
      required ''is_active'' BooleanT, optional ''password_hash'' (StringT 255),
      defaulted ''created_at'' DateTimeT ''now()'', defaulted ''updated_at'' DateTimeT ''now()'']
     [PrimaryKeyArg [''id''], UniqueArg [''email'']]"

fun type_value :: "DocumentType \<Rightarrow> string" where
  "type_value PDF = ''pdf''"
| "type_value TEXT = ''text''"
| "type_value NOTE = ''note''"
| "type_value REPORT = ''report''"

definition DocumentORM :: "string \<times> sql_table" where
  "DocumentORM = declared_table ''documents''
     [required ''id'' UuidT, required ''user_id'' UuidT, required ''filename'' (StringT 512),
      required ''doc_type'' (EnumT ''document_type'' (map type_value [PDF, TEXT, NOTE, REPORT])),
      required ''status'' (EnumT ''document_status'' (map status_value
        [DocumentStatus.PENDING, DocumentStatus.PROCESSING, DocumentStatus.PARSED, DocumentStatus.CHUNKED,
         DocumentStatus.READY, DocumentStatus.FAILED])),
      defaulted ''metadata'' JsonbT ''{}'', required ''chunk_count'' IntegerT, optional ''storage_key'' (StringT 255),
      optional ''content_hash'' (StringT 64), optional ''size_bytes'' BigIntegerT, optional ''mime_type'' (StringT 255),
      optional ''page_count'' IntegerT, optional ''failure_reason'' (StringT 64),
      defaulted ''created_at'' DateTimeT ''now()'', defaulted ''updated_at'' DateTimeT ''now()'', optional ''deleted_at'' DateTimeT]
     [PrimaryKeyArg [''id''], ForeignKeyArg ''user_id'' ''users'' ''id'' RESTRICT,
      IndexArg None [''user_id'', ''created_at''] False (IsNull ''deleted_at''),
      CheckArg (AtLeast ''chunk_count'' 0) ''chunk_count_non_negative'',
      CheckArg (Above ''size_bytes'' 0) ''size_bytes_positive'', CheckArg (Above ''page_count'' 0) ''page_count_positive'',
      CheckArg (SameTruth (Equals ''status'' ''failed'') (IsNotNull ''failure_reason'')) ''failure_reason_iff_failed'',
      IndexArg (Some ''uq_documents_user_id_content_hash'') [''user_id'', ''content_hash''] True (IsNull ''deleted_at'')]"

definition DocumentPageORM :: "string \<times> sql_table" where
  "DocumentPageORM = declared_table ''document_pages''
     [required ''document_id'' UuidT, required ''page_number'' IntegerT, required ''blocks'' JsonbT,
      defaulted ''created_at'' DateTimeT ''now()'']
     [PrimaryKeyArg [''document_id'', ''page_number''], ForeignKeyArg ''document_id'' ''documents'' ''id'' CASCADE,
      CheckArg (AtLeast ''page_number'' 1) ''page_number_positive'', CheckArg (IsArray ''blocks'') ''blocks_is_array'']"

definition DocumentChunkORM :: "string \<times> sql_table" where
  "DocumentChunkORM = declared_table ''document_chunks''
     [required ''id'' UuidT, required ''document_id'' UuidT, required ''chunk_index'' IntegerT, required ''content'' TextT,
      optional ''section'' TextT, required ''page_start'' IntegerT, required ''page_end'' IntegerT, required ''token_count'' IntegerT,
      required ''strategy_version'' (StringT 64), required ''tokenizer_id'' (StringT 64), defaulted ''metadata'' JsonbT ''{}'',
      optional ''embedding_model_id'' (StringT 255), optional ''dimension'' IntegerT, defaulted ''created_at'' DateTimeT ''now()'']
     [PrimaryKeyArg [''id''], ForeignKeyArg ''document_id'' ''documents'' ''id'' CASCADE, UniqueArg [''document_id'', ''chunk_index''],
      CheckArg (AtLeast ''chunk_index'' 0) ''chunk_index_non_negative'', CheckArg (AtLeast ''page_start'' 1) ''page_start_positive'',
      CheckArg (NotLess ''page_end'' ''page_start'') ''page_end_not_before_start'', CheckArg (Above ''token_count'' 0) ''token_count_positive'',
      CheckArg (EitherOf (IsNull ''dimension'') (Above ''dimension'' 0)) ''dimension_positive'']"

definition Base_metadata :: store where
  "Base_metadata = [UserORM, DocumentORM, DocumentPageORM, DocumentChunkORM]"

end
