(* ===== verification/MigrationSafety.thy ===== *)
theory MigrationSafety
  imports Migrations
begin

text \<open>
  What one statement of a migration needs and leaves. \<open>schema_at n\<close> is the schema after revision n,
  \<open>describes\<close> says that a store with rows has the tables of a schema, and \<open>sound\<close> that its rows keep every
  constraint. For each kind of statement there is one lemma: when it is accepted, and that the store
  it leaves is sound again.
\<close>

definition mk_table :: "(string \<times> column) list \<Rightarrow> (string \<times> table_constraint) list \<Rightarrow> (string \<times> table_index) list \<Rightarrow> sql_table" where
  "mk_table columns constraints indexes = \<lparr>tb_columns = columns, tb_constraints = constraints, tb_indexes = indexes, tb_rows = []\<rparr>"

definition users_at :: "nat \<Rightarrow> sql_table" where
  "users_at n = mk_table
     ([required ''id'' UuidT, required ''email'' (StringT 320), required ''full_name'' (StringT 255), required ''role'' (StringT 10),
       required ''is_active'' BooleanT, defaulted ''created_at'' DateTimeT ''now()'', defaulted ''updated_at'' DateTimeT ''now()'']
      @ (if 2 \<le> n then [optional ''password_hash'' (StringT 255)] else []))
     [(''pk_users'', PrimaryKey [''id'']), (''uq_users_email'', Unique [''email'']),
      (''ck_users_user_role'', Check (OneOf ''role'' [''admin'', ''researcher'', ''viewer'']))]
     []"

definition statuses_at :: "nat \<Rightarrow> string list" where
  "statuses_at n = [''pending'', ''processing''] @ (if 5 \<le> n then [''parsed''] else []) @ (if 6 \<le> n then [''chunked''] else [])
     @ [''ready'', if 4 \<le> n then ''failed'' else ''error'']"

definition documents_at :: "nat \<Rightarrow> sql_table" where
  "documents_at n = mk_table
     ([required ''id'' UuidT, required ''user_id'' UuidT, required ''filename'' (StringT 512), required ''doc_type'' (StringT 6),
       required ''status'' (StringT 10), defaulted ''metadata'' JsonbT ''{}'', required ''chunk_count'' IntegerT,
       defaulted ''created_at'' DateTimeT ''now()'', defaulted ''updated_at'' DateTimeT ''now()'', optional ''deleted_at'' DateTimeT]
      @ (if 3 \<le> n then [optional ''storage_key'' (StringT 255), optional ''content_hash'' (StringT 64),
           optional ''size_bytes'' BigIntegerT, optional ''mime_type'' (StringT 255), optional ''page_count'' IntegerT] else [])
      @ (if 4 \<le> n then [optional ''failure_reason'' (StringT 64)] else []))
     ([(''ck_documents_chunk_count_non_negative'', Check (AtLeast ''chunk_count'' 0)),
       (''fk_documents_user_id_users'', ForeignKey [''user_id''] ''users'' [''id''] RESTRICT),
       (''pk_documents'', PrimaryKey [''id'']),
       (''ck_documents_document_type'', Check (OneOf ''doc_type'' [''pdf'', ''text'', ''note'', ''report''])),
       (status_constraint, Check (OneOf ''status'' (statuses_at n)))]
      @ (if 3 \<le> n then [(''ck_documents_size_bytes_positive'', Check (Above ''size_bytes'' 0)),
           (''ck_documents_page_count_positive'', Check (Above ''page_count'' 0))] else [])
      @ (if 4 \<le> n then [(reason_constraint, Check (SameTruth (Equals ''status'' ''failed'') (IsNotNull ''failure_reason'')))] else []))
     ([(''ix_documents_user_id_created_at'',
         \<lparr>ti_columns = [''user_id'', ''created_at''], ti_unique = False, ti_where = IsNull ''deleted_at''\<rparr>)]
      @ (if 3 \<le> n then [(''uq_documents_user_id_content_hash'',
         \<lparr>ti_columns = [''user_id'', ''content_hash''], ti_unique = True, ti_where = IsNull ''deleted_at''\<rparr>)] else []))"

definition chunks_at :: "nat \<Rightarrow> sql_table" where
  "chunks_at n = mk_table
     ([required ''id'' UuidT, required ''document_id'' UuidT, required ''chunk_index'' IntegerT, required ''content'' TextT,
       defaulted ''metadata'' JsonbT ''{}'', optional ''embedding_model_id'' (StringT 255), optional ''dimension'' IntegerT,
       defaulted ''created_at'' DateTimeT ''now()'']
      @ (if 6 \<le> n then [optional ''section'' TextT, required ''page_start'' IntegerT, required ''page_end'' IntegerT,
           required ''token_count'' IntegerT, required ''strategy_version'' (StringT 64), required ''tokenizer_id'' (StringT 64)] else []))
     ([(''ck_document_chunks_chunk_index_non_negative'', Check (AtLeast ''chunk_index'' 0)),
       (''ck_document_chunks_dimension_positive'', Check (EitherOf (IsNull ''dimension'') (Above ''dimension'' 0))),
       (''fk_document_chunks_document_id_documents'', ForeignKey [''document_id''] ''documents'' [''id''] CASCADE),
       (''pk_document_chunks'', PrimaryKey [''id'']),
       (''uq_document_chunks_document_id_chunk_index'', Unique [''document_id'', ''chunk_index''])]
      @ (if 6 \<le> n then [(''ck_document_chunks_page_start_positive'', Check (AtLeast ''page_start'' 1)),
           (''ck_document_chunks_page_end_not_before_start'', Check (NotLess ''page_end'' ''page_start'')),
           (''ck_document_chunks_token_count_positive'', Check (Above ''token_count'' 0))] else []))
     []"

definition pages_at :: "nat \<Rightarrow> sql_table" where
  "pages_at n = mk_table
     [required ''document_id'' UuidT, required ''page_number'' IntegerT, required ''blocks'' JsonbT, defaulted ''created_at'' DateTimeT ''now()'']
     [(''ck_document_pages_page_number_positive'', Check (AtLeast ''page_number'' 1)),
      (''ck_document_pages_blocks_is_array'', Check (IsArray ''blocks'')),
      (''fk_document_pages_document_id_documents'', ForeignKey [''document_id''] ''documents'' [''id''] CASCADE),
      (''pk_document_pages'', PrimaryKey [''document_id'', ''page_number''])]
     []"

definition schema_at :: "nat \<Rightarrow> store" where
  "schema_at n = (if n = 0 then [] else [(''users'', users_at n), (''documents'', documents_at n), (''document_chunks'', chunks_at n)])
     @ (if 5 \<le> n then [(''document_pages'', pages_at n)] else [])"

definition same_table :: "sql_table \<Rightarrow> sql_table \<Rightarrow> bool" where
  "same_table t t' \<longleftrightarrow> tb_columns t = tb_columns t' \<and> set (tb_constraints t) = set (tb_constraints t') \<and> tb_indexes t = tb_indexes t'"

definition confined :: "sql_table \<Rightarrow> bool" where
  "confined t \<longleftrightarrow> (\<forall>r \<in> set (tb_rows t). \<forall>c. c \<notin> fst ` set (tb_columns t) \<longrightarrow> r c = NullV)"

definition sound :: "store \<Rightarrow> bool" where
  "sound st \<longleftrightarrow> store_ok st \<and> distinct (map fst st) \<and> (\<forall>t \<in> set st. confined (snd t))"

definition describes :: "store \<Rightarrow> store \<Rightarrow> bool" where
  "describes ss st \<longleftrightarrow> list_all2 (\<lambda>t s. fst t = fst s \<and> same_table (snd t) (snd s)) st ss \<and> sound st"

definition at_revision :: "nat \<Rightarrow> store \<Rightarrow> bool" where
  "at_revision n st \<longleftrightarrow> describes (schema_at n) st"

lemmas schema_defs = schema_at_def users_at_def documents_at_def chunks_at_def pages_at_def mk_table_def column_defs statuses_at_def

section \<open>What a statement may not change\<close>

lemma truth_cong: "(\<And>c. c \<in> set (condition_columns cond) \<Longrightarrow> r c = r' c) \<Longrightarrow> truth cond r = truth cond r'"
  by (induction cond) auto

lemma keys_of_map:
  "(\<And>r c. r \<in> set rows \<Longrightarrow> c \<in> set cs \<Longrightarrow> f r c = r c) \<Longrightarrow> keys_of cs (map f rows) = keys_of cs rows"
  by (induction rows) (auto simp: keys_of_def list_all_iff)

lemma satisfied_map:
  assumes "\<And>r c. r \<in> set rows \<Longrightarrow> c \<in> set (constraint_columns k) \<Longrightarrow> f r c = r c"
  shows "satisfied st (map f rows) k = satisfied st rows k"
proof (cases k)
  case (Check cond)
  have "truth cond (f r) = truth cond r" if "r \<in> set rows" for r
    by (rule truth_cong) (use assms Check that in simp)
  then show ?thesis by (simp add: Check list_all_iff)
next
  case (PrimaryKey cs)
  then show ?thesis using assms by (simp add: keys_of_map list_all_iff)
qed (use assms in \<open>simp_all add: keys_of_map\<close>)

lemma index_satisfied_map:
  assumes "\<And>r c. r \<in> set rows \<Longrightarrow> c \<in> set (ti_columns i @ condition_columns (ti_where i)) \<Longrightarrow> f r c = r c"
  shows "index_satisfied (map f rows) i = index_satisfied rows i"
proof -
  have t: "truth (ti_where i) (f r) = truth (ti_where i) r" if "r \<in> set rows" for r
    by (rule truth_cong) (use assms that in simp)
  have "filter (\<lambda>r. truth (ti_where i) r = Some True) (map f rows) = map f (filter (\<lambda>r. truth (ti_where i) r = Some True) rows)"
    using t by (simp add: filter_map comp_def cong: filter_cong)
  moreover have "keys_of (ti_columns i) (map f (filter (\<lambda>r. truth (ti_where i) r = Some True) rows)) =
      keys_of (ti_columns i) (filter (\<lambda>r. truth (ti_where i) r = Some True) rows)"
    by (rule keys_of_map) (use assms in auto)
  ultimately show ?thesis by (simp add: index_satisfied_def)
qed

text \<open>The columns of a table that other tables refer to.\<close>

fun target_columns :: "string \<Rightarrow> table_constraint \<Rightarrow> string set" where
  "target_columns name (ForeignKey _ target cs _) = (if target = name then set cs else {})"
| "target_columns name _ = {}"

definition referenced :: "string \<Rightarrow> store \<Rightarrow> string set" where
  "referenced name st = (\<Union>t \<in> set st. \<Union>k \<in> set (tb_constraints (snd t)). target_columns name (snd k))"

lemma map_of_with_table [simp]: "map_of (with_table n t' st) m = (if m = n then map_option (\<lambda>_. t') (map_of st n) else map_of st m)"
  by (induction st) (auto simp: with_table_def)

lemma with_table_fst [simp]: "map fst (with_table n t' st) = map fst st"
  by (auto simp: with_table_def)

lemma with_table_twice [simp]: "with_table n t2 (with_table n t1 st) = with_table n t2 st"
  by (auto simp: with_table_def)

lemma set_with_table: "x \<in> set (with_table n t' st) \<Longrightarrow> x \<in> set st \<and> fst x \<noteq> n \<or> x = (n, t')"
  by (auto simp: with_table_def split: if_splits)

lemma satisfied_store:
  assumes "\<And>cs target cs' a. k = ForeignKey cs target cs' a \<Longrightarrow>
    (case map_of st target of None \<Rightarrow> [] | Some t \<Rightarrow> keys_of cs' (tb_rows t)) = (case map_of st' target of None \<Rightarrow> [] | Some t \<Rightarrow> keys_of cs' (tb_rows t))"
  shows "satisfied st rows k = satisfied st' rows k"
  using assms by (cases k) auto

text \<open>
  A statement on one table keeps the store sound if the table it leaves is right by itself and the
  rows keep the keys that others refer to.
\<close>

lemma sound_with_rows:
  assumes "sound st" and "map_of st n = Some t" and "confined t'"
    and other: "\<And>x m cs cs' a. x \<in> set st \<Longrightarrow> (m, ForeignKey cs n cs' a) \<in> set (tb_constraints (snd x)) \<Longrightarrow>
      keys_of cs' (tb_rows t') = keys_of cs' (tb_rows t)"
    and own: "\<And>m cs cs' a. (m, ForeignKey cs n cs' a) \<in> set (tb_constraints t') \<Longrightarrow> keys_of cs' (tb_rows t') = keys_of cs' (tb_rows t)"
    and "list_all (row_fits (tb_columns t')) (tb_rows t')"
    and "\<And>m k. (m, k) \<in> set (tb_constraints t') \<Longrightarrow> satisfied st (tb_rows t') k"
    and "\<And>m i. (m, i) \<in> set (tb_indexes t') \<Longrightarrow> index_satisfied (tb_rows t') i"
  shows "sound (with_table n t' st)"
proof -
  have same: "satisfied (with_table n t' st) rows k = satisfied st rows k"
    if "\<And>cs cs' a. k = ForeignKey cs n cs' a \<Longrightarrow> keys_of cs' (tb_rows t') = keys_of cs' (tb_rows t)" for rows k
    by (rule satisfied_store) (use that assms(2) in auto)
  have "table_ok (with_table n t' st) (snd x)" if x: "x \<in> set st" "fst x \<noteq> n" for x
  proof -
    have "satisfied (with_table n t' st) rows (snd k) = satisfied st rows (snd k)" if "k \<in> set (tb_constraints (snd x))" for k rows
      by (rule same) (use other [OF x(1)] that in \<open>metis prod.collapse\<close>)
    moreover have "table_ok st (snd x)" using assms(1) x by (auto simp: sound_def store_ok_def list_all_iff)
    ultimately show ?thesis by (auto simp: table_ok_def list_all_iff)
  qed
  moreover have "table_ok (with_table n t' st) t'"
  proof -
    have "satisfied (with_table n t' st) rows (snd k) = satisfied st rows (snd k)" if "k \<in> set (tb_constraints t')" for k rows
      by (rule same) (use own that in \<open>metis prod.collapse\<close>)
    with assms(6-8) show ?thesis by (auto simp: table_ok_def list_all_iff)
  qed
  ultimately have "store_ok (with_table n t' st)"
    by (auto simp: store_ok_def list_all_iff dest!: set_with_table)
  moreover have "confined (snd x)" if "x \<in> set (with_table n t' st)" for x
    using set_with_table [OF that] assms(1,3) by (auto simp: sound_def)
  ultimately show ?thesis using assms(1) by (simp add: sound_def)
qed

lemma sound_with_table:
  assumes "sound st" and "map_of st n = Some t" and "confined t'"
    and "tb_rows t' = map f (tb_rows t)" and "\<And>r c. r \<in> set (tb_rows t) \<Longrightarrow> c \<in> referenced n st \<Longrightarrow> f r c = r c"
    and "\<And>m k c. (m, k) \<in> set (tb_constraints t') \<Longrightarrow> c \<in> target_columns n k \<Longrightarrow> c \<in> referenced n st"
    and "list_all (row_fits (tb_columns t')) (tb_rows t')"
    and "\<And>m k. (m, k) \<in> set (tb_constraints t') \<Longrightarrow> satisfied st (tb_rows t') k"
    and "\<And>m i. (m, i) \<in> set (tb_indexes t') \<Longrightarrow> index_satisfied (tb_rows t') i"
  shows "sound (with_table n t' st)"
proof -
  have keys: "keys_of cs' (tb_rows t') = keys_of cs' (tb_rows t)" if "set cs' \<subseteq> referenced n st" for cs'
    unfolding assms(4) by (rule keys_of_map) (use assms(5) that in auto)
  show ?thesis
  proof (rule sound_with_rows [OF assms(1-3)])
    fix x m cs cs' a assume "x \<in> set st" "(m, ForeignKey cs n cs' a) \<in> set (tb_constraints (snd x))"
    then have "set cs' \<subseteq> referenced n st" by (force simp: referenced_def)
    then show "keys_of cs' (tb_rows t') = keys_of cs' (tb_rows t)" by (rule keys)
  next
    fix m cs cs' a assume "(m, ForeignKey cs n cs' a) \<in> set (tb_constraints t')"
    with assms(6) have "set cs' \<subseteq> referenced n st" by fastforce
    then show "keys_of cs' (tb_rows t') = keys_of cs' (tb_rows t)" by (rule keys)
  qed (use assms(7-9) in auto)
qed

lemma sound_table:
  assumes "sound st" and "map_of st n = Some t"
  shows "confined t" "list_all (row_fits (tb_columns t)) (tb_rows t)"
    "(m, k) \<in> set (tb_constraints t) \<Longrightarrow> satisfied st (tb_rows t) k"
    "(m, k) \<in> set (tb_constraints t) \<Longrightarrow> c \<in> target_columns n k \<Longrightarrow> c \<in> referenced n st"
    "(m, i) \<in> set (tb_indexes t) \<Longrightarrow> index_satisfied (tb_rows t) i"
proof -
  have mem: "(n, t) \<in> set st" using assms(2) by (rule map_of_SomeD)
  then have ok: "table_ok st t" "confined t" using assms(1) by (auto simp: sound_def store_ok_def list_all_iff)
  show "confined t" by (rule ok)
  show "list_all (row_fits (tb_columns t)) (tb_rows t)" using ok by (simp add: table_ok_def)
  show "satisfied st (tb_rows t) k" if "(m, k) \<in> set (tb_constraints t)" using ok that by (auto simp: table_ok_def list_all_iff)
  show "index_satisfied (tb_rows t) i" if "(m, i) \<in> set (tb_indexes t)" using ok that by (auto simp: table_ok_def list_all_iff)
  show "c \<in> referenced n st" if "(m, k) \<in> set (tb_constraints t)" "c \<in> target_columns n k"
    using that mem unfolding referenced_def by force
qed

lemma on_table_step:
  assumes "map_of st n = Some t" and "f t = Some t'" and "sound (with_table n t' st)"
  shows "on_table n f st = Inr (with_table n t' st)"
  using assms by (simp add: on_table_def accept_def sound_def)

lemma drop_constraint_step:
  assumes "sound st" and "map_of st n = Some t" and "name \<in> fst ` set (tb_constraints t)"
  defines "t' \<equiv> t\<lparr>tb_constraints := filter (\<lambda>k. fst k \<noteq> name) (tb_constraints t)\<rparr>"
  shows "drop_constraint name n st = Inr (with_table n t' st)" "sound (with_table n t' st)"
proof -
  note T = sound_table [OF assms(1,2)]
  show s: "sound (with_table n t' st)"
    by (rule sound_with_table [OF assms(1,2), where f = id]) (use T in \<open>auto simp: t'_def confined_def\<close>)
  show "drop_constraint name n st = Inr (with_table n t' st)"
    unfolding drop_constraint_def by (rule on_table_step [OF assms(2) _ s]) (use assms(3) in \<open>simp add: t'_def\<close>)
qed

lemma add_optional_step:
  assumes "sound st" and "map_of st n = Some t" and "c \<notin> fst ` set (tb_columns t)" and "cn_nullable k \<or> tb_rows t = []"
  defines "t' \<equiv> t\<lparr>tb_columns := tb_columns t @ [(c, k)]\<rparr>"
  shows "add_column n c k st = Inr (with_table n t' st)" "sound (with_table n t' st)"
proof -
  note T = sound_table [OF assms(1,2)]
  have null: "r c = NullV" if "r \<in> set (tb_rows t)" for r using T(1) assms(3) that by (simp add: confined_def)
  show s: "sound (with_table n t' st)"
  proof (rule sound_with_table [OF assms(1,2), where f = id])
    show "list_all (row_fits (tb_columns t')) (tb_rows t')"
    proof -
      have "fits (cn_type k) (r c) \<and> (r c = NullV \<longrightarrow> cn_nullable k)" if "r \<in> set (tb_rows t)" for r
        using null [OF that] assms(4) that by auto
      with T(2) show ?thesis by (auto simp: t'_def row_fits_def list_all_iff)
    qed
  qed (use T in \<open>auto simp: t'_def confined_def\<close>)
  show "add_column n c k st = Inr (with_table n t' st)"
    unfolding add_column_def by (rule on_table_step [OF assms(2) _ s]) (use assms(3) in \<open>simp add: t'_def\<close>)
qed

lemma create_check_step:
  assumes "sound st" and "map_of st n = Some t" and "name \<notin> fst ` set (tb_constraints t)"
    and "set (condition_columns cond) \<subseteq> fst ` set (tb_columns t)" and "\<And>r. r \<in> set (tb_rows t) \<Longrightarrow> truth cond r \<noteq> Some False"
  defines "t' \<equiv> t\<lparr>tb_constraints := tb_constraints t @ [(name, Check cond)]\<rparr>"
  shows "create_check_constraint name n cond st = Inr (with_table n t' st)" "sound (with_table n t' st)"
proof -
  note T = sound_table [OF assms(1,2)]
  show s: "sound (with_table n t' st)"
    by (rule sound_with_table [OF assms(1,2), where f = id]) (use T assms(5) in \<open>auto simp: t'_def confined_def list_all_iff\<close>)
  show "create_check_constraint name n cond st = Inr (with_table n t' st)"
    unfolding create_check_constraint_def
    by (rule on_table_step [OF assms(2) _ s]) (use assms(3,4) in \<open>auto simp: t'_def list_all_iff\<close>)
qed

lemma create_index_step:
  assumes "sound st" and "map_of st n = Some t" and "name \<notin> fst ` set (tb_indexes t)"
    and "set (columns @ condition_columns cond) \<subseteq> fst ` set (tb_columns t)"
    and "index_satisfied (tb_rows t) \<lparr>ti_columns = columns, ti_unique = unique, ti_where = cond\<rparr>"
  defines "t' \<equiv> t\<lparr>tb_indexes := tb_indexes t @ [(name, \<lparr>ti_columns = columns, ti_unique = unique, ti_where = cond\<rparr>)]\<rparr>"
  shows "create_index name n columns unique cond st = Inr (with_table n t' st)" "sound (with_table n t' st)"
proof -
  note T = sound_table [OF assms(1,2)]
  show s: "sound (with_table n t' st)"
    by (rule sound_with_table [OF assms(1,2), where f = id]) (use T assms(5) in \<open>auto simp: t'_def confined_def\<close>)
  show "create_index name n columns unique cond st = Inr (with_table n t' st)"
    unfolding create_index_def
    by (rule on_table_step [OF assms(2) _ s]) (use assms(3,4) in \<open>auto simp: t'_def list_all_iff\<close>)
qed

lemma drop_index_step:
  assumes "sound st" and "map_of st n = Some t" and "name \<in> fst ` set (tb_indexes t)"
  defines "t' \<equiv> t\<lparr>tb_indexes := filter (\<lambda>i. fst i \<noteq> name) (tb_indexes t)\<rparr>"
  shows "drop_index name n st = Inr (with_table n t' st)" "sound (with_table n t' st)"
proof -
  note T = sound_table [OF assms(1,2)]
  show s: "sound (with_table n t' st)"
    by (rule sound_with_table [OF assms(1,2), where f = id]) (use T in \<open>auto simp: t'_def confined_def\<close>)
  show "drop_index name n st = Inr (with_table n t' st)"
    unfolding drop_index_def by (rule on_table_step [OF assms(2) _ s]) (use assms(3) in \<open>simp add: t'_def\<close>)
qed

lemma drop_column_step:
  assumes "sound st" and "map_of st n = Some t" and "c \<in> fst ` set (tb_columns t)" and "c \<notin> referenced n st"
  defines "t' \<equiv> t\<lparr>tb_columns := filter (\<lambda>k. fst k \<noteq> c) (tb_columns t),
       tb_constraints := filter (\<lambda>k. c \<notin> set (constraint_columns (snd k))) (tb_constraints t),
       tb_indexes := filter (\<lambda>i. c \<notin> set (ti_columns (snd i) @ condition_columns (ti_where (snd i)))) (tb_indexes t),
       tb_rows := map (\<lambda>r. r(c := NullV)) (tb_rows t)\<rparr>"
  shows "drop_column n c st = Inr (with_table n t' st)" "sound (with_table n t' st)"
proof -
  note T = sound_table [OF assms(1,2)]
  show s: "sound (with_table n t' st)"
  proof (rule sound_with_table [OF assms(1,2), where f = "\<lambda>r. r(c := NullV)"])
    show "confined t'" using T(1) by (auto simp: t'_def confined_def)
    show "list_all (row_fits (tb_columns t')) (tb_rows t')"
      using T(2) by (auto simp: t'_def row_fits_def list_all_iff)
  next
    fix m k assume k: "(m, k) \<in> set (tb_constraints t')"
    then have "c \<notin> set (constraint_columns k)" by (auto simp: t'_def)
    then have "satisfied st (map (\<lambda>r. r(c := NullV)) (tb_rows t)) k = satisfied st (tb_rows t) k"
      by (intro satisfied_map) auto
    with T(3) k show "satisfied st (tb_rows t') k" by (auto simp: t'_def)
    show "x \<in> referenced n st" if "x \<in> target_columns n k" for x using T(4) k that by (auto simp: t'_def)
  next
    fix m i assume i: "(m, i) \<in> set (tb_indexes t')"
    then have "c \<notin> set (ti_columns i @ condition_columns (ti_where i))" by (auto simp: t'_def)
    then have "index_satisfied (map (\<lambda>r. r(c := NullV)) (tb_rows t)) i = index_satisfied (tb_rows t) i"
      by (intro index_satisfied_map) auto
    with T(5) i show "index_satisfied (tb_rows t') i" by (auto simp: t'_def)
  qed (use assms(4) in \<open>auto simp: t'_def\<close>)
  show "drop_column n c st = Inr (with_table n t' st)"
    unfolding drop_column_def by (rule on_table_step [OF assms(2) _ s]) (use assms(3) in \<open>simp add: t'_def\<close>)
qed

lemma nullable_step:
  assumes "sound st" and "map_of st n = Some t" and "c \<in> fst ` set (tb_columns t)"
  defines "t' \<equiv> t\<lparr>tb_columns := map (\<lambda>(m, k). (m, if m = c then k\<lparr>cn_nullable := True\<rparr> else k)) (tb_columns t)\<rparr>"
  shows "alter_column_nullable n c True st = Inr (with_table n t' st)" "sound (with_table n t' st)"
proof -
  note T = sound_table [OF assms(1,2)]
  have names: "fst ` set (tb_columns t') = fst ` set (tb_columns t)" by (force simp: t'_def)
  show s: "sound (with_table n t' st)"
    by (rule sound_with_table [OF assms(1,2), where f = id])
      (use T names in \<open>auto simp: t'_def confined_def row_fits_def list_all_iff split: prod.splits\<close>)
  show "alter_column_nullable n c True st = Inr (with_table n t' st)"
    unfolding alter_column_nullable_def by (rule on_table_step [OF assms(2) _ s]) (use assms(3) in \<open>simp add: t'_def\<close>)
qed

lemma assign_other: "c \<notin> fst ` set changes \<Longrightarrow> assign changes r c = r c"
  by (induction changes r rule: assign.induct) auto

lemma assign_changed: "c \<in> fst ` set changes \<Longrightarrow> (c, assign changes r c) \<in> set changes"
proof (induction changes r rule: assign.induct)
  case (2 d v changes r)
  show ?case
  proof (cases "c \<in> fst ` set changes")
    case True
    from "2.IH" [OF True] show ?thesis by (simp del: fun_upd_apply)
  next
    case False
    with "2.prems" have "c = d" by auto
    then show ?thesis using assign_other [OF False, of "r(d := v)"] by simp
  qed
qed simp

lemma update_step:
  assumes "sound st" and "map_of st n = Some t" and "fst ` set changes \<subseteq> fst ` set (tb_columns t)"
    and "fst ` set changes \<inter> referenced n st = {}"
    and "\<And>c k v. (c, k) \<in> set (tb_columns t) \<Longrightarrow> (c, v) \<in> set changes \<Longrightarrow> fits (cn_type k) v \<and> (v = NullV \<longrightarrow> cn_nullable k)"
    and "\<And>m k. (m, k) \<in> set (tb_constraints t) \<Longrightarrow> set (constraint_columns k) \<inter> fst ` set changes \<noteq> {} \<Longrightarrow>
      satisfied st (update_where (\<lambda>r. truth cond r = Some True) (assign changes) (tb_rows t)) k"
    and "\<And>m i. (m, i) \<in> set (tb_indexes t) \<Longrightarrow> set (ti_columns i @ condition_columns (ti_where i)) \<inter> fst ` set changes = {}"
  defines "t' \<equiv> t\<lparr>tb_rows := update_where (\<lambda>r. truth cond r = Some True) (assign changes) (tb_rows t)\<rparr>"
  shows "execute_update n changes cond st = Inr (with_table n t' st)" "sound (with_table n t' st)"
proof -
  let ?f = "\<lambda>r. if truth cond r = Some True then assign changes r else r"
  note T = sound_table [OF assms(1,2)]
  have rows: "tb_rows t' = map ?f (tb_rows t)" by (simp add: t'_def update_where_def)
  have keep: "?f r c = r c" if "c \<notin> fst ` set changes" for r c using that by (simp add: assign_other)
  show s: "sound (with_table n t' st)"
  proof (rule sound_with_table [OF assms(1,2) _ rows])
    have "c \<notin> fst ` set changes" if "c \<notin> fst ` set (tb_columns t)" for c using that assms(3) by blast
    with T(1) show "confined t'" unfolding confined_def rows by (auto simp: t'_def assign_other)
    show "list_all (row_fits (tb_columns t')) (tb_rows t')"
    proof -
      have "row_fits (tb_columns t') (?f r)" if r: "r \<in> set (tb_rows t)" for r
      proof -
        have "fits (cn_type k) (assign changes r c) \<and> (assign changes r c = NullV \<longrightarrow> cn_nullable k)"
          if "(c, k) \<in> set (tb_columns t)" for c k
        proof (cases "c \<in> fst ` set changes")
          case True
          from assms(5) [OF that assign_changed [OF this]] show ?thesis .
        qed (use T(2) r that in \<open>auto simp: assign_other row_fits_def list_all_iff\<close>)
        with T(2) r show ?thesis by (auto simp: t'_def row_fits_def list_all_iff)
      qed
      then show ?thesis unfolding rows list_all_iff set_map by blast
    qed
    show "satisfied st (tb_rows t') k" if "(m, k) \<in> set (tb_constraints t')" for m k
    proof (cases "set (constraint_columns k) \<inter> fst ` set changes = {}")
      case True
      then have "satisfied st (map ?f (tb_rows t)) k = satisfied st (tb_rows t) k" by (intro satisfied_map keep) blast
      with T(3) that show ?thesis unfolding rows by (simp add: t'_def)
    next
      case False
      with assms(6) that show ?thesis by (simp add: t'_def)
    qed
    show "index_satisfied (tb_rows t') i" if "(m, i) \<in> set (tb_indexes t')" for m i
    proof -
      have "set (ti_columns i @ condition_columns (ti_where i)) \<inter> fst ` set changes = {}"
        using assms(7) [of m i] that by (simp add: t'_def)
      then have "index_satisfied (map ?f (tb_rows t)) i = index_satisfied (tb_rows t) i"
        by (intro index_satisfied_map keep) blast
      with T(5) that show ?thesis unfolding rows by (simp add: t'_def)
    qed
    show "?f r c = r c" if "c \<in> referenced n st" for r c using that assms(4) by (intro keep) blast
    show "c \<in> referenced n st" if "(m, k) \<in> set (tb_constraints t')" "c \<in> target_columns n k" for m k c
      using T(4) that by (simp add: t'_def)
  qed
  show "execute_update n changes cond st = Inr (with_table n t' st)"
    unfolding execute_update_def by (rule on_table_step [OF assms(2) _ s]) (simp add: t'_def)
qed

text \<open>Of a table nobody refers to, all rows may go.\<close>

definition unreferenced :: "string \<Rightarrow> store \<Rightarrow> bool" where
  "unreferenced n st \<longleftrightarrow> list_all (\<lambda>t. list_all (\<lambda>k. \<not> refers_to n (snd k)) (tb_constraints (snd t))) st"

lemma satisfied_no_rows: "satisfied st [] k"
  by (cases k) (auto simp: keys_of_def)

lemma index_satisfied_no_rows: "index_satisfied [] i"
  by (simp add: index_satisfied_def keys_of_def)

lemma delete_step:
  assumes "sound st" and "map_of st n = Some t" and "unreferenced n st"
  shows "execute_delete n st = Inr (with_table n (t\<lparr>tb_rows := []\<rparr>) st)" "sound (with_table n (t\<lparr>tb_rows := []\<rparr>) st)"
proof -
  have no: "(m, ForeignKey cs n cs' a) \<notin> set (tb_constraints (snd x))" if "x \<in> set st" for m cs cs' a x
    using assms(3) that by (fastforce simp: unreferenced_def list_all_iff)
  from no [OF map_of_SomeD [OF assms(2)]] have own: "(m, ForeignKey cs n cs' a) \<notin> set (tb_constraints t)" for m cs cs' a by simp
  show s: "sound (with_table n (t\<lparr>tb_rows := []\<rparr>) st)"
    by (rule sound_with_rows [OF assms(1,2)])
      (use no own in \<open>auto simp: confined_def satisfied_no_rows index_satisfied_no_rows\<close>)
  show "execute_delete n st = Inr (with_table n (t\<lparr>tb_rows := []\<rparr>) st)"
    unfolding execute_delete_def by (rule on_table_step [OF assms(2) _ s]) simp
qed

lemma create_table_step:
  assumes "sound st" and "name \<notin> fst ` set st" and "list_all (\<lambda>k. refers_only_to st columns (snd k)) constraints"
    and "unreferenced name st"
  defines "t' \<equiv> \<lparr>tb_columns = map stored columns, tb_constraints = constraints @ concat (map (enum_check name) columns),
    tb_indexes = [], tb_rows = []\<rparr>"
  shows "create_table name columns constraints st = Inr (st @ [(name, t')])" "sound (st @ [(name, t')])"
proof -
  have same: "satisfied (st @ [(name, t')]) rows k = satisfied st rows k" if "\<not> refers_to name k" for rows k
    by (rule satisfied_store) (use that assms(2) in \<open>auto simp: map_add_def split: option.splits\<close>)
  have "table_ok (st @ [(name, t')]) (snd x)" if "x \<in> set st" for x
  proof -
    have "\<not> refers_to name (snd k)" if "k \<in> set (tb_constraints (snd x))" for k
      using assms(4) \<open>x \<in> set st\<close> that by (auto simp: unreferenced_def list_all_iff)
    moreover have "table_ok st (snd x)" using assms(1) that by (auto simp: sound_def store_ok_def list_all_iff)
    ultimately show ?thesis by (auto simp: table_ok_def list_all_iff same)
  qed
  then show s: "sound (st @ [(name, t')])"
    using assms(1,2) by (auto simp: sound_def store_ok_def list_all_iff table_ok_def t'_def satisfied_no_rows confined_def)
  then show "create_table name columns constraints st = Inr (st @ [(name, t')])"
    using assms(2,3) by (simp add: create_table_def accept_def sound_def t'_def)
qed

lemma drop_table_step:
  assumes "sound st" and "name \<in> fst ` set st"
  defines "st' \<equiv> filter (\<lambda>t. fst t \<noteq> name) st"
  assumes "unreferenced name st'"
  shows "drop_table name st = Inr st'" "sound st'"
proof -
  have look: "map_of st' m = (if m = name then None else map_of st m)" for m
    unfolding st'_def by (induction st) auto
  have same: "satisfied st' rows k = satisfied st rows k" if "\<not> refers_to name k" for rows k
    by (rule satisfied_store) (use that in \<open>auto simp: look\<close>)
  have no: "\<not> refers_to name (snd k)" if "x \<in> set st'" "k \<in> set (tb_constraints (snd x))" for x k
    using assms(4) that by (auto simp: unreferenced_def list_all_iff)
  have "table_ok st' (snd x)" if "x \<in> set st'" for x
  proof -
    have "table_ok st (snd x)" using assms(1) that by (auto simp: sound_def store_ok_def list_all_iff st'_def)
    then show ?thesis using no [OF that] by (auto simp: table_ok_def list_all_iff same)
  qed
  then show s: "sound st'"
    using assms(1) by (auto simp: sound_def store_ok_def list_all_iff st'_def distinct_map_filter)
  have "\<not> list_ex (\<lambda>t. list_ex (\<lambda>k. refers_to name (snd k)) (tb_constraints (snd t))) st'"
    using no by (auto simp: list_ex_iff)
  then show "drop_table name st = Inr st'"
    using assms(2) s by (simp add: drop_table_def accept_def sound_def st'_def [symmetric])
qed

end
