(* ===== verification/Revisions.thy ===== *)
theory Revisions
  imports MigrationSafety
begin

text \<open>
  The revisions of \<open>alembic/versions/\<close> on a store with rows in it. A run of statements is described by
  \<open>takes P ss Q\<close>: from every store with \<open>P\<close> all of them are accepted and leave a store with \<open>Q\<close>;
  \<open>state\<close> is what is known of the one table a group of statements works on.
\<close>

definition takes :: "(store \<Rightarrow> bool) \<Rightarrow> statement \<Rightarrow> (store \<Rightarrow> bool) \<Rightarrow> bool" where
  "takes P s Q \<longleftrightarrow> (\<forall>st. P st \<longrightarrow> (\<exists>st'. s st = Inr st' \<and> Q st'))"

lemma takesI: "(\<And>st. P st \<Longrightarrow> \<exists>st'. s st = Inr st' \<and> Q st') \<Longrightarrow> takes P s Q"
  by (simp add: takes_def)

lemma takes_Nil: "(\<And>st. P st \<Longrightarrow> Q st) \<Longrightarrow> takes P (statements []) Q"
  by (simp add: takes_def)

lemma takes_Cons: "takes P s Q \<Longrightarrow> takes Q (statements ss) R \<Longrightarrow> takes P (statements (s # ss)) R"
  by (fastforce simp: takes_def)

text \<open>Every foreign key of the schema refers to an \<open>id\<close>.\<close>

definition keyed :: "store \<Rightarrow> bool" where
  "keyed st \<longleftrightarrow> (\<forall>n. referenced n st \<subseteq> {''id''})"

definition state :: "string \<Rightarrow> store \<Rightarrow> (string \<times> column) list \<Rightarrow> (string \<times> table_constraint) set
    \<Rightarrow> (string \<times> table_index) list \<Rightarrow> row list \<Rightarrow> store \<Rightarrow> bool" where
  "state n st0 C K I R st \<longleftrightarrow> sound st \<and> keyed st \<and> n \<in> fst ` set st0 \<and>
     (\<exists>t. st = with_table n t st0 \<and> tb_columns t = C \<and> set (tb_constraints t) = K \<and> tb_indexes t = I \<and> tb_rows t = R)"

lemma stateE:
  assumes "state n st0 C K I R st"
  obtains t where "sound st" "keyed st" "st = with_table n t st0" "map_of st n = Some t"
    "tb_columns t = C" "set (tb_constraints t) = K" "tb_indexes t = I" "tb_rows t = R"
proof -
  from assms obtain t where *: "sound st" "keyed st" "st = with_table n t st0" "n \<in> fst ` set st0"
    "tb_columns t = C" "set (tb_constraints t) = K" "tb_indexes t = I" "tb_rows t = R"
    by (auto simp: state_def)
  from *(4) obtain t0 where "map_of st0 n = Some t0" by (metis map_of_eq_None_iff not_None_eq)
  with * that show ?thesis by simp
qed

lemma keyed_with_table:
  assumes "keyed st" and "map_of st n = Some t"
    and "\<And>m k c x. (m, k) \<in> set (tb_constraints t') \<Longrightarrow> c \<in> target_columns x k \<Longrightarrow> c = ''id'' \<or> (m, k) \<in> set (tb_constraints t)"
  shows "keyed (with_table n t' st)"
proof -
  have "c = ''id''" if x: "x \<in> set (with_table n t' st)" "k \<in> set (tb_constraints (snd x))" "c \<in> target_columns y (snd k)" for x k c y
  proof -
    have old: "c = ''id''" if "z \<in> set st" "k \<in> set (tb_constraints (snd z))" for z
      using assms(1) that x(3) by (fastforce simp: keyed_def referenced_def)
    from set_with_table [OF x(1)] show ?thesis
    proof
      assume "x = (n, t')"
      with x assms(3) [of "fst k" "snd k" c y] old [OF map_of_SomeD [OF assms(2)]] show ?thesis by auto
    qed (use old [of x] x(2) in auto)
  qed
  then show ?thesis by (auto simp: keyed_def referenced_def)
qed

lemma state_takes:
  assumes step: "\<And>st t. \<lbrakk>sound st; map_of st n = Some t; tb_columns t = C; set (tb_constraints t) = K; tb_indexes t = I; tb_rows t = R;
        referenced n st \<subseteq> {''id''}\<rbrakk> \<Longrightarrow> s st = Inr (with_table n (f t) st) \<and> sound (with_table n (f t) st)"
    and after: "\<And>t. \<lbrakk>tb_columns t = C; set (tb_constraints t) = K; tb_indexes t = I; tb_rows t = R\<rbrakk> \<Longrightarrow>
      tb_columns (f t) = C' \<and> set (tb_constraints (f t)) = K' \<and> tb_indexes (f t) = I' \<and> tb_rows (f t) = R'"
    and keys: "\<And>m k c x. (m, k) \<in> K' \<Longrightarrow> c \<in> target_columns x k \<Longrightarrow> c = ''id'' \<or> (m, k) \<in> K"
  shows "takes (state n st0 C K I R) s (state n st0 C' K' I' R')"
proof (rule takesI)
  fix st assume st: "state n st0 C K I R st"
  then obtain t where t: "sound st" "keyed st" "st = with_table n t st0" "map_of st n = Some t"
    "tb_columns t = C" "set (tb_constraints t) = K" "tb_indexes t = I" "tb_rows t = R"
    by (rule stateE)
  have s: "s st = Inr (with_table n (f t) st)" "sound (with_table n (f t) st)"
    using step [OF t(1,4-8)] t(2) by (auto simp: keyed_def)
  note a = after [OF t(5-8)]
  have "keyed (with_table n (f t) st)"
    by (rule keyed_with_table [OF t(2,4)]) (use keys a t(6) in blast)
  with s a t(3) st show "\<exists>st'. s st = Inr st' \<and> state n st0 C' K' I' R' st'" by (auto simp: state_def)
qed

named_theorems statement_rules \<open>what one statement does to the state of its table\<close>

lemma drop_constraint_takes [statement_rules]:
  assumes "name \<in> fst ` K"
  shows "takes (state n st0 C K I R) (drop_constraint name n) (state n st0 C {k \<in> K. fst k \<noteq> name} I R)"
proof (rule state_takes)
  fix st t assume "sound st" "map_of st n = Some t" "set (tb_constraints t) = K"
  then show "drop_constraint name n st = Inr (with_table n (t\<lparr>tb_constraints := filter (\<lambda>k. fst k \<noteq> name) (tb_constraints t)\<rparr>) st)
    \<and> sound (with_table n (t\<lparr>tb_constraints := filter (\<lambda>k. fst k \<noteq> name) (tb_constraints t)\<rparr>) st)"
    using drop_constraint_step assms by blast
qed auto

lemma add_takes [statement_rules]:
  assumes "c \<notin> fst ` set C" and "cn_nullable k \<or> R = []"
  shows "takes (state n st0 C K I R) (add_column n c k) (state n st0 (C @ [(c, k)]) K I R)"
proof (rule state_takes)
  fix st t assume "sound st" "map_of st n = Some t" "tb_columns t = C" "tb_rows t = R"
  then show "add_column n c k st = Inr (with_table n (t\<lparr>tb_columns := tb_columns t @ [(c, k)]\<rparr>) st)
    \<and> sound (with_table n (t\<lparr>tb_columns := tb_columns t @ [(c, k)]\<rparr>) st)"
    using add_optional_step assms by blast
qed auto

lemma create_check_takes [statement_rules]:
  assumes "name \<notin> fst ` K" and "set (condition_columns cond) \<subseteq> fst ` set C" and "\<forall>r \<in> set R. truth cond r \<noteq> Some False"
  shows "takes (state n st0 C K I R) (create_check_constraint name n cond) (state n st0 C (insert (name, Check cond) K) I R)"
proof (rule state_takes)
  fix st t assume "sound st" "map_of st n = Some t" "tb_columns t = C" "set (tb_constraints t) = K" "tb_rows t = R"
  then show "create_check_constraint name n cond st = Inr (with_table n (t\<lparr>tb_constraints := tb_constraints t @ [(name, Check cond)]\<rparr>) st)
    \<and> sound (with_table n (t\<lparr>tb_constraints := tb_constraints t @ [(name, Check cond)]\<rparr>) st)"
    using create_check_step [of st n t name cond] assms by blast
qed auto

lemma create_index_takes [statement_rules]:
  assumes "name \<notin> fst ` set I" and "set (columns @ condition_columns cond) \<subseteq> fst ` set C"
    and "index_satisfied R \<lparr>ti_columns = columns, ti_unique = unique, ti_where = cond\<rparr>"
  shows "takes (state n st0 C K I R) (create_index name n columns unique cond)
    (state n st0 C K (I @ [(name, \<lparr>ti_columns = columns, ti_unique = unique, ti_where = cond\<rparr>)]) R)"
proof (rule state_takes)
  fix st t assume "sound st" "map_of st n = Some t" "tb_columns t = C" "tb_indexes t = I" "tb_rows t = R"
  then show "create_index name n columns unique cond st =
      Inr (with_table n (t\<lparr>tb_indexes := tb_indexes t @ [(name, \<lparr>ti_columns = columns, ti_unique = unique, ti_where = cond\<rparr>)]\<rparr>) st)
    \<and> sound (with_table n (t\<lparr>tb_indexes := tb_indexes t @ [(name, \<lparr>ti_columns = columns, ti_unique = unique, ti_where = cond\<rparr>)]\<rparr>) st)"
    using create_index_step [of st n t name columns cond unique] assms by blast
qed auto

lemma drop_index_takes [statement_rules]:
  assumes "name \<in> fst ` set I"
  shows "takes (state n st0 C K I R) (drop_index name n) (state n st0 C K (filter (\<lambda>i. fst i \<noteq> name) I) R)"
proof (rule state_takes)
  fix st t assume "sound st" "map_of st n = Some t" "tb_indexes t = I"
  then show "drop_index name n st = Inr (with_table n (t\<lparr>tb_indexes := filter (\<lambda>i. fst i \<noteq> name) (tb_indexes t)\<rparr>) st)
    \<and> sound (with_table n (t\<lparr>tb_indexes := filter (\<lambda>i. fst i \<noteq> name) (tb_indexes t)\<rparr>) st)"
    using drop_index_step assms by blast
qed auto

lemma drop_column_takes [statement_rules]:
  assumes "c \<in> fst ` set C" and "c \<noteq> ''id''"
  shows "takes (state n st0 C K I R) (drop_column n c)
    (state n st0 (filter (\<lambda>k. fst k \<noteq> c) C) {k \<in> K. c \<notin> set (constraint_columns (snd k))}
      (filter (\<lambda>i. c \<notin> set (ti_columns (snd i) @ condition_columns (ti_where (snd i)))) I) (map (\<lambda>r. r(c := NullV)) R))"
proof (rule state_takes)
  fix st t assume "sound st" "map_of st n = Some t" "tb_columns t = C" "referenced n st \<subseteq> {''id''}"
  then show "drop_column n c st = Inr (with_table n (t\<lparr>tb_columns := filter (\<lambda>k. fst k \<noteq> c) (tb_columns t),
       tb_constraints := filter (\<lambda>k. c \<notin> set (constraint_columns (snd k))) (tb_constraints t),
       tb_indexes := filter (\<lambda>i. c \<notin> set (ti_columns (snd i) @ condition_columns (ti_where (snd i)))) (tb_indexes t),
       tb_rows := map (\<lambda>r. r(c := NullV)) (tb_rows t)\<rparr>) st)
    \<and> sound (with_table n (t\<lparr>tb_columns := filter (\<lambda>k. fst k \<noteq> c) (tb_columns t),
       tb_constraints := filter (\<lambda>k. c \<notin> set (constraint_columns (snd k))) (tb_constraints t),
       tb_indexes := filter (\<lambda>i. c \<notin> set (ti_columns (snd i) @ condition_columns (ti_where (snd i)))) (tb_indexes t),
       tb_rows := map (\<lambda>r. r(c := NullV)) (tb_rows t)\<rparr>) st)"
    using drop_column_step [of st n t c] assms by blast
qed auto

lemma nullable_takes [statement_rules]:
  assumes "c \<in> fst ` set C"
  shows "takes (state n st0 C K I R) (alter_column_nullable n c True)
    (state n st0 (map (\<lambda>(m, k). (m, if m = c then k\<lparr>cn_nullable := True\<rparr> else k)) C) K I R)"
proof (rule state_takes)
  fix st t assume "sound st" "map_of st n = Some t" "tb_columns t = C"
  then show "alter_column_nullable n c True st =
      Inr (with_table n (t\<lparr>tb_columns := map (\<lambda>(m, k). (m, if m = c then k\<lparr>cn_nullable := True\<rparr> else k)) (tb_columns t)\<rparr>) st)
    \<and> sound (with_table n (t\<lparr>tb_columns := map (\<lambda>(m, k). (m, if m = c then k\<lparr>cn_nullable := True\<rparr> else k)) (tb_columns t)\<rparr>) st)"
    using nullable_step assms by blast
qed auto

lemma update_where_takes:
  assumes "fst ` set changes \<subseteq> fst ` set C" and "''id'' \<notin> fst ` set changes"
    and "\<And>c k v. (c, k) \<in> set C \<Longrightarrow> (c, v) \<in> set changes \<Longrightarrow> fits (cn_type k) v \<and> (v = NullV \<longrightarrow> cn_nullable k)"
    and "\<And>st m k. (m, k) \<in> K \<Longrightarrow> set (constraint_columns k) \<inter> fst ` set changes \<noteq> {} \<Longrightarrow>
      satisfied st (update_where (\<lambda>r. truth cond r = Some True) (assign changes) R) k"
    and "\<And>m i. (m, i) \<in> set I \<Longrightarrow> set (ti_columns i @ condition_columns (ti_where i)) \<inter> fst ` set changes = {}"
  shows "takes (state n st0 C K I R) (execute_update n changes cond)
    (state n st0 C K I (update_where (\<lambda>r. truth cond r = Some True) (assign changes) R))"
proof (rule state_takes)
  fix st t assume t: "sound st" "map_of st n = Some t" "tb_columns t = C" "set (tb_constraints t) = K" "tb_indexes t = I" "tb_rows t = R"
    "referenced n st \<subseteq> {''id''}"
  have 1: "fst ` set changes \<subseteq> fst ` set (tb_columns t)" using assms(1) t(3) by simp
  have "x \<notin> referenced n st" if "x \<in> fst ` set changes" for x
  proof
    assume "x \<in> referenced n st"
    then have "x = ''id''" using subsetD [OF t(7)] by simp
    with that assms(2) show False by simp
  qed
  then have 2: "fst ` set changes \<inter> referenced n st = {}" by blast
  have 3: "fits (cn_type k) v \<and> (v = NullV \<longrightarrow> cn_nullable k)" if "(c, k) \<in> set (tb_columns t)" "(c, v) \<in> set changes" for c k v
    using assms(3) [of c k v] that t(3) by simp
  have 4: "satisfied st (update_where (\<lambda>r. truth cond r = Some True) (assign changes) (tb_rows t)) k"
    if "(m, k) \<in> set (tb_constraints t)" "set (constraint_columns k) \<inter> fst ` set changes \<noteq> {}" for m k
    using assms(4) [of m k st] that t(4,6) by simp
  have 5: "set (ti_columns i @ condition_columns (ti_where i)) \<inter> fst ` set changes = {}" if "(m, i) \<in> set (tb_indexes t)" for m i
    using assms(5) [of m i] that t(5) by simp
  show "execute_update n changes cond st =
      Inr (with_table n (t\<lparr>tb_rows := update_where (\<lambda>r. truth cond r = Some True) (assign changes) (tb_rows t)\<rparr>) st)
    \<and> sound (with_table n (t\<lparr>tb_rows := update_where (\<lambda>r. truth cond r = Some True) (assign changes) (tb_rows t)\<rparr>) st)"
    by (intro conjI; rule update_step [OF t(1,2) 1 2]) (use 3 4 5 in blast)+
qed auto

lemma update_takes:
  assumes "\<And>r. (if truth cond r = Some True then assign changes r else r) = f r"
    and "fst ` set changes \<subseteq> fst ` set C" and "''id'' \<notin> fst ` set changes"
    and "\<forall>k \<in> set C. \<forall>ch \<in> set changes. fst ch = fst k \<longrightarrow> fits (cn_type (snd k)) (snd ch) \<and> (snd ch = NullV \<longrightarrow> cn_nullable (snd k))"
    and "\<forall>k \<in> K. set (constraint_columns (snd k)) \<inter> fst ` set changes = {}
      \<or> (\<exists>cd. snd k = Check cd \<and> (\<forall>r \<in> set R. truth cd (f r) \<noteq> Some False))"
    and "\<forall>i \<in> set I. set (ti_columns (snd i) @ condition_columns (ti_where (snd i))) \<inter> fst ` set changes = {}"
  shows "takes (state n st0 C K I R) (execute_update n changes cond) (state n st0 C K I (map f R))"
proof -
  have f: "update_where (\<lambda>r. truth cond r = Some True) (assign changes) R = map f R"
    by (simp add: update_where_def assms(1))
  show ?thesis
    unfolding f [symmetric]
  proof (rule update_where_takes [OF assms(2,3)])
    show "fits (cn_type k) v \<and> (v = NullV \<longrightarrow> cn_nullable k)" if "(c, k) \<in> set C" "(c, v) \<in> set changes" for c k v
      using bspec [OF bspec [OF assms(4) that(1)] that(2)] by simp
    show "set (ti_columns i @ condition_columns (ti_where i)) \<inter> fst ` set changes = {}" if "(m, i) \<in> set I" for m i
      using bspec [OF assms(6) that] by simp
    show "satisfied st (update_where (\<lambda>r. truth cond r = Some True) (assign changes) R) k"
      if "(m, k) \<in> K" "set (constraint_columns k) \<inter> fst ` set changes \<noteq> {}" for st m k
      using bspec [OF assms(5) that(1)] that(2) unfolding f by (auto simp: list_all_iff)
  qed
qed

lemma takes_done:
  "C = C' \<Longrightarrow> K = K' \<Longrightarrow> I = I' \<Longrightarrow> R = R' \<Longrightarrow> takes (state n st0 C K I R) (statements []) (state n st0 C' K' I' R')"
  by (simp add: takes_Nil)

section \<open>From a described store to the next\<close>

lemma same_table_referenced:
  "list_all2 (\<lambda>t s. fst t = fst s \<and> same_table (snd t) (snd s)) st ss \<Longrightarrow> referenced n st = referenced n ss"
  by (induction st ss rule: list_all2_induct) (simp_all add: referenced_def same_table_def)

lemma describes_keyed: "describes ss st \<Longrightarrow> keyed ss \<Longrightarrow> keyed st"
  using same_table_referenced by (force simp: describes_def keyed_def)

lemma describes_lookup:
  assumes "describes ss st" and "map_of ss name = Some s"
  obtains t where "map_of st name = Some t" "same_table t s"
proof -
  have "list_all2 (\<lambda>t s. fst t = fst s \<and> same_table (snd t) (snd s)) st ss \<Longrightarrow> map_of ss name = Some s \<Longrightarrow>
      \<exists>t. map_of st name = Some t \<and> same_table t s" for st ss
    by (induction st ss rule: list_all2_induct) (auto split: if_splits)
  with assms that show ?thesis by (auto simp: describes_def)
qed

lemma describes_names: "describes ss st \<Longrightarrow> map fst st = map fst ss"
proof -
  have "list_all2 (\<lambda>t s. fst t = fst s \<and> same_table (snd t) (snd s)) st ss \<Longrightarrow> map fst st = map fst ss"
    by (induction st ss rule: list_all2_induct) auto
  then show "describes ss st \<Longrightarrow> map fst st = map fst ss" by (simp add: describes_def)
qed

definition rows_in :: "string \<Rightarrow> store \<Rightarrow> row list" where
  "rows_in name st = (case map_of st name of None \<Rightarrow> [] | Some t \<Rightarrow> tb_rows t)"

lemma with_table_same: "distinct (map fst st) \<Longrightarrow> map_of st name = Some t \<Longrightarrow> with_table name t st = st"
  unfolding with_table_def by (induction st) (auto split: if_splits simp: image_iff intro!: map_idI)

lemma same_with_table:
  assumes "list_all2 (\<lambda>t s. fst t = fst s \<and> same_table (snd t) (snd s)) st ss" and "same_table t s"
  shows "list_all2 (\<lambda>t s. fst t = fst s \<and> same_table (snd t) (snd s)) (with_table name t st) (with_table name s ss)"
  using assms by (induction st ss rule: list_all2_induct) (auto simp: with_table_def)

lemma state_of_describes:
  assumes "describes ss st" and "keyed ss" and "map_of ss name = Some s"
  shows "state name st (tb_columns s) (set (tb_constraints s)) (tb_indexes s) (rows_in name st) st"
proof -
  obtain t where t: "map_of st name = Some t" "same_table t s" by (rule describes_lookup [OF assms(1,3)])
  have "with_table name t st = st" using assms(1) t(1) by (simp add: describes_def sound_def with_table_same)
  moreover have "name \<in> fst ` set st" using t(1) by (metis map_of_eq_None_iff option.distinct(1))
  ultimately show ?thesis
    using assms(1) t describes_keyed [OF assms(1,2)]
    by (auto simp: state_def describes_def same_table_def rows_in_def intro!: exI [of _ t])
qed

lemma describes_of_state:
  assumes "describes ss st" and "state name st (tb_columns s) (set (tb_constraints s)) (tb_indexes s) R st'"
  shows "describes (with_table name s ss) st'" "rows_in name st' = R" "\<And>other. other \<noteq> name \<Longrightarrow> rows_in other st' = rows_in other st"
proof -
  from assms(2) obtain t where t: "sound st'" "st' = with_table name t st" "map_of st' name = Some t"
    "tb_columns t = tb_columns s" "set (tb_constraints t) = set (tb_constraints s)" "tb_indexes t = tb_indexes s" "tb_rows t = R"
    by (rule stateE)
  have "same_table t s" using t(4-6) by (simp add: same_table_def)
  with assms(1) t(1,2) show "describes (with_table name s ss) st'" by (simp add: describes_def same_with_table)
  show "rows_in name st' = R" using t(3,7) by (simp add: rows_in_def)
  show "rows_in other st' = rows_in other st" if "other \<noteq> name" for other using that t(2) by (simp add: rows_in_def)
qed

text \<open>A group of statements on one table, between two descriptions.\<close>

lemma run_on_table:
  assumes "describes ss st" and "keyed ss" and "map_of ss name = Some s"
    and "takes (state name st (tb_columns s) (set (tb_constraints s)) (tb_indexes s) (rows_in name st)) ops
      (state name st (tb_columns s') (set (tb_constraints s')) (tb_indexes s') (map f (rows_in name st)))"
  obtains st' where "ops st = Inr st'" "describes (with_table name s' ss) st'"
    "\<And>other. rows_in other st' = (if other = name then map f (rows_in name st) else rows_in other st)"
proof -
  obtain st' where st': "ops st = Inr st'"
    "state name st (tb_columns s') (set (tb_constraints s')) (tb_indexes s') (map f (rows_in name st)) st'"
    using assms(4) state_of_describes [OF assms(1-3)] by (auto simp: takes_def)
  from describes_of_state [OF assms(1) st'(2)] st'(1) that show ?thesis by simp
qed

lemma described_row:
  assumes "describes ss st" and "map_of ss name = Some s" and "r \<in> set (rows_in name st)"
  shows "c \<notin> fst ` set (tb_columns s) \<Longrightarrow> r c = NullV"
    and "(m, Check cond) \<in> set (tb_constraints s) \<Longrightarrow> truth cond r \<noteq> Some False"
    and "row_fits (tb_columns s) r"
proof -
  obtain t where t: "map_of st name = Some t" "same_table t s" by (rule describes_lookup [OF assms(1,2)])
  then have r: "r \<in> set (tb_rows t)" using assms(3) by (simp add: rows_in_def)
  note T = sound_table [OF _ t(1)]
  have sound: "sound st" using assms(1) by (simp add: describes_def)
  show "c \<notin> fst ` set (tb_columns s) \<Longrightarrow> r c = NullV" using T(1) [OF sound] r t(2) by (simp add: confined_def same_table_def)
  show "row_fits (tb_columns s) r" using T(2) [OF sound] r t(2) by (simp add: list_all_iff same_table_def)
  show "truth cond r \<noteq> Some False" if "(m, Check cond) \<in> set (tb_constraints s)"
    using T(3) [OF sound, of m "Check cond"] r t(2) that by (simp add: list_all_iff same_table_def)
qed

lemma statements_append: "statements (ss @ ss') st = bind_result (statements ss st) (statements ss')"
proof (induction ss arbitrary: st)
  case (Cons s ss)
  then show ?case by (cases "s st") simp_all
qed simp

text \<open>A finite set of constraints, filtered, is computed element by element.\<close>

lemma restrict_insert [simp]:
  "{x. (x = a \<or> Q x) \<and> P x} = (if P a then insert a {x. Q x \<and> P x} else {x. Q x \<and> P x})"
  "{x. x = a \<and> P x} = (if P a then {a} else {})"
  by auto

lemma schema_at_tables [simp]:
  "1 \<le> n \<Longrightarrow> map_of (schema_at n) ''users'' = Some (users_at n)"
  "1 \<le> n \<Longrightarrow> map_of (schema_at n) ''documents'' = Some (documents_at n)"
  "1 \<le> n \<Longrightarrow> map_of (schema_at n) ''document_chunks'' = Some (chunks_at n)"
  "5 \<le> n \<Longrightarrow> map_of (schema_at n) ''document_pages'' = Some (pages_at n)"
  by (simp_all add: schema_at_def)

lemma keyed_schema: "keyed (schema_at n)"
  by (auto simp: keyed_def referenced_def schema_defs split: if_splits)

lemma sql_str_eq [simp]: "sql_str p v = Some b \<longleftrightarrow> (\<exists>s. v = StrV s \<and> b = p s)"
  by (cases v) auto

lemma sql_int_eq [simp]: "sql_int p v = Some b \<longleftrightarrow> (\<exists>i. v = IntV i \<and> b = p i)"
  by (cases v) auto

end
