(* ===== verification/RevisionSteps.thy ===== *)
theory RevisionSteps
  imports Revisions
begin

text \<open>
  The six revisions one by one, upwards and downwards, on a database with any rows in it: what each
  does to the rows of each table, and what follows for chains of them.
\<close>

section \<open>What the revisions do to rows\<close>

definition change_status :: "string \<Rightarrow> string \<Rightarrow> row \<Rightarrow> row" where
  "change_status old new r = (if r ''status'' = StrV (py_str old) then r(''status'' := StrV (py_str new)) else r)"

definition give_reason :: "row \<Rightarrow> row" where
  "give_reason r = (if r ''status'' = StrV (py_str ''error'')
     then r(''status'' := StrV (py_str ''failed''), ''failure_reason'' := StrV (py_str ''unknown'')) else r)"

definition forget :: "string list \<Rightarrow> row \<Rightarrow> row" where
  "forget cs r = (\<lambda>c. if c \<in> set cs then NullV else r c)"

abbreviation table_state :: "string \<Rightarrow> store \<Rightarrow> sql_table \<Rightarrow> row list \<Rightarrow> store \<Rightarrow> bool" where
  "table_state name st s R \<equiv> state name st (tb_columns s) (set (tb_constraints s)) (tb_indexes s) R"

lemma status_fits: "s \<in> set [''pending'', ''processing'', ''parsed'', ''chunked'', ''ready'', ''failed'', ''error''] \<Longrightarrow>
    varchar_fits 10 (py_str s)"
  by (auto simp: varchar_fits_def text_fits_def is_surrogate_def)

lemma unknown_fits: "varchar_fits 64 (py_str ''unknown'')"
  by (simp add: varchar_fits_def text_fits_def is_surrogate_def)

lemma upgrade_0002_takes:
  "takes (table_state ''users'' st (users_at 1) R) upgrade_0002 (table_state ''users'' st (users_at 2) R)"
  unfolding upgrade_0002_def
  by ((rule takes_Cons, (rule statement_rules; simp add: schema_defs))+, rule takes_done; simp add: schema_defs)

lemma downgrade_0002_takes:
  "takes (table_state ''users'' st (users_at 2) R) downgrade_0002 (table_state ''users'' st (users_at 1) (map (forget [''password_hash'']) R))"
  unfolding downgrade_0002_def
  by ((rule takes_Cons, (rule statement_rules; simp add: schema_defs))+, rule takes_done; auto simp: schema_defs forget_def fun_upd_def)

lemma upgrade_0003_takes:
  assumes "\<forall>r \<in> set R. r ''size_bytes'' = NullV \<and> r ''page_count'' = NullV \<and> r ''content_hash'' = NullV"
  shows "takes (table_state ''documents'' st (documents_at 2) R) upgrade_0003 (table_state ''documents'' st (documents_at 3) R)"
  unfolding upgrade_0003_def
  by (insert assms, (rule takes_Cons, (rule statement_rules; auto simp: schema_defs index_satisfied_def keys_of_def))+,
    rule takes_done; auto simp: schema_defs)

lemma downgrade_0003_takes:
  "takes (table_state ''documents'' st (documents_at 3) R) downgrade_0003
    (table_state ''documents'' st (documents_at 2)
      (map (forget [''page_count'', ''mime_type'', ''size_bytes'', ''content_hash'', ''storage_key'']) R))"
  unfolding downgrade_0003_def
  by ((rule takes_Cons, (rule statement_rules; simp add: schema_defs))+, rule takes_done; auto simp: schema_defs forget_def fun_upd_def)

lemma upgrade_0004_takes:
  assumes "\<forall>r \<in> set R. r ''failure_reason'' = NullV \<and> truth (OneOf ''status'' (statuses_at 3)) r \<noteq> Some False"
  shows "takes (table_state ''documents'' st (documents_at 3) R) upgrade_0004
    (table_state ''documents'' st (documents_at 4) (map give_reason R))"
proof -
  have updated: "(if truth (Equals ''status'' ''error'') r = Some True
      then assign [(''status'', StrV (py_str ''failed'')), (''failure_reason'', StrV (py_str ''unknown''))] r else r) = give_reason r" for r
    by (auto simp: give_reason_def)
  have checks: "truth (OneOf ''status'' [''pending'', ''processing'', ''ready'', ''failed'']) (give_reason r) \<noteq> Some False"
    "truth (SameTruth (Equals ''status'' ''failed'') (IsNotNull ''failure_reason'')) (give_reason r) \<noteq> Some False"
    if "r \<in> set R" for r
    using bspec [OF assms that] by (auto simp: give_reason_def statuses_at_def split: option.splits)
  show ?thesis
    unfolding upgrade_0004_def
    by ((rule takes_Cons, (rule statement_rules update_takes [OF updated];
          simp add: schema_defs status_fits unknown_fits checks del: truth.simps py_str_simps))+, rule takes_done; auto simp: schema_defs)
qed

lemma change_status_update:
  "(if truth (Equals ''status'' old) r = Some True then assign [(''status'', StrV (py_str new))] r else r) = change_status old new r"
  by (auto simp: change_status_def)

lemma one_of_mono: "truth (OneOf c vs) r \<noteq> Some False \<Longrightarrow> set vs \<subseteq> set vs' \<Longrightarrow> truth (OneOf c vs') r \<noteq> Some False"
  by auto

lemma change_status_check:
  assumes "truth (OneOf ''status'' vs) r \<noteq> Some False" and "set vs \<subseteq> insert old (set vs')" and "new \<in> set vs'"
  shows "truth (OneOf ''status'' vs') (change_status old new r) \<noteq> Some False"
proof
  assume "truth (OneOf ''status'' vs') (change_status old new r) = Some False"
  then obtain s where s: "change_status old new r ''status'' = StrV s" "s \<notin> py_str ` set vs'" by auto
  with assms(3) have r: "r ''status'' = StrV s" "s \<noteq> py_str old" by (auto simp: change_status_def split: if_splits)
  with assms(1) obtain v where v: "v \<in> set vs" "s = py_str v" by auto
  with assms(2) r(2) s(2) show False by auto
qed

lemma downgrade_0004_takes:
  assumes "\<forall>r \<in> set R. truth (OneOf ''status'' (statuses_at 4)) r \<noteq> Some False"
  shows "takes (table_state ''documents'' st (documents_at 4) R) downgrade_0004
    (table_state ''documents'' st (documents_at 3) (map (forget [''failure_reason''] \<circ> change_status ''failed'' ''error'') R))"
proof -
  have check: "truth (OneOf ''status'' [''pending'', ''processing'', ''ready'', ''error''])
      ((change_status ''failed'' ''error'' r)(''failure_reason'' := NullV)) \<noteq> Some False" if "r \<in> set R" for r
    using change_status_check [OF bspec [OF assms that], of "''failed''" "[''pending'', ''processing'', ''ready'', ''error'']" "''error''"]
    by (simp add: statuses_at_def)
  show ?thesis
    unfolding downgrade_0004_def
    by ((rule takes_Cons, (rule statement_rules update_takes [OF change_status_update];
          simp add: schema_defs status_fits check del: truth.simps py_str_simps fun_upd_apply))+, rule takes_done;
        auto simp: schema_defs forget_def fun_upd_def)
qed

lemma upgrade_0005_takes:
  assumes "\<forall>r \<in> set R. truth (OneOf ''status'' (statuses_at 4)) r \<noteq> Some False"
  shows "takes (table_state ''documents'' st (documents_at 4) R)
    (statements [drop_constraint status_constraint ''documents'',
      create_check_constraint status_constraint ''documents'' (OneOf ''status'' [''pending'', ''processing'', ''parsed'', ''ready'', ''failed''])])
    (table_state ''documents'' st (documents_at 5) R)"
proof -
  have check: "truth (OneOf ''status'' [''pending'', ''processing'', ''parsed'', ''ready'', ''failed'']) r \<noteq> Some False" if "r \<in> set R" for r
    by (rule one_of_mono [OF bspec [OF assms that]]) (simp add: statuses_at_def)
  show ?thesis
    by ((rule takes_Cons, (rule statement_rules; simp add: schema_defs check del: truth.simps py_str_simps))+, rule takes_done; auto simp: schema_defs)
qed

lemma downgrade_0005_takes:
  assumes "\<forall>r \<in> set R. truth (OneOf ''status'' (statuses_at 5)) r \<noteq> Some False \<and> truth (SameTruth (Equals ''status'' ''failed'') (IsNotNull ''failure_reason'')) r \<noteq> Some False"
  shows "takes (table_state ''documents'' st (documents_at 5) R)
    (statements [drop_constraint status_constraint ''documents'',
      execute_update ''documents'' [(''status'', StrV (py_str ''pending''))] (Equals ''status'' ''parsed''),
      create_check_constraint status_constraint ''documents'' (OneOf ''status'' [''pending'', ''processing'', ''ready'', ''failed''])])
    (table_state ''documents'' st (documents_at 4) (map (change_status ''parsed'' ''pending'') R))"
proof -
  have check: "truth (OneOf ''status'' [''pending'', ''processing'', ''ready'', ''failed'']) (change_status ''parsed'' ''pending'' r) \<noteq> Some False"
    if "r \<in> set R" for r
    using change_status_check [OF conjunct1 [OF bspec [OF assms that]], of "''parsed''" "[''pending'', ''processing'', ''ready'', ''failed'']" "''pending''"]
    by (simp add: statuses_at_def)
  have reason: "truth (SameTruth (Equals ''status'' ''failed'') (IsNotNull ''failure_reason'')) (change_status ''parsed'' ''pending'' r) \<noteq> Some False"
    if "r \<in> set R" for r
    using bspec [OF assms that] by (auto simp: change_status_def split: option.splits if_splits)
  show ?thesis
    by ((rule takes_Cons, (rule statement_rules update_takes [OF change_status_update];
          simp add: schema_defs status_fits check reason del: truth.simps py_str_simps))+, rule takes_done; auto simp: schema_defs)
qed

definition add_provenance :: "statement list" where
  "add_provenance =
     [add ''document_chunks'' (required ''section'' TextT),
      add ''document_chunks'' (required ''page_start'' IntegerT),
      add ''document_chunks'' (required ''page_end'' IntegerT),
      add ''document_chunks'' (required ''token_count'' IntegerT),
      add ''document_chunks'' (required ''strategy_version'' (StringT 64)),
      add ''document_chunks'' (required ''tokenizer_id'' (StringT 64)),
      alter_column_nullable ''document_chunks'' ''section'' True,
      create_check_constraint ''ck_document_chunks_page_start_positive'' ''document_chunks'' (AtLeast ''page_start'' 1),
      create_check_constraint ''ck_document_chunks_page_end_not_before_start'' ''document_chunks'' (NotLess ''page_end'' ''page_start''),
      create_check_constraint ''ck_document_chunks_token_count_positive'' ''document_chunks'' (Above ''token_count'' 0)]"

lemma add_provenance_takes:
  "takes (table_state ''document_chunks'' st (chunks_at 5) []) (statements add_provenance) (table_state ''document_chunks'' st (chunks_at 6) [])"
  unfolding add_provenance_def
  by ((rule takes_Cons, (rule statement_rules; simp add: schema_defs))+, rule takes_done; auto simp: schema_defs)

definition allow_chunked :: "statement list" where
  "allow_chunked = [drop_constraint status_constraint ''documents'', create_check_constraint status_constraint ''documents'' STATUSES_WITH_CHUNKED]"

lemma allow_chunked_takes:
  assumes "\<forall>r \<in> set R. truth (OneOf ''status'' (statuses_at 5)) r \<noteq> Some False"
  shows "takes (table_state ''documents'' st (documents_at 5) R) (statements allow_chunked) (table_state ''documents'' st (documents_at 6) R)"
proof -
  have check: "truth STATUSES_WITH_CHUNKED r \<noteq> Some False" if "r \<in> set R" for r
    unfolding STATUSES_WITH_CHUNKED_def by (rule one_of_mono [OF bspec [OF assms that]]) (simp add: statuses_at_def)
  have columns: "condition_columns STATUSES_WITH_CHUNKED = [''status'']" by (simp add: STATUSES_WITH_CHUNKED_def)
  show ?thesis
    unfolding allow_chunked_def
    by ((rule takes_Cons, (rule statement_rules; simp add: schema_defs check columns del: truth.simps py_str_simps))+,
      rule takes_done; auto simp: schema_defs STATUSES_WITH_CHUNKED_def)
qed

definition drop_provenance :: "statement list" where
  "drop_provenance =
     [drop_constraint ''ck_document_chunks_token_count_positive'' ''document_chunks'',
      drop_constraint ''ck_document_chunks_page_end_not_before_start'' ''document_chunks'',
      drop_constraint ''ck_document_chunks_page_start_positive'' ''document_chunks'',
      drop_column ''document_chunks'' ''tokenizer_id'', drop_column ''document_chunks'' ''strategy_version'',
      drop_column ''document_chunks'' ''token_count'', drop_column ''document_chunks'' ''page_end'',
      drop_column ''document_chunks'' ''page_start'', drop_column ''document_chunks'' ''section'']"

lemma drop_provenance_takes:
  "takes (table_state ''document_chunks'' st (chunks_at 6) []) (statements drop_provenance) (table_state ''document_chunks'' st (chunks_at 5) [])"
  unfolding drop_provenance_def
  by ((rule takes_Cons, (rule statement_rules; simp add: schema_defs))+, rule takes_done; auto simp: schema_defs)

definition recount :: "row \<Rightarrow> row" where
  "recount r = (if r ''status'' = StrV (py_str ''chunked'') then r(''status'' := StrV (py_str ''parsed''), ''chunk_count'' := IntV 0) else r)"

definition zero_count :: "row \<Rightarrow> row" where
  "zero_count r = (if \<exists>n. r ''chunk_count'' = IntV n \<and> n \<noteq> 0 then r(''chunk_count'' := IntV 0) else r)"

definition undo_chunked :: "statement list" where
  "undo_chunked =
     [drop_constraint status_constraint ''documents'',
      execute_update ''documents'' [(''status'', StrV (py_str ''parsed'')), (''chunk_count'', IntV 0)] (Equals ''status'' ''chunked''),
      execute_update ''documents'' [(''chunk_count'', IntV 0)] (Differs ''chunk_count'' 0),
      create_check_constraint status_constraint ''documents'' STATUSES_WITHOUT_CHUNKED]"

lemma undo_chunked_takes:
  assumes "\<forall>r \<in> set R. truth (OneOf ''status'' (statuses_at 6)) r \<noteq> Some False \<and> truth (AtLeast ''chunk_count'' 0) r \<noteq> Some False
    \<and> truth (SameTruth (Equals ''status'' ''failed'') (IsNotNull ''failure_reason'')) r \<noteq> Some False"
  shows "takes (table_state ''documents'' st (documents_at 6) R) (statements undo_chunked)
    (table_state ''documents'' st (documents_at 5) (map (zero_count \<circ> recount) R))"
proof -
  have first: "(if truth (Equals ''status'' ''chunked'') r = Some True
      then assign [(''status'', StrV (py_str ''parsed'')), (''chunk_count'', IntV 0)] r else r) = recount r" for r
    by (auto simp: recount_def)
  have second: "(if truth (Differs ''chunk_count'' 0) r = Some True then assign [(''chunk_count'', IntV 0)] r else r) = zero_count r" for r
    by (auto simp: zero_count_def)
  have kept: "truth (AtLeast ''chunk_count'' 0) (recount r) \<noteq> Some False" "truth (AtLeast ''chunk_count'' 0) (zero_count (recount r)) \<noteq> Some False"
    "truth (SameTruth (Equals ''status'' ''failed'') (IsNotNull ''failure_reason'')) (recount r) \<noteq> Some False" if "r \<in> set R" for r
    using bspec [OF assms that] by (auto simp: recount_def zero_count_def split: option.splits if_splits)
  have recount: "recount r ''status'' = change_status ''chunked'' ''parsed'' r ''status''" for r
    by (simp add: recount_def change_status_def)
  have check: "truth STATUSES_WITHOUT_CHUNKED (zero_count (recount r)) \<noteq> Some False" if "r \<in> set R" for r
  proof -
    have "truth STATUSES_WITHOUT_CHUNKED (zero_count (recount r)) = truth STATUSES_WITHOUT_CHUNKED (change_status ''chunked'' ''parsed'' r)"
      by (rule truth_cong) (simp add: STATUSES_WITHOUT_CHUNKED_def recount [symmetric] zero_count_def)
    then show ?thesis
      using change_status_check [OF conjunct1 [OF bspec [OF assms that]], of "''chunked''" "[''pending'', ''processing'', ''parsed'', ''ready'', ''failed'']" "''parsed''"]
      by (simp add: statuses_at_def STATUSES_WITHOUT_CHUNKED_def del: truth.simps py_str_simps)
  qed
  have columns: "condition_columns STATUSES_WITHOUT_CHUNKED = [''status'']" by (simp add: STATUSES_WITHOUT_CHUNKED_def)
  have zero: "int4_fits 0" by (simp add: int4_fits_def)
  show ?thesis
    unfolding undo_chunked_def
    by ((rule takes_Cons, (rule statement_rules update_takes [OF first] update_takes [OF second];
        simp add: schema_defs status_fits zero kept check columns del: truth.simps py_str_simps))+,
      rule takes_done; auto simp: schema_defs STATUSES_WITHOUT_CHUNKED_def)
qed

section \<open>One revision up, one revision down\<close>

definition upgraded_row :: "nat \<Rightarrow> string \<Rightarrow> row \<Rightarrow> row" where
  "upgraded_row n name = (if n = 4 \<and> name = ''documents'' then give_reason else id)"

definition downgraded_row :: "nat \<Rightarrow> string \<Rightarrow> row \<Rightarrow> row" where
  "downgraded_row n name =
     (if n = 2 \<and> name = ''users'' then forget [''password_hash'']
      else if name = ''documents'' then
        (if n = 3 then forget [''page_count'', ''mime_type'', ''size_bytes'', ''content_hash'', ''storage_key'']
         else if n = 4 then forget [''failure_reason''] \<circ> change_status ''failed'' ''error''
         else if n = 5 then change_status ''parsed'' ''pending''
         else if n = 6 then zero_count \<circ> recount else id)
      else id)"

definition discarded :: "nat \<Rightarrow> string \<Rightarrow> bool" where
  "discarded n name \<longleftrightarrow> n = 1 \<or> n = 5 \<and> name = ''document_pages'' \<or> n = 6 \<and> name = ''document_chunks''"

definition upgrades_to :: "nat \<Rightarrow> store \<Rightarrow> (exn, store) result \<Rightarrow> bool" where
  "upgrades_to n st r \<longleftrightarrow> (\<exists>st'. r = Inr st' \<and> at_revision n st' \<and> (\<forall>name. rows_in name st' = map (upgraded_row n name) (rows_in name st)))"

lemma schema_steps:
  "schema_at 2 = with_table ''users'' (users_at 2) (schema_at 1)"
  "schema_at 3 = with_table ''documents'' (documents_at 3) (schema_at 2)"
  "schema_at 4 = with_table ''documents'' (documents_at 4) (schema_at 3)"
  "schema_at 5 = with_table ''documents'' (documents_at 5) (schema_at 4) @ [(''document_pages'', pages_at 5)]"
  "schema_at 6 = with_table ''documents'' (documents_at 6) (with_table ''document_chunks'' (chunks_at 6) (schema_at 5))"
  by (simp_all add: schema_defs with_table_def)

lemma schema_steps_down:
  "schema_at 1 = with_table ''users'' (users_at 1) (schema_at 2)"
  "schema_at 2 = with_table ''documents'' (documents_at 2) (schema_at 3)"
  "schema_at 3 = with_table ''documents'' (documents_at 3) (schema_at 4)"
  "schema_at 4 = filter (\<lambda>t. fst t \<noteq> ''document_pages'') (with_table ''documents'' (documents_at 4) (schema_at 5))"
  "schema_at 5 = with_table ''documents'' (documents_at 5) (with_table ''document_chunks'' (chunks_at 5) (schema_at 6))"
  by (simp_all add: schema_defs with_table_def)

lemma revision_0: "at_revision 0 st \<longleftrightarrow> st = []"
  by (auto simp: at_revision_def describes_def schema_at_def sound_def store_ok_def)

lemma describes_unreferenced: "describes ss st \<Longrightarrow> unreferenced n st = unreferenced n ss"
proof -
  have "list_all2 (\<lambda>t s. fst t = fst s \<and> same_table (snd t) (snd s)) st ss \<Longrightarrow> unreferenced n st = unreferenced n ss"
    by (induction st ss rule: list_all2_induct) (auto simp: unreferenced_def list_all_iff same_table_def)
  then show "describes ss st \<Longrightarrow> unreferenced n st = unreferenced n ss" by (simp add: describes_def)
qed

lemma statements_then: "statements ss st = Inr st1 \<Longrightarrow> statements (ss @ ss') st = statements ss' st1"
  by (simp add: statements_append)

lemma statements_one: "statements [s] st = s st"
  by (cases "s st") simp_all

lemma rows_in_append: "tb_rows t = [] \<Longrightarrow> rows_in name (st @ [(m, t)]) = rows_in name st"
  by (simp add: rows_in_def map_add_def split: option.splits)

lemma rows_in_filter: "rows_in name (filter (\<lambda>t. fst t \<noteq> m) st) = (if name = m then [] else rows_in name st)"
proof -
  have "map_of (filter (\<lambda>t. fst t \<noteq> m) st) name = (if name = m then None else map_of st name)"
    by (induction st) auto
  then show ?thesis by (simp add: rows_in_def)
qed

lemma revision_step:
  assumes "at_revision n st" and "map_of (schema_at n) name = Some s" and "schema_at m = with_table name s' (schema_at n)"
    and "takes (table_state name st s (rows_in name st)) ops (table_state name st s' (map f (rows_in name st)))"
  shows "\<exists>st'. ops st = Inr st' \<and> at_revision m st' \<and> (\<forall>other. rows_in other st' = (if other = name then map f (rows_in name st) else rows_in other st))"
  by (rule run_on_table [OF assms(1) [unfolded at_revision_def] keyed_schema assms(2,4)]) (use assms(3) in \<open>simp add: at_revision_def\<close>)

lemma revision_row:
  assumes "at_revision n st" and "map_of (schema_at n) name = Some s" and "r \<in> set (rows_in name st)"
  shows "c \<notin> fst ` set (tb_columns s) \<Longrightarrow> r c = NullV"
    and "(m, Check cond) \<in> set (tb_constraints s) \<Longrightarrow> truth cond r \<noteq> Some False"
    and "row_fits (tb_columns s) r"
  using described_row [OF assms(1) [unfolded at_revision_def] assms(2,3)] by blast+

lemma upgrade_1: "upgrades_to 1 [] (upgrade_0001 [])"
  by (simp add: upgrades_to_def upgrade_0001_def create_table_def create_index_def on_table_def with_table_def accept_def
      store_ok_def table_ok_def list_all_iff refers_only_to_def keys_of_def index_satisfied_def rows_in_def at_revision_def
      describes_def sound_def schema_defs stored_def confined_def same_table_def naming_ck_def)

lemma upgrade_2: assumes "at_revision 1 st" shows "upgrades_to 2 st (upgrade_0002 st)"
proof -
  have t: "takes (table_state ''users'' st (users_at 1) (rows_in ''users'' st)) upgrade_0002
      (table_state ''users'' st (users_at 2) (map id (rows_in ''users'' st)))"
    by (simp add: upgrade_0002_takes del: One_nat_def)
  show ?thesis using revision_step [OF assms _ schema_steps(1) t] by (auto simp: upgrades_to_def upgraded_row_def)
qed

lemma upgrade_3: assumes "at_revision 2 st" shows "upgrades_to 3 st (upgrade_0003 st)"
proof -
  have "r ''size_bytes'' = NullV \<and> r ''page_count'' = NullV \<and> r ''content_hash'' = NullV" if "r \<in> set (rows_in ''documents'' st)" for r
    by (intro conjI revision_row(1) [OF assms schema_at_tables(2) that]) (simp_all add: schema_defs)
  then have t: "takes (table_state ''documents'' st (documents_at 2) (rows_in ''documents'' st)) upgrade_0003
      (table_state ''documents'' st (documents_at 3) (map id (rows_in ''documents'' st)))"
    by (simp add: upgrade_0003_takes)
  show ?thesis using revision_step [OF assms _ schema_steps(2) t] by (auto simp: upgrades_to_def upgraded_row_def)
qed

lemma status_row:
  assumes "at_revision n st" and "1 \<le> n" and "r \<in> set (rows_in ''documents'' st)"
  shows "truth (OneOf ''status'' (statuses_at n)) r \<noteq> Some False" "truth (AtLeast ''chunk_count'' 0) r \<noteq> Some False"
    "4 \<le> n \<Longrightarrow> truth (SameTruth (Equals ''status'' ''failed'') (IsNotNull ''failure_reason'')) r \<noteq> Some False"
  by (rule revision_row(2) [OF assms(1) schema_at_tables(2) [OF assms(2)] assms(3)], simp add: schema_defs)+

lemma upgrade_4: assumes "at_revision 3 st" shows "upgrades_to 4 st (upgrade_0004 st)"
proof -
  have "r ''failure_reason'' = NullV \<and> truth (OneOf ''status'' (statuses_at 3)) r \<noteq> Some False" if "r \<in> set (rows_in ''documents'' st)" for r
    by (intro conjI revision_row(1) [OF assms schema_at_tables(2) that] status_row(1) [OF assms _ that]) (simp_all add: schema_defs)
  then have t: "takes (table_state ''documents'' st (documents_at 3) (rows_in ''documents'' st)) upgrade_0004
      (table_state ''documents'' st (documents_at 4) (map give_reason (rows_in ''documents'' st)))"
    by (intro upgrade_0004_takes) blast
  show ?thesis using revision_step [OF assms _ schema_steps(3) t] by (auto simp: upgrades_to_def upgraded_row_def)
qed

lemma upgrade_5: assumes "at_revision 4 st" shows "upgrades_to 5 st (upgrade_0005 st)"
proof -
  let ?ops = "[drop_constraint status_constraint ''documents'',
      create_check_constraint status_constraint ''documents'' (OneOf ''status'' [''pending'', ''processing'', ''parsed'', ''ready'', ''failed''])]"
  have t: "takes (table_state ''documents'' st (documents_at 4) (rows_in ''documents'' st)) (statements ?ops)
      (table_state ''documents'' st (documents_at 5) (map id (rows_in ''documents'' st)))"
    unfolding list.map_id by (intro upgrade_0005_takes ballI status_row(1) [OF assms]) simp_all
  obtain st1 where st1: "statements ?ops st = Inr st1" "describes (with_table ''documents'' (documents_at 5) (schema_at 4)) st1"
    "\<And>other. rows_in other st1 = rows_in other st"
    by (rule run_on_table [OF assms [unfolded at_revision_def] keyed_schema _ t]) auto
  let ?cs = "[required ''document_id'' UuidT, required ''page_number'' IntegerT, required ''blocks'' JsonbT, defaulted ''created_at'' DateTimeT ''now()'']"
  let ?ks = "[(''ck_document_pages_page_number_positive'', Check (AtLeast ''page_number'' 1)),
    (''ck_document_pages_blocks_is_array'', Check (IsArray ''blocks'')),
    (''fk_document_pages_document_id_documents'', ForeignKey [''document_id''] ''documents'' [''id''] CASCADE),
    (''pk_document_pages'', PrimaryKey [''document_id'', ''page_number''])]"
  have names: "fst ` set st1 = {''users'', ''documents'', ''document_chunks''}"
    using arg_cong [OF describes_names [OF st1(2)], of set] by (simp add: schema_at_def)
  have refs: "unreferenced ''document_pages'' st1"
    unfolding describes_unreferenced [OF st1(2)] by (simp add: unreferenced_def with_table_def schema_defs)
  have sound: "sound st1" using st1(2) by (simp add: describes_def)
  have fresh: "''document_pages'' \<notin> fst ` set st1" "list_all (\<lambda>k. refers_only_to st1 ?cs (snd k)) ?ks"
    using names by (simp_all add: refers_only_to_def column_defs)
  note page = create_table_step [OF sound fresh refs]
  have "upgrade_0005 st = statements (?ops @ [create_table ''document_pages'' ?cs ?ks]) st" by (simp add: upgrade_0005_def)
  also have "\<dots> = create_table ''document_pages'' ?cs ?ks st1" by (simp only: statements_then [OF st1(1)] statements_one)
  finally have run: "upgrade_0005 st = create_table ''document_pages'' ?cs ?ks st1" .
  have "same_table \<lparr>tb_columns = map stored ?cs, tb_constraints = ?ks @ concat (map (enum_check ''document_pages'') ?cs), tb_indexes = [], tb_rows = []\<rparr> (pages_at 5)"
    by (simp add: same_table_def schema_defs stored_def)
  with st1(2) page(2) have "at_revision 5 (st1 @ [(''document_pages'', \<lparr>tb_columns = map stored ?cs,
      tb_constraints = ?ks @ concat (map (enum_check ''document_pages'') ?cs), tb_indexes = [], tb_rows = []\<rparr>)])"
    unfolding at_revision_def schema_steps(4) describes_def by (simp add: list_all2_appendI)
  with run page(1) st1(3) show ?thesis by (simp add: upgrades_to_def upgraded_row_def rows_in_append)
qed
lemma select_count_rows: "select_count name st = length (rows_in name st)"
  by (simp add: select_count_def rows_in_def split: option.splits)

lemma upgrade_6:
  assumes "at_revision 5 st" and "rows_in ''document_chunks'' st = []"
  shows "upgrades_to 6 st (upgrade_0006 st)"
proof -
  have t: "takes (table_state ''document_chunks'' st (chunks_at 5) (rows_in ''document_chunks'' st)) (statements add_provenance)
      (table_state ''document_chunks'' st (chunks_at 6) (map id (rows_in ''document_chunks'' st)))"
    using add_provenance_takes assms(2) by simp
  let ?ss = "with_table ''document_chunks'' (chunks_at 6) (schema_at 5)"
  obtain st1 where st1: "statements add_provenance st = Inr st1" "describes ?ss st1" "\<And>other. rows_in other st1 = rows_in other st"
    by (rule run_on_table [OF assms(1) [unfolded at_revision_def] keyed_schema _ t]) auto
  have keyed: "keyed ?ss" by (auto simp: keyed_def referenced_def with_table_def schema_defs)
  have look: "map_of ?ss ''documents'' = Some (documents_at 5)" by simp
  have t2: "takes (table_state ''documents'' st1 (documents_at 5) (rows_in ''documents'' st1)) (statements allow_chunked)
      (table_state ''documents'' st1 (documents_at 6) (map id (rows_in ''documents'' st1)))"
    unfolding list.map_id st1(3) by (intro allow_chunked_takes ballI status_row(1) [OF assms(1)]) simp_all
  obtain st2 where st2: "statements allow_chunked st1 = Inr st2" "describes (with_table ''documents'' (documents_at 6) ?ss) st2"
    "\<And>other. rows_in other st2 = rows_in other st1"
    by (rule run_on_table [OF st1(2) keyed look t2]) auto
  have "upgrade_0006 st = statements (add_provenance @ allow_chunked) st"
    using assms(2) by (simp add: upgrade_0006_def select_count_rows add_provenance_def allow_chunked_def)
  also have "\<dots> = Inr st2" by (simp only: statements_then [OF st1(1)] st2(1))
  finally show ?thesis
    using st2(2,3) st1(3) by (simp add: upgrades_to_def at_revision_def schema_steps(5) upgraded_row_def)
qed

definition downgrades_to :: "nat \<Rightarrow> store \<Rightarrow> (exn, store) result \<Rightarrow> bool" where
  "downgrades_to n st r \<longleftrightarrow> (\<exists>st'. r = Inr st' \<and> at_revision n st' \<and>
     (\<forall>name. rows_in name st' = (if discarded (Suc n) name then [] else map (downgraded_row (Suc n) name) (rows_in name st))))"

lemma downgrade_2: assumes "at_revision 2 st" shows "downgrades_to 1 st (downgrade_0002 st)"
  using revision_step [OF assms _ schema_steps_down(1) downgrade_0002_takes]
  by (auto simp: downgrades_to_def downgraded_row_def discarded_def)

lemma downgrade_3: assumes "at_revision 3 st" shows "downgrades_to 2 st (downgrade_0003 st)"
  using revision_step [OF assms _ schema_steps_down(2) downgrade_0003_takes]
  by (auto simp: downgrades_to_def downgraded_row_def discarded_def)

lemma downgrade_4: assumes "at_revision 4 st" shows "downgrades_to 3 st (downgrade_0004 st)"
proof -
  have "\<forall>r \<in> set (rows_in ''documents'' st). truth (OneOf ''status'' (statuses_at 4)) r \<noteq> Some False"
    by (intro ballI status_row(1) [OF assms]) simp_all
  from revision_step [OF assms _ schema_steps_down(3) downgrade_0004_takes [OF this]]
  show ?thesis by (auto simp: downgrades_to_def downgraded_row_def discarded_def)
qed

lemma drop_described:
  assumes "describes ss st" and "name \<in> fst ` set ss" and "unreferenced name (filter (\<lambda>t. fst t \<noteq> name) ss)"
  obtains st' where "drop_table name st = Inr st'" "describes (filter (\<lambda>t. fst t \<noteq> name) ss) st'"
    "\<And>other. rows_in other st' = (if other = name then [] else rows_in other st)"
proof -
  let ?st' = "filter (\<lambda>t. fst t \<noteq> name) st" and ?ss' = "filter (\<lambda>t. fst t \<noteq> name) ss"
  have same: "list_all2 (\<lambda>t s. fst t = fst s \<and> same_table (snd t) (snd s)) (filter (\<lambda>t. fst t \<noteq> name) st) (filter (\<lambda>t. fst t \<noteq> name) ss)"
    if "list_all2 (\<lambda>t s. fst t = fst s \<and> same_table (snd t) (snd s)) st ss" for st ss :: store
    using that by (induction st ss rule: list_all2_induct) auto
  have "list_all2 (\<lambda>t s. fst t = fst s \<and> same_table (snd t) (snd s)) xs ys \<Longrightarrow> unreferenced name xs = unreferenced name ys" for xs ys
    by (induction xs ys rule: list_all2_induct) (auto simp: unreferenced_def list_all_iff same_table_def)
  then have refs: "unreferenced name ?st'" using same assms(1,3) unfolding describes_def by blast
  have names: "name \<in> fst ` set st"
    using arg_cong [OF describes_names [OF assms(1)], of set] assms(2) by simp
  have sound: "sound st" using assms(1) by (simp add: describes_def)
  note drop = drop_table_step [OF sound names refs]
  have "describes ?ss' ?st'" using drop(2) same assms(1) unfolding describes_def by blast
  with drop(1) that show ?thesis by (simp add: rows_in_filter)
qed

lemma downgrade_5: assumes "at_revision 5 st" shows "downgrades_to 4 st (downgrade_0005 st)"
proof -
  let ?ss = "filter (\<lambda>t. fst t \<noteq> ''document_pages'') (schema_at 5)"
  let ?ops = "[drop_constraint status_constraint ''documents'',
      execute_update ''documents'' [(''status'', StrV (py_str ''pending''))] (Equals ''status'' ''parsed''),
      create_check_constraint status_constraint ''documents'' (OneOf ''status'' [''pending'', ''processing'', ''ready'', ''failed''])]"
  have refs: "unreferenced ''document_pages'' ?ss" by (simp add: unreferenced_def schema_defs)
  obtain st1 where st1: "drop_table ''document_pages'' st = Inr st1" "describes ?ss st1"
    "\<And>other. rows_in other st1 = (if other = ''document_pages'' then [] else rows_in other st)"
    by (rule drop_described [OF assms [unfolded at_revision_def] _ refs]) (simp_all add: schema_at_def)
  have look: "map_of ?ss ''documents'' = Some (documents_at 5)" "keyed ?ss"
    by (auto simp: keyed_def referenced_def schema_defs)
  have rows: "rows_in ''documents'' st1 = rows_in ''documents'' st" using st1(3) by simp
  have t: "takes (table_state ''documents'' st1 (documents_at 5) (rows_in ''documents'' st1)) (statements ?ops)
      (table_state ''documents'' st1 (documents_at 4) (map (change_status ''parsed'' ''pending'') (rows_in ''documents'' st1)))"
    unfolding rows by (intro downgrade_0005_takes ballI conjI status_row [OF assms]) simp_all
  obtain st2 where st2: "statements ?ops st1 = Inr st2" "describes (with_table ''documents'' (documents_at 4) ?ss) st2"
    "\<And>other. rows_in other st2 = (if other = ''documents'' then map (change_status ''parsed'' ''pending'') (rows_in ''documents'' st1) else rows_in other st1)"
    by (rule run_on_table [OF st1(2) look(2,1) t]) auto
  have "downgrade_0005 st = statements ([drop_table ''document_pages''] @ ?ops) st" by (simp add: downgrade_0005_def)
  also have "\<dots> = Inr st2" by (rule trans [OF statements_then st2(1)]) (simp add: st1(1))
  finally have run: "downgrade_0005 st = Inr st2" .
  have "with_table ''documents'' (documents_at 4) ?ss = schema_at 4" by (simp add: schema_defs with_table_def)
  with run st2(2,3) st1(3) show ?thesis
    by (simp add: downgrades_to_def at_revision_def downgraded_row_def discarded_def)
qed

lemma downgrade_6: assumes "at_revision 6 st" shows "downgrades_to 5 st (downgrade_0006 st)"
proof -
  obtain c where c: "map_of st ''document_chunks'' = Some c" "same_table c (chunks_at 6)"
    by (rule describes_lookup [OF assms [unfolded at_revision_def]]) (auto simp: schema_at_tables(3) [of 6])
  have sound: "sound st" using assms by (simp add: at_revision_def describes_def)
  have refs: "unreferenced ''document_chunks'' st"
    unfolding describes_unreferenced [OF assms [unfolded at_revision_def]] by (simp add: unreferenced_def schema_defs)
  let ?st0 = "with_table ''document_chunks'' (c\<lparr>tb_rows := []\<rparr>) st"
  note delete = delete_step [OF sound c(1) refs]
  have keep: "with_table ''document_chunks'' (chunks_at 6) (schema_at 6) = schema_at 6" by (simp add: schema_at_def with_table_def)
  have empty: "same_table (c\<lparr>tb_rows := []\<rparr>) (chunks_at 6)" using c(2) by (simp add: same_table_def)
  have "list_all2 (\<lambda>t s. fst t = fst s \<and> same_table (snd t) (snd s)) st (schema_at 6)"
    using assms by (simp add: at_revision_def describes_def)
  from same_with_table [OF this empty, of "''document_chunks''"] delete(2)
  have d0: "describes (schema_at 6) ?st0" unfolding keep by (simp add: describes_def)
  have rows0: "rows_in other ?st0 = (if other = ''document_chunks'' then [] else rows_in other st)" for other
    using c(1) by (simp add: rows_in_def)
  have t: "takes (table_state ''document_chunks'' ?st0 (chunks_at 6) (rows_in ''document_chunks'' ?st0)) (statements drop_provenance)
      (table_state ''document_chunks'' ?st0 (chunks_at 5) (map id (rows_in ''document_chunks'' ?st0)))"
    unfolding rows0 using drop_provenance_takes by simp
  let ?ss = "with_table ''document_chunks'' (chunks_at 5) (schema_at 6)"
  obtain st1 where st1: "statements drop_provenance ?st0 = Inr st1" "describes ?ss st1" "\<And>other. rows_in other st1 = rows_in other ?st0"
    by (rule run_on_table [OF d0 keyed_schema _ t]) auto
  have look: "map_of ?ss ''documents'' = Some (documents_at 6)" "keyed ?ss"
    by (auto simp: keyed_def referenced_def with_table_def schema_defs)
  have rows: "rows_in ''documents'' st1 = rows_in ''documents'' st" by (simp add: st1(3) rows0)
  have t2: "takes (table_state ''documents'' st1 (documents_at 6) (rows_in ''documents'' st1)) (statements undo_chunked)
      (table_state ''documents'' st1 (documents_at 5) (map (zero_count \<circ> recount) (rows_in ''documents'' st1)))"
    unfolding rows by (intro undo_chunked_takes ballI conjI status_row [OF assms]) simp_all
  obtain st2 where st2: "statements undo_chunked st1 = Inr st2" "describes (with_table ''documents'' (documents_at 5) ?ss) st2"
    "\<And>other. rows_in other st2 = (if other = ''documents'' then map (zero_count \<circ> recount) (rows_in ''documents'' st1) else rows_in other st1)"
    by (rule run_on_table [OF st1(2) look(2,1) t2]) auto
  have "downgrade_0006 st = statements ([execute_delete ''document_chunks''] @ drop_provenance @ undo_chunked) st"
    by (simp add: downgrade_0006_def drop_provenance_def undo_chunked_def)
  also have "\<dots> = statements (drop_provenance @ undo_chunked) ?st0" by (rule statements_then) (simp add: delete(1))
  also have "\<dots> = Inr st2" by (simp only: statements_then [OF st1(1)] st2(1))
  finally show ?thesis
    using st2(2,3) st1(3) rows0
    by (simp add: downgrades_to_def at_revision_def schema_steps_down(5) downgraded_row_def discarded_def)
qed

lemma downgrade_1: assumes "at_revision 1 st" shows "downgrades_to 0 st (downgrade_0001 st)"
proof -
  let ?s1 = "filter (\<lambda>t. fst t \<noteq> ''document_chunks'') (schema_at 1)"
  obtain st1 where st1: "drop_table ''document_chunks'' st = Inr st1" "describes ?s1 st1"
    by (rule drop_described [OF assms [unfolded at_revision_def], of "''document_chunks''"]) (simp_all add: schema_defs unreferenced_def)
  let ?d = "(documents_at 1)\<lparr>tb_indexes := []\<rparr>"
  have look: "map_of ?s1 ''documents'' = Some (documents_at 1)" "keyed ?s1"
    by (auto simp: keyed_def referenced_def schema_defs)
  have t: "takes (table_state ''documents'' st1 (documents_at 1) (rows_in ''documents'' st1))
      (statements [drop_index ''ix_documents_user_id_created_at'' ''documents''])
      (table_state ''documents'' st1 ?d (map id (rows_in ''documents'' st1)))"
    by ((rule takes_Cons, (rule statement_rules; simp add: schema_defs))+, rule takes_done; simp add: schema_defs)
  obtain st2 where st2: "statements [drop_index ''ix_documents_user_id_created_at'' ''documents''] st1 = Inr st2"
      "describes (with_table ''documents'' ?d ?s1) st2"
    by (rule run_on_table [OF st1(2) look(2,1) t]) auto
  obtain st3 where st3: "drop_table ''documents'' st2 = Inr st3"
      "describes (filter (\<lambda>t. fst t \<noteq> ''documents'') (with_table ''documents'' ?d ?s1)) st3"
    by (rule drop_described [OF st2(2), of "''documents''"]) (simp_all add: schema_defs unreferenced_def with_table_def)
  obtain st4 where st4: "drop_table ''users'' st3 = Inr st4"
      "describes (filter (\<lambda>t. fst t \<noteq> ''users'') (filter (\<lambda>t. fst t \<noteq> ''documents'') (with_table ''documents'' ?d ?s1))) st4"
    by (rule drop_described [OF st3(2), of "''users''"]) (simp_all add: schema_defs unreferenced_def with_table_def)
  have run: "downgrade_0001 st = Inr st4"
    using st1(1) st2(1) st3(1) st4(1) by (auto simp: downgrade_0001_def)
  have "at_revision 0 st4" using st4(2) by (simp add: at_revision_def schema_defs with_table_def)
  with run show ?thesis by (simp add: downgrades_to_def revision_0 rows_in_def discarded_def)
qed

section \<open>Every revision\<close>

lemma below_6: "n < 6 \<Longrightarrow> n = 0 \<or> n = 1 \<or> n = 2 \<or> n = 3 \<or> n = 4 \<or> n = (5::nat)"
  by auto

lemma upgrade_accepted:
  assumes "at_revision n st" and "n < 6" and "n = 5 \<Longrightarrow> rows_in ''document_chunks'' st = []"
  shows "upgrades_to (Suc n) st ((upgrades ! n) st)"
  using below_6 [OF assms(2)]
proof (elim disjE)
  assume "n = 0"
  with assms(1) upgrade_1 show ?thesis by (simp add: revision_0 upgrades_def)
next
  assume "n = 1"
  with assms(1) upgrade_2 show ?thesis by (simp add: upgrades_def numeral_2_eq_2)
next
  assume "n = 2"
  with assms(1) upgrade_3 show ?thesis by (simp add: upgrades_def)
next
  assume "n = 3"
  with assms(1) upgrade_4 show ?thesis by (simp add: upgrades_def)
next
  assume "n = 4"
  with assms(1) upgrade_5 show ?thesis by (simp add: upgrades_def)
next
  assume "n = 5"
  with assms(1,3) upgrade_6 show ?thesis by (simp add: upgrades_def)
qed

lemma downgrade_accepted:
  assumes "at_revision (Suc n) st" and "n < 6"
  shows "downgrades_to n st ((downgrades ! n) st)"
  using below_6 [OF assms(2)]
proof (elim disjE)
  assume "n = 0"
  with assms(1) downgrade_1 show ?thesis by (simp add: downgrades_def)
next
  assume "n = 1"
  with assms(1) downgrade_2 show ?thesis by (simp add: downgrades_def numeral_2_eq_2)
next
  assume "n = 2"
  with assms(1) downgrade_3 show ?thesis by (simp add: downgrades_def)
next
  assume "n = 3"
  with assms(1) downgrade_4 show ?thesis by (simp add: downgrades_def)
next
  assume "n = 4"
  with assms(1) downgrade_5 show ?thesis by (simp add: downgrades_def)
next
  assume "n = 5"
  with assms(1) downgrade_6 show ?thesis by (simp add: downgrades_def)
qed

text \<open>A row that satisfied the old revision comes back from a round trip as it was.\<close>

lemma row_comes_back:
  assumes "at_revision n st" and "n < 6" and "r \<in> set (rows_in name st)"
    and "n = 5 \<Longrightarrow> name = ''documents'' \<Longrightarrow> r ''chunk_count'' = IntV 0"
  shows "downgraded_row (Suc n) name (upgraded_row (Suc n) name r) = r"
proof (cases "1 \<le> n \<and> (name = ''users'' \<or> name = ''documents'')")
  case True
  have unset: "n = 1 \<Longrightarrow> name = ''users'' \<Longrightarrow> r ''password_hash'' = NullV"
    "n = 2 \<Longrightarrow> name = ''documents'' \<Longrightarrow> c \<in> set [''page_count'', ''mime_type'', ''size_bytes'', ''content_hash'', ''storage_key''] \<Longrightarrow> r c = NullV"
    "n = 3 \<Longrightarrow> name = ''documents'' \<Longrightarrow> r ''failure_reason'' = NullV" for c
    using revision_row(1) [OF assms(1) schema_at_tables(1)] revision_row(1) [OF assms(1) schema_at_tables(2)] assms(3) True
    by (auto simp: schema_defs)
  have status: "name = ''documents'' \<Longrightarrow> truth (OneOf ''status'' (statuses_at n)) r \<noteq> Some False"
    using status_row(1) [OF assms(1)] assms(3) True by blast
  from below_6 [OF assms(2)] show ?thesis
    using True unset status assms(4)
    by (elim disjE) (auto simp: downgraded_row_def upgraded_row_def forget_def fun_eq_iff give_reason_def change_status_def
        recount_def zero_count_def statuses_at_def)
next
  case False
  have "n = 0 \<Longrightarrow> rows_in name st = []" using assms(1) by (simp add: revision_0 rows_in_def)
  with False assms(3) show ?thesis by (cases "n = 0") (auto simp: downgraded_row_def upgraded_row_def)
qed

text \<open>A document that is ready stays ready through a downgrade of 0006 and back, but its chunks are gone.\<close>

lemma ready_documents_lose_their_chunks:
  assumes "at_revision 6 st" and "r \<in> set (rows_in ''documents'' st)" and "r ''status'' = StrV (py_str ''ready'')" and "r ''chunk_count'' = IntV n"
  shows "\<exists>st' st'' r'. downgrade_0006 st = Inr st' \<and> upgrade_0006 st' = Inr st'' \<and> rows_in ''document_chunks'' st'' = []
    \<and> r' \<in> set (rows_in ''documents'' st'') \<and> r' ''id'' = r ''id'' \<and> r' ''status'' = StrV (py_str ''ready'') \<and> r' ''chunk_count'' = IntV 0"
proof -
  obtain st' where down: "downgrade_0006 st = Inr st'" "at_revision 5 st'"
    "\<And>name. rows_in name st' = (if discarded 6 name then [] else map (downgraded_row 6 name) (rows_in name st))"
    using downgrade_6 [OF assms(1)] by (auto simp: downgrades_to_def)
  have "rows_in ''document_chunks'' st' = []" using down(3) by (simp add: discarded_def)
  from upgrade_6 [OF down(2) this] obtain st'' where up: "upgrade_0006 st' = Inr st''"
    "\<And>name. rows_in name st'' = map (upgraded_row 6 name) (rows_in name st')"
    by (auto simp: upgrades_to_def)
  let ?r = "(zero_count \<circ> recount) r"
  have "?r \<in> set (rows_in ''documents'' st'')"
    using assms(2) by (simp add: up(2) down(3) discarded_def downgraded_row_def upgraded_row_def)
  moreover have "?r ''id'' = r ''id'' \<and> ?r ''status'' = StrV (py_str ''ready'') \<and> ?r ''chunk_count'' = IntV 0"
    using assms(3,4) by (simp add: zero_count_def recount_def)
  moreover have "rows_in ''document_chunks'' st'' = []" by (simp add: up(2) down(3) discarded_def)
  ultimately show ?thesis using down(1) up(1) by blast
qed

definition same_schema :: "store \<Rightarrow> store \<Rightarrow> bool" where
  "same_schema st st' \<longleftrightarrow> set (map fst st) = set (map fst st')
     \<and> list_all (\<lambda>(n, t). case map_of st' n of
          None \<Rightarrow> False
        | Some t' \<Rightarrow> set (tb_columns t) = set (tb_columns t') \<and> set (tb_constraints t) = set (tb_constraints t')
            \<and> set (tb_indexes t) = set (tb_indexes t')) st"

definition object_names :: "store \<Rightarrow> string list" where
  "object_names st = concat (map (\<lambda>(n, t). map fst (tb_constraints t) @ map fst (tb_indexes t)) st)"

lemma schema_6_is_declared: "same_schema (schema_at 6) Base_metadata"
  by code_simp

lemma declared_names: "list_all (\<lambda>n. length n \<le> 63) (object_names Base_metadata) \<and> distinct (object_names Base_metadata)"
  by code_simp

lemma describes_same_schema:
  assumes "describes ss st" and "same_schema ss st0"
  shows "same_schema st st0"
proof -
  have "list_all2 (\<lambda>t s. fst t = fst s \<and> same_table (snd t) (snd s)) st ss" using assms(1) by (simp add: describes_def)
  then have "list_all (\<lambda>(n, t). case map_of st0 n of None \<Rightarrow> False
        | Some t' \<Rightarrow> set (tb_columns t) = set (tb_columns t') \<and> set (tb_constraints t) = set (tb_constraints t')
            \<and> set (tb_indexes t) = set (tb_indexes t')) ss \<Longrightarrow>
    list_all (\<lambda>(n, t). case map_of st0 n of None \<Rightarrow> False
        | Some t' \<Rightarrow> set (tb_columns t) = set (tb_columns t') \<and> set (tb_constraints t) = set (tb_constraints t')
            \<and> set (tb_indexes t) = set (tb_indexes t')) st"
    by (induction st ss rule: list_all2_induct) (auto simp: same_table_def split: option.splits)
  with assms(2) describes_names [OF assms(1)] show ?thesis by (simp add: same_schema_def)
qed

lemma all_upgrades: "\<exists>st. statements upgrades [] = Inr st \<and> at_revision 6 st \<and> (\<forall>name. rows_in name st = [])"
proof -
  have "\<exists>st. statements (take n upgrades) [] = Inr st \<and> at_revision n st \<and> (\<forall>name. rows_in name st = [])" if "n \<le> 6" for n
    using that
  proof (induction n)
    case 0
    show ?case by (simp add: revision_0 rows_in_def)
  next
    case (Suc n)
    then obtain st where st: "statements (take n upgrades) [] = Inr st" "at_revision n st" "\<forall>name. rows_in name st = []" by auto
    from upgrade_accepted [OF st(2)] Suc.prems st(3) obtain st' where st': "(upgrades ! n) st = Inr st'" "at_revision (Suc n) st'" "\<forall>name. rows_in name st' = []"
      by (auto simp: upgrades_to_def)
    have "take (Suc n) upgrades = take n upgrades @ [upgrades ! n]"
      using Suc.prems by (intro take_Suc_conv_app_nth) (simp add: upgrades_def)
    then have "statements (take (Suc n) upgrades) [] = Inr st'" by (simp only: statements_then [OF st(1)] statements_one st'(1))
    with st' show ?case by blast
  qed
  from this [of 6] show ?thesis by (simp add: upgrades_def)
qed

lemma all_downgrades: "at_revision n st \<Longrightarrow> n \<le> 6 \<Longrightarrow> statements (rev (take n downgrades)) st = Inr []"
proof (induction n arbitrary: st)
  case 0
  then show ?case by (simp add: revision_0)
next
  case (Suc n)
  from downgrade_accepted [OF Suc.prems(1)] Suc.prems(2) obtain st' where st': "(downgrades ! n) st = Inr st'" "at_revision n st'"
    by (auto simp: downgrades_to_def)
  have "take (Suc n) downgrades = take n downgrades @ [downgrades ! n]"
    using Suc.prems by (intro take_Suc_conv_app_nth) (simp add: downgrades_def)
  with st' Suc.IH [OF st'(2)] Suc.prems(2) show ?case by simp
qed

section \<open>Properties\<close>

text \<open>
  C35. The migrations build the models. Run on an empty database, the six upgrades are accepted and
  leave exactly the tables, columns, constraints and indexes the ORM declares under its naming
  convention, without a row in them; every name fits PostgreSQL's 63 characters; and the six
  downgrades take everything back.
\<close>

theorem migrations_build_the_models:
  "\<exists>st. run_migrations upgrades [] = (Inr (), st) \<and> same_schema st Base_metadata \<and> (\<forall>name. rows_in name st = [])
    \<and> run_migrations (rev downgrades) st = (Inr (), [])
    \<and> list_all (\<lambda>n. length n \<le> 63) (object_names Base_metadata) \<and> distinct (object_names Base_metadata)"
proof -
  obtain st where st: "statements upgrades [] = Inr st" "at_revision 6 st" "\<forall>name. rows_in name st = []"
    using all_upgrades by blast
  have "statements (rev (take 6 downgrades)) st = Inr []" by (rule all_downgrades [OF st(2)]) simp
  moreover have "take 6 downgrades = downgrades" by (simp add: downgrades_def)
  ultimately have "statements (rev downgrades) st = Inr []" by simp
  with st describes_same_schema [OF st(2) [unfolded at_revision_def] schema_6_is_declared] declared_names
  show ?thesis by (simp add: run_migrations_def)
qed

text \<open>
  C37. Upgrading keeps the data. From a populated database that satisfies revision n, the next upgrade
  is accepted, the result satisfies revision n + 1 with every constraint of it, and every row is still
  there, changed only where a document was in \<open>error\<close>; the one refusal is 0006 over existing chunks,
  and it leaves the database as it was.
\<close>

theorem upgrades_keep_the_data:
  assumes "at_revision n st" and "n < 6"
  shows "if n = 5 \<and> rows_in ''document_chunks'' st \<noteq> [] then run_migrations [upgrades ! n] st = (Inl RuntimeError, st)
    else \<exists>st'. run_migrations [upgrades ! n] st = (Inr (), st') \<and> at_revision (Suc n) st'
      \<and> (\<forall>name. rows_in name st' = map (\<lambda>r. if n = 3 \<and> name = ''documents'' then give_reason r else r) (rows_in name st))"
proof (cases "n = 5 \<and> rows_in ''document_chunks'' st \<noteq> []")
  case True
  then show ?thesis by (simp add: run_migrations_def upgrades_def upgrade_0006_def select_count_rows)
next
  case False
  then have "upgrades_to (Suc n) st ((upgrades ! n) st)" by (intro upgrade_accepted [OF assms]) blast
  then obtain st' where st': "(upgrades ! n) st = Inr st'" "at_revision (Suc n) st'"
    "\<And>name. rows_in name st' = map (upgraded_row (Suc n) name) (rows_in name st)"
    by (auto simp: upgrades_to_def)
  have "upgraded_row (Suc n) name = (\<lambda>r. if n = 3 \<and> name = ''documents'' then give_reason r else r)" for name
    by (auto simp: upgraded_row_def fun_eq_iff)
  moreover have "run_migrations [upgrades ! n] st = (Inr (), st')" by (simp add: run_migrations_def st'(1))
  ultimately have "run_migrations [upgrades ! n] st = (Inr (), st') \<and> at_revision (Suc n) st'
      \<and> (\<forall>name. rows_in name st' = map (\<lambda>r. if n = 3 \<and> name = ''documents'' then give_reason r else r) (rows_in name st))"
    using st'(2,3) by simp
  with False show ?thesis by (simp only: if_False) blast
qed


section \<open>Examples\<close>

text \<open>A store at revision 3 with one user and one document in the status that revision 4 abolishes.\<close>

definition example_user :: row where
  "example_user = (\<lambda>_. NullV)(''id'' := UuidV 1, ''email'' := StrV [97], ''full_name'' := StrV [98], ''role'' := StrV (py_str ''viewer''),
     ''is_active'' := BoolV True, ''created_at'' := TimeV 0, ''updated_at'' := TimeV 0)"

definition example_document :: "string \<Rightarrow> row" where
  "example_document status = (\<lambda>_. NullV)(''id'' := UuidV 2, ''user_id'' := UuidV 1, ''filename'' := StrV [99], ''doc_type'' := StrV (py_str ''pdf''),
     ''status'' := StrV (py_str status), ''metadata'' := JsonV (JDict []), ''chunk_count'' := IntV 0, ''created_at'' := TimeV 0, ''updated_at'' := TimeV 0)"

definition example_store :: "nat \<Rightarrow> string \<Rightarrow> store" where
  "example_store n status = with_table ''documents'' ((documents_at n)\<lparr>tb_rows := [example_document status]\<rparr>)
     (with_table ''users'' ((users_at n)\<lparr>tb_rows := [example_user]\<rparr>) (schema_at n))"

lemma example_store_at: "at_revision 3 (example_store 3 ''error'')"
proof -
  have "store_ok (example_store 3 ''error'')"
    by (simp add: example_store_def with_table_def schema_defs store_ok_def table_ok_def row_fits_def keys_of_def index_satisfied_def
        example_user_def example_document_def varchar_fits_def text_fits_def is_surrogate_def int4_fits_def)
  moreover have "\<forall>t \<in> set (example_store 3 ''error''). confined (snd t)"
    by (simp add: example_store_def with_table_def schema_defs confined_def example_user_def example_document_def)
  ultimately show ?thesis
    by (simp add: at_revision_def describes_def sound_def) (simp add: example_store_def with_table_def schema_defs same_table_def)
qed

theorem upgrades_keep_the_data_witness:
  "\<exists>st'. run_migrations [upgrades ! 3] (example_store 3 ''error'') = (Inr (), st') \<and> at_revision 4 st'
     \<and> rows_in ''documents'' st' = [give_reason (example_document ''error'')] \<and> rows_in ''users'' st' = [example_user]"
proof -
  have "rows_in ''documents'' (example_store 3 ''error'') = [example_document ''error'']" "rows_in ''users'' (example_store 3 ''error'') = [example_user]"
    by (simp_all add: rows_in_def example_store_def)
  with upgrades_keep_the_data [OF example_store_at] show ?thesis by auto
qed


end
