(* ===== verification/AuthService.thy ===== *)
theory AuthService
  imports Security
begin

text \<open>
  \<open>backend/services/auth_service.py\<close>: registration and login, as coroutines over the world of the
  other services. A registration is one transaction; the password is hashed before it.
\<close>

definition is_duplicate_email :: "db_error \<Rightarrow> bool" where
  "is_duplicate_email e \<longleftrightarrow> e = IntegrityError ''uq_users_email''"

definition is_integrity_error :: "exn \<Rightarrow> bool" where
  "is_integrity_error e = (case e of DatabaseError (IntegrityError c) \<Rightarrow> True | _ \<Rightarrow> False)"

text \<open>\<open>rnd\<close> is the randomness of the salt, \<open>new_id\<close> what \<open>uuid4\<close> draws.\<close>

definition register ::
  "auth \<Rightarrow> nat \<Rightarrow> uuid \<Rightarrow> ustr \<Rightarrow> ustr \<Rightarrow> ustr \<Rightarrow> (('q, 'r) world, User) prog" where
  "register au rnd new_id email full_name password =
     tryP (bindP (of_result (hash_password (au_unicode au) (au_bcrypt au) rnd password)) (\<lambda>h.
             db_tx (users_create (au_email_ok au) new_id email full_name RESEARCHER (Some h))))
       (\<lambda>e. case e of
          DatabaseError d \<Rightarrow> if is_integrity_error e \<and> is_duplicate_email d then Raise EmailAlreadyRegistered else Raise e
        | _ \<Rightarrow> Raise e)
       Return"

definition login :: "auth \<Rightarrow> timestamp \<Rightarrow> ustr \<Rightarrow> ustr \<Rightarrow> (('q, 'r) world, AccessToken) prog" where
  "login au now email password =
     bindP (db_read (users_get_credentials_by_email email)) (\<lambda>credentials.
       let stored = (case credentials of None \<Rightarrow> None | Some c \<Rightarrow> uc_password_hash c) in
       bindP (of_result (verify_password (au_unicode au) (au_bcrypt au) (au_absent au) password stored)) (\<lambda>matched.
         case credentials of
           None \<Rightarrow> Raise AuthenticationError
         | Some c \<Rightarrow>
             if \<not> matched then Raise AuthenticationError
             else if \<not> uc_is_active c then Raise AuthenticationError
             else bindP (of_result (create_access_token (au_jwt au) (au_settings au) now
                 (uc_user_id c) (uc_email c) (uc_role c) None)) (\<lambda>token.
               Return \<lparr>at_token = token, at_expires_in_seconds = JWT_EXPIRE_MINUTES (au_settings au) * 60\<rparr>)))"

section \<open>Registration\<close>

lemma registered:
  assumes "run (register au rnd new_id email full_name password) cs w = (Inr user, cs', w')" and "wf_db (w_db w)"
  obtains h where "hash_password (au_unicode au) (au_bcrypt au) rnd password = Inr h"
    "w' = w\<lparr>w_db := w_db w\<lparr>db_users := db_users (w_db w) @ [new_user_row new_id email full_name RESEARCHER (Some h) (db_now (w_db w))]\<rparr>\<rparr>"
    "wf_db (w_db w')"
    "user_to_domain (au_email_ok au) (new_user_row new_id email full_name RESEARCHER (Some h) (db_now (w_db w))) = Inr user"
proof -
  from assms(1) obtain h db' where h: "hash_password (au_unicode au) (au_bcrypt au) rnd password = Inr h"
    and c: "users_create (au_email_ok au) new_id email full_name RESEARCHER (Some h) (w_db w) = Inr (user, db')"
    and w': "w' = w\<lparr>w_db := db'\<rparr>"
    by (auto simp: register_def run_simps db_tx_def split: sum.splits choice.splits prod.splits exn.splits if_splits)
  from users_create_row [OF c assms(2)] that [OF h] w' show ?thesis by auto
qed

text \<open>Exactly one row is added, and nothing when it fails.\<close>

lemma duplicate_refused:
  assumes "wf_db (w_db w)" and "r \<in> set (db_users (w_db w))" and "usr_email r = email"
    and "new_id \<notin> usr_id ` set (db_users (w_db w))"
    and "hash_password (au_unicode au) (au_bcrypt au) rnd password = Inr h"
    and "user_fits (new_user_row new_id email full_name RESEARCHER (Some h) (db_now (w_db w)))"
  shows "run (register au rnd new_id email full_name password) [] w = (Inl EmailAlreadyRegistered, [], w)"
proof -
  let ?row = "new_user_row new_id email full_name RESEARCHER (Some h) (db_now (w_db w))"
  have ok: "list_all user_fits (db_users (w_db w))" "distinct (map usr_id (db_users (w_db w)))"
    using assms(1) by (simp_all add: wf_db_def users_error_def)
  have "users_error (db_users (w_db w) @ [?row]) = Some (IntegrityError ''uq_users_email'')"
    using ok assms(2-4,6) by (auto simp: users_error_def violated.simps new_user_row_def image_iff)
  then have "users_create (au_email_ok au) new_id email full_name RESEARCHER (Some h) (w_db w)
      = Inl (DatabaseError (IntegrityError ''uq_users_email''))"
    by (simp add: users_create_def write_users_def Let_def)
  with assms(5) show ?thesis
    by (simp add: register_def run_simps run_db_tx is_integrity_error_def is_duplicate_email_def)
qed

section \<open>Login\<close>

lemma run_login:
  assumes "wf_db (w_db w)" and "r \<in> set (db_users (w_db w))" and "usr_is_active r"
    and "verify_password (au_unicode au) (au_bcrypt au) (au_absent au) password (usr_password_hash r) = Inr True"
    and "create_access_token (au_jwt au) (au_settings au) now (uuid_str (usr_id r)) (usr_email r) (usr_role r) None = Inr token"
  shows "run (login au now (usr_email r) password) [] w =
    (Inr \<lparr>at_token = token, at_expires_in_seconds = JWT_EXPIRE_MINUTES (au_settings au) * 60\<rparr>, [], w)"
  using assms credentials_eq [OF assms(1,2)]
  by (simp add: login_def run_simps db_read_def user_credentials_def Let_def)

lemma logged_in:
  assumes "run (login au now email password) cs w = (Inr access, cs', w')" and "wf_db (w_db w)"
  obtains r where "w' = w" "r \<in> set (db_users (w_db w))" "usr_email r = email" "usr_is_active r"
    "verify_password (au_unicode au) (au_bcrypt au) (au_absent au) password (usr_password_hash r) = Inr True"
    "create_access_token (au_jwt au) (au_settings au) now (uuid_str (usr_id r)) (usr_email r) (usr_role r) None = Inr (at_token access)"
    "at_expires_in_seconds access = JWT_EXPIRE_MINUTES (au_settings au) * 60"
proof -
  from assms(1) obtain c where c: "users_get_credentials_by_email email (w_db w) = Inr (Some c)" "w' = w"
    "verify_password (au_unicode au) (au_bcrypt au) (au_absent au) password (uc_password_hash c) = Inr True" "uc_is_active c"
    "create_access_token (au_jwt au) (au_settings au) now (uc_user_id c) (uc_email c) (uc_role c) None = Inr (at_token access)"
    "at_expires_in_seconds access = JWT_EXPIRE_MINUTES (au_settings au) * 60"
    by (auto simp: login_def run_simps db_read_def Let_def split: sum.splits choice.splits prod.splits option.splits if_splits)
  from credentials_found [OF assms(2) c(1)] obtain r where "r \<in> set (db_users (w_db w))" "usr_email r = email" "c = user_credentials r" .
  with that c show ?thesis by (auto simp: user_credentials_def)
qed

section \<open>An example\<close>

abbreviation example_email :: ustr where
  "example_email \<equiv> py_str ''b@c''"

definition newcomer :: UserRow where
  "newcomer = new_user_row 9 example_email (py_str ''B'') RESEARCHER (Some example_digest) 5"

abbreviation example_before :: "(ustr \<Rightarrow> (vector \<times> mapping) option, IngestionJob list) world" where
  "example_before \<equiv> staged_world DocumentStatus.READY"

abbreviation example_after :: "(ustr \<Rightarrow> (vector \<times> mapping) option, IngestionJob list) world" where
  "example_after \<equiv> example_before\<lparr>w_db := (staged_db DocumentStatus.READY)\<lparr>db_users := [example_user, newcomer]\<rparr>\<rparr>"

lemma example_before_wf: "wf_db (w_db example_before)"
  using staged_db_wf [of DocumentStatus.READY] by (simp add: staged_world_def)

lemma newcomer_fits: "user_fits newcomer"
  by (simp add: newcomer_def new_user_row_def user_fits_def varchar_fits_def is_surrogate_def)

lemma newcomer_user: "user_to_domain Some newcomer = Inr
    \<lparr>u_id = uuid_str 9, u_email = example_email, u_full_name = py_str ''B'', u_role = RESEARCHER, u_is_active = True, u_created_at = 5\<rparr>"
  by (simp add: user_to_domain_def newcomer_def new_user_row_def)

lemma example_hash: "hash_password (au_unicode example_auth) (au_bcrypt example_auth) 0 example_password = Inr example_digest"
  using example_password_hash by (simp add: example_auth_def)

lemma example_registers:
  obtains user where
    "run (register example_auth 0 9 example_email (py_str ''B'') example_password) [] example_before = (Inr user, [], example_after)"
    "wf_db (w_db example_after)"
proof -
  have "list_all user_fits [example_user]"
    using example_before_wf by (simp add: wf_db_def users_error_def staged_world_def staged_db_def)
  then have "users_error [example_user, newcomer] = None"
    using newcomer_fits by (simp add: users_error_def) (simp add: example_user_def newcomer_def new_user_row_def)
  then have "write_users [example_user, newcomer] (staged_db DocumentStatus.READY)
      = Inr ((staged_db DocumentStatus.READY)\<lparr>db_users := [example_user, newcomer]\<rparr>)" by simp
  moreover have row: "new_user_row 9 example_email (py_str ''B'') RESEARCHER (Some example_digest) (db_now (staged_db DocumentStatus.READY)) = newcomer"
    by (simp add: newcomer_def staged_db_def)
  moreover have "db_users (staged_db DocumentStatus.READY) = [example_user]" by (simp add: staged_db_def)
  moreover have "au_email_ok example_auth = Some" by (simp add: example_auth_def)
  ultimately obtain user where c: "users_create (au_email_ok example_auth) 9 example_email (py_str ''B'') RESEARCHER (Some example_digest)
      (staged_db DocumentStatus.READY) = Inr (user, (staged_db DocumentStatus.READY)\<lparr>db_users := [example_user, newcomer]\<rparr>)"
    using newcomer_user by (simp add: users_create_def Let_def del: py_str_simps)
  have db: "w_db example_before = staged_db DocumentStatus.READY" by (simp add: staged_world_def)
  have "run (register example_auth 0 9 example_email (py_str ''B'') example_password) [] example_before = (Inr user, [], example_after)"
    using c example_hash by (simp add: register_def run_simps run_db_tx db del: py_str_simps)
  moreover have "wf_db (w_db example_after)"
    using conjunct1 [OF conjunct2 [OF users_create_row [OF c example_before_wf [unfolded db]]]] by simp
  ultimately show ?thesis by (rule that)
qed

lemma example_signs_in:
  assumes "wf_db (w_db example_after)"
  obtains access where "run (login example_auth 0 example_email example_password) [] example_after = (Inr access, [], example_after)"
    "at_expires_in_seconds access = 3600"
proof -
  have minutes: "JWT_EXPIRE_MINUTES default_settings = 60" by (simp add: default_settings_def)
  obtain token where t: "create_access_token (au_jwt example_auth) (au_settings example_auth) 0 (uuid_str (usr_id newcomer))
      (usr_email newcomer) (usr_role newcomer) None = Inr token"
    by (simp add: create_access_token_def token_lifetime_def minutes FIRST_SECOND_def LAST_SECOND_def numbering_jwt_def example_auth_def)
  have row: "newcomer \<in> set (db_users (w_db example_after))" "usr_is_active newcomer" "usr_email newcomer = example_email"
    "usr_password_hash newcomer = Some example_digest"
    by (simp_all add: newcomer_def new_user_row_def)
  have "verify_password (au_unicode example_auth) (au_bcrypt example_auth) (au_absent example_auth) example_password
      (Some example_digest) = Inr True"
    using enrolled_verifies [OF transparent_bcrypt_laws example_password_text example_password_hash]
    by (simp add: example_auth_def)
  with run_login [OF assms row(1,2) _ t] row(3,4) minutes that show ?thesis
    by (simp add: example_auth_def)
qed

section \<open>Properties\<close>

text \<open>
  C24. Whoever registered can sign in. A registration that succeeded added exactly one account with
  that address and touched no other; from then on, signing in with the password, however it is typed
  as long as its normal form is the same, gives the token for that account, if the token library
  issues one.
\<close>

theorem registered_can_sign_in:
  assumes "run (register au rnd new_id email full_name password) cs w = (Inr user, cs', w')" and "wf_db (w_db w)"
    and "bcrypt_laws (au_bcrypt au)" and "is_text (u_nfkc (au_unicode au) password)"
    and "u_nfkc (au_unicode au) password' = u_nfkc (au_unicode au) password"
  shows "filter (\<lambda>r. usr_email r \<noteq> email) (db_users (w_db w')) = db_users (w_db w)
    \<and> length (filter (\<lambda>r. usr_email r = email) (db_users (w_db w'))) = 1
    \<and> run (login au now email password') [] w' =
       (case create_access_token (au_jwt au) (au_settings au) now (u_id user) email RESEARCHER None of
          Inl e \<Rightarrow> (Inl e, [], w')
        | Inr token \<Rightarrow> (Inr \<lparr>at_token = token, at_expires_in_seconds = JWT_EXPIRE_MINUTES (au_settings au) * 60\<rparr>, [], w'))"
proof -
  obtain h where h: "hash_password (au_unicode au) (au_bcrypt au) rnd password = Inr h"
    and w': "w' = w\<lparr>w_db := w_db w\<lparr>db_users := db_users (w_db w) @ [new_user_row new_id email full_name RESEARCHER (Some h) (db_now (w_db w))]\<rparr>\<rparr>"
    and wf: "wf_db (w_db w')"
    and user: "user_to_domain (au_email_ok au) (new_user_row new_id email full_name RESEARCHER (Some h) (db_now (w_db w))) = Inr user"
    by (rule registered [OF assms(1,2)])
  let ?row = "new_user_row new_id email full_name RESEARCHER (Some h) (db_now (w_db w))"
  have users: "db_users (w_db w') = db_users (w_db w) @ [?row]" by (simp add: w')
  then have others: "\<forall>r \<in> set (db_users (w_db w)). usr_email r \<noteq> email"
    using wf_db_keys(4) [OF wf] by (auto simp: new_user_row_def image_iff)
  have row: "usr_email ?row = email" "usr_is_active ?row" "usr_password_hash ?row = Some h" "usr_role ?row = RESEARCHER"
    "uuid_str (usr_id ?row) = u_id user" "?row \<in> set (db_users (w_db w'))"
    using user_to_domain_fields [OF user] users by (simp_all add: new_user_row_def)
  have "users_get_credentials_by_email email (w_db w') = Inr (Some (user_credentials ?row))"
    using credentials_eq [OF wf row(6)] row(1) by simp
  moreover have "verify_password (au_unicode au) (au_bcrypt au) (au_absent au) password' (Some h) = Inr True"
    by (rule enrolled_verifies [OF assms(3,4) h assms(5)])
  ultimately show ?thesis
    using others row users
    by (auto simp: login_def run_simps db_read_def user_credentials_def Let_def filter_empty_conv split: sum.splits)
qed

theorem registered_can_sign_in_witness:
  "length (filter (\<lambda>r. usr_email r = example_email) (db_users (w_db example_after))) = 1"
proof (rule example_registers)
  fix user
  assume "run (register example_auth 0 9 example_email (py_str ''B'') example_password) [] example_before = (Inr user, [], example_after)"
  moreover have "bcrypt_laws (au_bcrypt example_auth)" "is_text (u_nfkc (au_unicode example_auth) example_password)"
    using transparent_bcrypt_laws example_password_text by (simp_all add: example_auth_def)
  ultimately show ?thesis
    using registered_can_sign_in [OF _ example_before_wf _ _ refl] by blast
qed

text \<open>
  There is one account per address: while an address has an account, registering it again ends
  in \<open>EmailAlreadyRegistered\<close> whatever password comes with it, and changes nothing.
\<close>

theorem one_account_per_address:
  assumes "wf_db (w_db w)" and "r \<in> set (db_users (w_db w))" and "usr_email r = email"
    and "new_id \<notin> usr_id ` set (db_users (w_db w))"
    and "hash_password (au_unicode au) (au_bcrypt au) rnd password = Inr h"
    and "user_fits (new_user_row new_id email full_name RESEARCHER (Some h) (db_now (w_db w)))"
  shows "run (register au rnd new_id email full_name password) [] w = (Inl EmailAlreadyRegistered, [], w)"
  using assms by (rule duplicate_refused)

theorem one_account_per_address_witness:
  "run (register example_auth 0 10 example_email (py_str ''C'') example_password) [] example_after = (Inl EmailAlreadyRegistered, [], example_after)"
proof (rule example_registers)
  assume wf: "wf_db (w_db example_after)"
  have "newcomer \<in> set (db_users (w_db example_after))" "usr_email newcomer = example_email"
    "10 \<notin> usr_id ` set (db_users (w_db example_after))"
    by (simp_all add: newcomer_def new_user_row_def example_user_def)
  moreover have "user_fits (new_user_row 10 example_email (py_str ''C'') RESEARCHER (Some example_digest) (db_now (w_db example_after)))"
    by (simp add: new_user_row_def user_fits_def varchar_fits_def is_surrogate_def)
  ultimately show ?thesis using one_account_per_address [OF wf _ _ _ example_hash] by blast
qed

text \<open>
  The token a sign-in issues is the identity of the account: as long as the announced lifetime
  lasts, whoever presents it is resolved to the account of that address with the role it has now.
\<close>

theorem issued_token_is_the_account:
  assumes "run (login au now email password) cs w = (Inr access, cs', w')" and "wf_db (w_db w)"
    and "jwt_laws (au_jwt au)" and "JWT_ALGORITHM (au_settings au) \<in> set ALLOWED_JWT_ALGORITHMS"
    and "au_email_ok au email \<noteq> None"
  shows "w' = w \<and> (\<exists>r \<in> set (db_users (w_db w)). usr_email r = email \<and> usr_is_active r \<and>
    (\<forall>now' < (now + at_expires_in_seconds access * 1000000) div 1000000 * 1000000.
       \<exists>caller. run (resolve_principal au now' (at_token access)) [] w = (Inr caller, [], w)
         \<and> p_user_id caller = uuid_str (usr_id r) \<and> p_role caller = usr_role r))"
proof -
  obtain r where w: "w' = w" and r: "r \<in> set (db_users (w_db w))" "usr_email r = email" "usr_is_active r"
    and t: "create_access_token (au_jwt au) (au_settings au) now (uuid_str (usr_id r)) (usr_email r) (usr_role r) None = Inr (at_token access)"
    and e: "at_expires_in_seconds access = JWT_EXPIRE_MINUTES (au_settings au) * 60"
    by (rule logged_in [OF assms(1,2)])
  obtain u where u: "user_to_domain (au_email_ok au) r = Inr u"
    using assms(5) r(2) by (auto simp: user_to_domain_def)
  have "user_fits r" using assms(2) r(1) by (auto simp: wf_db_def users_error_def list_all_iff)
  then have email: "\<not> list_ex is_surrogate (usr_email r)"
    by (auto simp: user_fits_def varchar_fits_def text_fits_def list_all_iff list_ex_iff)
  have id: "\<not> list_ex is_surrogate (uuid_str (usr_id r))"
    using uuid_str_scalar by (auto simp: list_ex_iff)
  have "\<exists>caller. run (resolve_principal au now' (at_token access)) [] w = (Inr caller, [], w)
         \<and> p_user_id caller = uuid_str (usr_id r) \<and> p_role caller = usr_role r"
    if "now' < (now + at_expires_in_seconds access * 1000000) div 1000000 * 1000000" for now'
    using run_resolve_principal [OF token_verifies [OF assms(3) t assms(4) id email, of now'] assms(2) r(1) _ u] that r(3)
    by (auto simp: e token_lifetime_def)
  with w r show ?thesis by blast
qed

theorem issued_token_is_the_account_witness:
  "\<exists>token caller. run (resolve_principal example_auth 3599999999 token) [] example_after = (Inr caller, [], example_after)
     \<and> p_role caller = RESEARCHER"
proof (rule example_registers)
  assume wf: "wf_db (w_db example_after)"
  show ?thesis
  proof (rule example_signs_in [OF wf])
    fix access
    assume a: "run (login example_auth 0 example_email example_password) [] example_after = (Inr access, [], example_after)"
      and e: "at_expires_in_seconds access = 3600"
    have laws: "jwt_laws (au_jwt example_auth)" "JWT_ALGORITHM (au_settings example_auth) \<in> set ALLOWED_JWT_ALGORITHMS"
      "au_email_ok example_auth example_email \<noteq> None"
      using numbering_jwt_laws by (simp_all add: example_auth_def default_settings_def ALLOWED_JWT_ALGORITHMS_def)
    obtain r where r: "r \<in> set (db_users (w_db example_after))"
      and live: "\<forall>now' < (0 + at_expires_in_seconds access * 1000000) div 1000000 * 1000000.
        \<exists>caller. run (resolve_principal example_auth now' (at_token access)) [] example_after = (Inr caller, [], example_after)
          \<and> p_user_id caller = uuid_str (usr_id r) \<and> p_role caller = usr_role r"
      using issued_token_is_the_account [OF a wf laws] by blast
    have "usr_role r = RESEARCHER"
      using r by (auto simp: example_user_def newcomer_def new_user_row_def)
    moreover have "3599999999 < (0 + at_expires_in_seconds access * 1000000) div 1000000 * 1000000" by (simp add: e)
    ultimately show ?thesis using live by metis
  qed
qed

text \<open>
  C25. A sign-in that fails says nothing about why. An unknown address, an account without a
  password, a wrong password and a disabled account all end in the same \<open>AuthenticationError\<close>, and
  no sign-in, whatever fails, changes anything.
\<close>

theorem failed_sign_ins_are_alike:
  assumes "wf_db (w_db w)" and "bcrypt_laws (au_bcrypt au)"
    and "absent_password_hash (au_unicode au) (au_bcrypt au) rnd token = au_absent au" and "au_absent au = Inr absent"
    and "utf8_encode (u_nfkc (au_unicode au) password) = Some candidate"
    and "\<And>r. r \<in> set (db_users (w_db w)) \<Longrightarrow> usr_email r = email \<Longrightarrow> usr_is_active r \<Longrightarrow>
      verify_password (au_unicode au) (au_bcrypt au) (au_absent au) password (usr_password_hash r) \<noteq> Inr True"
  shows "fst (run (login au now email password) [] w) = Inl AuthenticationError
    \<and> (\<forall>cs result cs' w'. run (login au now email password) cs w = (result, cs', w') \<longrightarrow> w' = w)"
proof
  have total: "\<exists>m. verify_password (au_unicode au) (au_bcrypt au) (au_absent au) password stored = Inr m" for stored
    using verification_total [OF assms(2) _ assms(5)] assms(3,4) by metis
  show "fst (run (login au now email password) [] w) = Inl AuthenticationError"
  proof (cases "users_get_credentials_by_email email (w_db w)")
    case (Inl e)
    then show ?thesis
      using one_or_none_key [OF wf_db_keys(4) [OF assms(1)]] by (simp add: users_get_credentials_by_email_def)
  next
    case (Inr c)
    show ?thesis
    proof (cases c)
      case None
      with Inr total [of None] show ?thesis by (auto simp: login_def run_simps db_read_def)
    next
      case (Some cr)
      with credentials_found [OF assms(1)] Inr obtain r where "r \<in> set (db_users (w_db w))" "usr_email r = email" "cr = user_credentials r"
        by metis
      with Inr Some assms(6) total [of "usr_password_hash r"] show ?thesis
        by (auto simp: login_def run_simps db_read_def user_credentials_def Let_def)
    qed
  qed
  show "\<forall>cs result cs' w'. run (login au now email password) cs w = (result, cs', w') \<longrightarrow> w' = w"
    by (auto simp: login_def run_simps db_read_def Let_def split: sum.splits choice.splits prod.splits option.splits if_splits)
qed

theorem failed_sign_ins_are_alike_witness:
  "fst (run (login example_auth 0 (py_str ''x@y'') example_password) [] example_before) = Inl AuthenticationError"
proof -
  have "bcrypt_laws (au_bcrypt example_auth)" "au_absent example_auth = Inr example_digest"
    "absent_password_hash (au_unicode example_auth) (au_bcrypt example_auth) 0 example_password = au_absent example_auth"
    "utf8_encode (u_nfkc (au_unicode example_auth) example_password) = Some (map of_nat example_password)"
    using transparent_bcrypt_laws example_password_hash
    by (simp_all add: example_auth_def absent_password_hash_def) (simp add: password_example_simps)
  moreover have "\<not> (r \<in> set (db_users (w_db example_before)) \<and> usr_email r = py_str ''x@y'')" for r
    by (auto simp: staged_world_def staged_db_def example_user_def)
  ultimately show ?thesis
    using failed_sign_ins_are_alike [OF example_before_wf, of example_auth 0 example_password example_digest example_password
        "map of_nat example_password" "py_str ''x@y''" 0]
    by blast
qed

end
