(* ===== verification/Api.thy ===== *)
theory Api
  imports AuthService SearchService DocumentService Worker
begin

text \<open>
  The HTTP adapter, \<open>backend/api/\<close>: the routes with their guards and status codes, the shapes of
  requests and responses, the composition root of retrieval, and the handler that removes secrets
  from validation errors. A route is a coroutine that returns its status code and body or raises;
  \<open>HTTPException\<close> is a status code too, and whatever else a route raises is the server's 500.
\<close>

section \<open>Responses\<close>

record DocumentResponse =
  dr_id :: ustr
  dr_filename :: ustr
  dr_status :: DocumentStatus
  dr_metadata :: "(ustr \<times> json) list"

definition json_opt :: "('a \<Rightarrow> json) \<Rightarrow> 'a option \<Rightarrow> json" where
  "json_opt f x = (case x of None \<Rightarrow> JNull | Some a \<Rightarrow> f a)"

text \<open>\<open>DocumentMetadata.model_dump(mode="json")\<close>.\<close>

definition metadata_dump :: "DocumentMetadata \<Rightarrow> (ustr \<times> json) list" where
  "metadata_dump m =
     [(py_str ''title'', json_opt JStr (md_title m)), (py_str ''authors'', JList (map JStr (md_authors m))),
      (py_str ''year'', json_opt JInt (md_year m)), (py_str ''journal'', json_opt JStr (md_journal m)),
      (py_str ''doi'', json_opt JStr (md_doi m)), (py_str ''abstract'', json_opt JStr (md_abstract m)),
      (py_str ''keywords'', JList (map JStr (md_keywords m))), (py_str ''extra'', JDict (md_extra m))]"

definition to_response :: "Document \<Rightarrow> DocumentResponse" where
  "to_response document =
     \<lparr>dr_id = d_id document, dr_filename = d_filename document, dr_status = d_status document,
      dr_metadata = metadata_dump (d_metadata document)\<rparr>"

record SearchHit =
  sh_chunk_id :: ustr
  sh_document_id :: ustr
  sh_score :: rat
  sh_content :: ustr
  sh_chunk_index :: int
  sh_section :: "ustr option"
  sh_page_start :: int
  sh_page_end :: int
  sh_embedding_model_id :: ustr

definition search_hit_of :: "RetrievalResult \<Rightarrow> SearchHit" where
  "search_hit_of r =
     \<lparr>sh_chunk_id = rr_chunk_id r, sh_document_id = rr_document_id r, sh_score = rr_score r,
      sh_content = rr_content r, sh_chunk_index = rr_chunk_index r, sh_section = rr_section r,
      sh_page_start = rr_page_start r, sh_page_end = rr_page_end r,
      sh_embedding_model_id = rr_embedding_model_id r\<rparr>"

record DocumentListResponse =
  dl_documents :: "DocumentResponse list"
  dl_total :: nat

record SearchResponse =
  sr_results :: "SearchHit list"
  sr_total :: nat

record RegisterResponse =
  rp_id :: ustr
  rp_email :: ustr
  rp_full_name :: ustr
  rp_role :: UserRole
  rp_is_active :: bool
  rp_created_at :: timestamp

record LoginResponse =
  lp_access_token :: ustr
  lp_token_type :: ustr
  lp_expires_in :: int

section \<open>Requests\<close>

text \<open>What Pydantic makes of a body: the validated model, or nothing, which is FastAPI's 422.\<close>

record SearchRequest =
  sq_query :: ustr
  sq_top_k :: "int option"
  sq_score_threshold :: "rat option"
  sq_document_ids :: "ustr list option"

definition search_request_ok :: "SearchRequest \<Rightarrow> bool" where
  "search_request_ok b \<longleftrightarrow> (case sq_top_k b of None \<Rightarrow> True | Some k \<Rightarrow> 0 < k)
     \<and> (case sq_score_threshold b of None \<Rightarrow> True | Some t \<Rightarrow> 0 \<le> t \<and> t \<le> 1)"

record RegisterRequest =
  rg_email :: ustr
  rg_password :: ustr
  rg_full_name :: ustr

record LoginRequest =
  lg_email :: ustr
  lg_password :: ustr

definition mk_register_request :: "auth \<Rightarrow> ustr \<Rightarrow> ustr \<Rightarrow> ustr \<Rightarrow> (exn, RegisterRequest) result" where
  "mk_register_request au email password full_name =
     (case au_email_ok au email of
        None \<Rightarrow> Inl ValueError
      | Some e \<Rightarrow> bind_result (validate_password (au_unicode au) password) (\<lambda>p.
          Inr \<lparr>rg_email = e, rg_password = p, rg_full_name = full_name\<rparr>))"

definition mk_login_request :: "auth \<Rightarrow> ustr \<Rightarrow> ustr \<Rightarrow> (exn, LoginRequest) result" where
  "mk_login_request au email password =
     (case au_email_ok au email of None \<Rightarrow> Inl ValueError | Some e \<Rightarrow> Inr \<lparr>lg_email = e, lg_password = password\<rparr>)"

section \<open>Documents\<close>

definition rejection_status :: "RejectionReason \<Rightarrow> int" where
  "rejection_status r = (if r = RejectionReason.TOO_LARGE then 413
     else if r = RejectionReason.UNSUPPORTED_TYPE then 415 else 422)"

definition upload_error :: "exn \<Rightarrow> exn" where
  "upload_error e =
     (case e of
        UploadRejected r \<Rightarrow> HTTPException (rejection_status r)
      | IngestionUnavailable \<Rightarrow> HTTPException 503
      | UploadPersistenceFailed \<Rightarrow> HTTPException 500
      | _ \<Rightarrow> if is_StorageError e then HTTPException 503 else e)"

definition upload_route ::
  "('q, 'r) service \<Rightarrow> uploads \<Rightarrow> auth \<Rightarrow> timestamp \<Rightarrow> ustr option \<Rightarrow> uuid \<Rightarrow> ustr option \<Rightarrow> bytes
   \<Rightarrow> (('q, 'r) world, int \<times> DocumentResponse) prog" where
  "upload_route sv ul au now credentials new_id filename stream =
     bindP (require_permission au now DOCUMENT_WRITE credentials) (\<lambda>caller.
     tryP (upload_and_process sv ul new_id filename stream caller) (\<lambda>e. Raise (upload_error e)) (\<lambda>outcome.
       Return (if \<not> up_created outcome then 200 else 202, to_response (up_document outcome))))"

definition list_route ::
  "('q, 'r) service \<Rightarrow> auth \<Rightarrow> timestamp \<Rightarrow> ustr option \<Rightarrow> (('q, 'r) world, int \<times> DocumentListResponse) prog" where
  "list_route sv au now credentials =
     bindP (require_permission au now DOCUMENT_READ credentials) (\<lambda>caller.
     bindP (list_user_documents sv caller) (\<lambda>documents.
       Return (200, \<lparr>dl_documents = map to_response documents, dl_total = length documents\<rparr>)))"

definition get_route ::
  "('q, 'r) service \<Rightarrow> auth \<Rightarrow> timestamp \<Rightarrow> ustr option \<Rightarrow> ustr \<Rightarrow> (('q, 'r) world, int \<times> DocumentResponse) prog" where
  "get_route sv au now credentials document_id =
     bindP (require_permission au now DOCUMENT_READ credentials) (\<lambda>caller.
     bindP (get_document sv document_id caller) (\<lambda>document.
       case document of None \<Rightarrow> Raise (HTTPException 404) | Some d \<Rightarrow> Return (200, to_response d)))"

definition delete_route ::
  "('q, 'r) service \<Rightarrow> auth \<Rightarrow> timestamp \<Rightarrow> ustr option \<Rightarrow> ustr \<Rightarrow> (('q, 'r) world, int \<times> unit) prog" where
  "delete_route sv au now credentials document_id =
     bindP (require_permission au now DOCUMENT_WRITE credentials) (\<lambda>caller.
     bindP (delete_document sv document_id caller) (\<lambda>deleted.
       if \<not> deleted then Raise (HTTPException 404) else Return (204, ())))"

section \<open>Search\<close>

text \<open>What an API process holds: the model, and where the vectors are.\<close>

record 'q retrieval_resources =
  rv_embedder :: provider
  rv_qdrant :: "'q qdrant"

definition build_retrieval_resources :: "'q outside \<Rightarrow> Settings \<Rightarrow> (exn, 'q retrieval_resources) result" where
  "build_retrieval_resources out s =
     (case mk_provider (out_load out) (out_declared out) (EMBEDDING_MODEL s) (EMBEDDING_BATCH_SIZE s) of
        Inr p \<Rightarrow> Inr \<lparr>rv_embedder = p, rv_qdrant = out_qdrant out\<rparr>
      | Inl e \<Rightarrow> if e = EmbeddingError then Inl RuntimeError else Inl e)"

definition get_search_service :: "unicode \<Rightarrow> Settings \<Rightarrow> 'q retrieval_resources \<Rightarrow> 'q searcher" where
  "get_search_service U s rv =
     \<lparr>se_unicode = U, se_embed_query = embed_query (rv_embedder rv), se_count = tk_count (pr_tokenizer (rv_embedder rv)),
      se_model_id = pr_model_id (rv_embedder rv), se_dimension = pr_dimension (rv_embedder rv),
      se_max_input_tokens = pr_max_input_tokens (rv_embedder rv), se_qdrant = rv_qdrant rv,
      se_top_k = RETRIEVAL_TOP_K s, se_score_threshold = RETRIEVAL_SCORE_THRESHOLD s,
      se_max_query_chars = RETRIEVAL_MAX_QUERY_CHARS s\<rparr>"

definition search_error :: "exn \<Rightarrow> exn" where
  "search_error e = (if e = InvalidSearchQuery then HTTPException 400
     else if e = SearchUnavailable then HTTPException 503 else e)"

definition search_route ::
  "'q searcher \<Rightarrow> auth \<Rightarrow> timestamp \<Rightarrow> ustr option \<Rightarrow> SearchRequest \<Rightarrow> (('q, 'r) world, int \<times> SearchResponse) prog" where
  "search_route se au now credentials body =
     bindP (require_permission au now SEARCH_QUERY credentials) (\<lambda>caller.
       if \<not> search_request_ok body then Raise (HTTPException 422)
       else bindP (of_result (mk_retrieval_query (sq_query body) (sq_top_k body) (sq_score_threshold body) (sq_document_ids body)))
         (\<lambda>q. tryP (search se q caller) (\<lambda>e. Raise (search_error e)) (\<lambda>results.
           let hits = map search_hit_of results in Return (200, \<lparr>sr_results = hits, sr_total = length hits\<rparr>))))"

section \<open>Accounts\<close>

definition register_route ::
  "auth \<Rightarrow> nat \<Rightarrow> uuid \<Rightarrow> RegisterRequest \<Rightarrow> (('q, 'r) world, int \<times> RegisterResponse) prog" where
  "register_route au rnd new_id body =
     tryP (register au rnd new_id (rg_email body) (rg_full_name body) (rg_password body))
       (\<lambda>e. if e = EmailAlreadyRegistered then Raise (HTTPException 409) else Raise e)
       (\<lambda>u. Return (201, \<lparr>rp_id = u_id u, rp_email = u_email u, rp_full_name = u_full_name u, rp_role = u_role u,
              rp_is_active = u_is_active u, rp_created_at = u_created_at u\<rparr>))"

definition login_route :: "auth \<Rightarrow> timestamp \<Rightarrow> LoginRequest \<Rightarrow> (('q, 'r) world, int \<times> LoginResponse) prog" where
  "login_route au now body =
     tryP (login au now (lg_email body) (lg_password body))
       (\<lambda>e. if e = AuthenticationError then Raise unauthenticated else Raise e)
       (\<lambda>issued. Return (200, \<lparr>lp_access_token = at_token issued, lp_token_type = py_str ''bearer'',
              lp_expires_in = at_expires_in_seconds issued\<rparr>))"

section \<open>Routes that are not there yet\<close>

definition not_implemented :: exn where "not_implemented = HTTPException 501"

definition unbuilt_route :: "Permission \<Rightarrow> auth \<Rightarrow> timestamp \<Rightarrow> ustr option \<Rightarrow> (('q, 'r) world, int \<times> unit) prog" where
  "unbuilt_route permission au now credentials =
     bindP (require_permission au now permission credentials) (\<lambda>_. Raise not_implemented)"

definition run_agent where "run_agent = unbuilt_route AGENT_RUN"
definition get_agent_status where "get_agent_status = unbuilt_route AGENT_RUN"
definition list_sessions where "list_sessions = unbuilt_route WORKSPACE_READ"
definition create_session where "create_session = unbuilt_route WORKSPACE_WRITE"

section \<open>What the client sees\<close>

definition http_status :: "(exn, int \<times> 'a) result \<Rightarrow> int" where
  "http_status r = (case r of Inr (code, body) \<Rightarrow> code | Inl (HTTPException code) \<Rightarrow> code | Inl _ \<Rightarrow> 500)"

section \<open>Validation errors without secrets\<close>

datatype loc_part = LocStr ustr | LocInt int

record validation_error =
  ve_type :: ustr
  ve_loc :: "loc_part list option"
  ve_msg :: ustr
  ve_input :: json

definition SENSITIVE_FIELD_FRAGMENTS :: "ustr list" where
  "SENSITIVE_FIELD_FRAGMENTS = map py_str [''password'', ''secret'', ''token'']"

fun contains_str :: "ustr \<Rightarrow> ustr \<Rightarrow> bool" where
  "contains_str fragment [] = (fragment = [])"
| "contains_str fragment (c # s) = (starts_with fragment (c # s) \<or> contains_str fragment s)"

text \<open>The text of a number is a sign and digits, so it contains no fragment.\<close>

definition is_sensitive :: "unicode \<Rightarrow> loc_part list option \<Rightarrow> bool" where
  "is_sensitive U location =
     list_ex (\<lambda>part. case part of
        LocStr s \<Rightarrow> list_ex (\<lambda>fragment. contains_str fragment (u_lower U s)) SENSITIVE_FIELD_FRAGMENTS
      | LocInt n \<Rightarrow> False) (case location of None \<Rightarrow> [] | Some parts \<Rightarrow> parts)"

definition validation_error_without_secrets :: "unicode \<Rightarrow> validation_error list \<Rightarrow> int \<times> validation_error list" where
  "validation_error_without_secrets U errors =
     (422, map (\<lambda>e. if is_sensitive U (ve_loc e) then e\<lparr>ve_input := JStr (py_str ''<redacted>'')\<rparr> else e) errors)"

section \<open>Guarded routes\<close>

text \<open>A route that did anything passed its guard first.\<close>

lemma guarded_route:
  assumes "run (bindP (require_permission au now permission credentials) k) cs w = (result, cs', w')" and "wf_db (w_db w)"
    and "w' \<noteq> w \<or> (\<exists>a. result = Inr a)"
  obtains caller cs1 where "run (require_permission au now permission credentials) cs w = (Inr caller, cs1, w)"
    "run (k caller) cs1 w = (result, cs', w')"
proof -
  have quiet: "run (require_permission au now permission credentials) cs w = (x, cs1, w1) \<Longrightarrow> w1 = w" for x cs1 w1
    by (auto simp: require_permission_def get_current_user_def resolve_principal_def run_simps db_read_def forbidden_def
        unauthenticated_def split: option.splits sum.splits choice.splits prod.splits if_splits)
  from assms(1,3) obtain caller cs1 w1 where g: "run (require_permission au now permission credentials) cs w = (Inr caller, cs1, w1)"
    and k: "run (k caller) cs1 w1 = (result, cs', w')"
    by (auto simp: run_bindP dest: quiet split: sum.splits prod.splits)
  from quiet [OF g] g k that show ?thesis by simp
qed

lemma guard_passed:
  assumes "run (require_permission au now permission credentials) cs w = (Inr caller, cs', w')" and "wf_db (w_db w)"
  obtains r where "r \<in> set (db_users (w_db w))" "usr_is_active r" "p_user_id caller = uuid_str (usr_id r)"
    "permission \<in> set (PERMISSIONS (usr_role r))"
proof -
  from assms(1) have g: "run (get_current_user au now credentials) cs w = (Inr caller, cs', w')"
    and p: "permission \<in> set (PERMISSIONS (p_role caller))"
    by (auto simp: require_permission_def run_bindP has_permission_def forbidden_def split: sum.splits prod.splits if_splits)
  obtain token where "run (resolve_principal au now token) cs w = (Inr caller, cs', w')" by (rule current_user [OF g])
  then show ?thesis by (rule resolved_principal [OF _ assms(2)]) (use p that in auto)
qed

lemma run_guard:
  assumes "verify_token (au_jwt au) (au_settings au) now token = Inr td" and "wf_db (w_db w)"
    and "r \<in> set (db_users (w_db w))" and "parse_text (au_unicode au) (td_user_id td) = Some (usr_id r)"
    and "user_to_domain (au_email_ok au) r = Inr u" and "usr_is_active r" and "permission \<in> set (PERMISSIONS (usr_role r))"
  shows "run (require_permission au now permission (Some token)) [] w =
    (Inr \<lparr>p_user_id = uuid_str (usr_id r), p_email = u_email u, p_role = usr_role r\<rparr>, [], w)"
  using run_resolve_principal [OF assms(1-5)] assms(6,7)
  by (simp add: require_permission_def get_current_user_def run_simps has_permission_def)

section \<open>Documents that are not there\<close>

lemma get_for_user_none:
  assumes "wf_db db" and "\<And>x. x \<in> set (db_documents db) \<Longrightarrow> parse_text U d = Some (doc_id x) \<Longrightarrow>
      parse_text U user = Some (doc_user_id x) \<Longrightarrow> \<not> is_live x"
  shows "documents_get_for_user U d user db = Inr None"
proof (cases rule: scoped_cases [of U d user])
  case malformed
  then show ?thesis by (simp add: documents_get_for_user_def scoped_none)
next
  case (parsed t ow)
  then have "select_where (owned_live t ow) (db_documents db) = []"
    using assms(2) by (auto simp: select_where_def filter_empty_conv owned_live_def)
  with parsed show ?thesis by (simp add: documents_get_for_user_def scoped_eq)
qed

lemma soft_delete_none:
  assumes "wf_db db" and "\<And>x. x \<in> set (db_documents db) \<Longrightarrow> parse_text U d = Some (doc_id x) \<Longrightarrow>
      parse_text U user = Some (doc_user_id x) \<Longrightarrow> \<not> is_live x"
  shows "documents_soft_delete_for_user U d user db = Inr (False, db)"
proof (cases rule: scoped_cases [of U d user])
  case malformed
  then show ?thesis by (simp add: documents_soft_delete_for_user_def scoped_none)
next
  case (parsed t ow)
  then have none: "\<forall>x \<in> set (db_documents db). \<not> owned_live t ow x"
    using assms(2) by (auto simp: owned_live_def)
  moreover have "documents_error (db_users db) (db_documents db) = None" using assms(1) by (simp add: wf_db_def)
  ultimately show ?thesis
    using parsed by (simp add: documents_soft_delete_for_user_def scoped_eq update_where_none write_documents_def rowcount_def filter_empty_conv)
qed

text \<open>After a deletion that matched, no live row has the id.\<close>

lemma soft_delete_live:
  assumes "documents_soft_delete_for_user U d user db = Inr (True, db')" and "wf_db db"
  obtains t ow x where "parse_text U d = Some t" "parse_text U user = Some ow" "x \<in> set (db_documents db)" "owned_live t ow x"
    "\<forall>y \<in> set (db_documents db'). doc_id y = t \<longrightarrow> \<not> is_live y" "wf_db db'"
proof (cases rule: scoped_cases [of U d user])
  case malformed
  with assms(1) show ?thesis by (auto simp: documents_soft_delete_for_user_def scoped_none)
next
  case (parsed t ow)
  let ?f = "\<lambda>r. r\<lparr>doc_deleted_at := Some (db_now db), doc_updated_at := db_now db\<rparr>"
  have db': "db' = db\<lparr>db_documents := update_where (owned_live t ow) ?f (db_documents db)\<rparr>"
    and "\<exists>x \<in> set (db_documents db). owned_live t ow x"
    using assms(1) parsed by (auto simp: documents_soft_delete_for_user_def scoped_eq)
  then obtain x where x: "x \<in> set (db_documents db)" "owned_live t ow x" by blast
  have "\<not> is_live y" if "y \<in> set (db_documents db')" "doc_id y = t" for y
  proof -
    from that(1) have "y \<in> set (update_where (owned_live t ow) ?f (db_documents db))" by (simp add: db')
    then show ?thesis
    proof (cases rule: in_update_whereE)
      case same
      with that(2) x wf_db_document_eq [OF assms(2), of y x] show ?thesis by (auto simp: owned_live_def)
    qed (simp add: is_live_def)
  qed
  with that parsed x soft_delete_views [OF assms(1,2)] show ?thesis by blast
qed

section \<open>An example\<close>

text \<open>The owner of the one document of the example database, and somebody who only views.\<close>

lemma example_service_unicode [simp]: "sv_unicode example_service = ascii_unicode"
  by (simp add: example_service_def)

lemma example_documents [simp]: "db_documents (w_db (staged_world st)) = [example_row st 1]"
  by (simp add: staged_world_def staged_db_def)

lemma example_caller:
  obtains token td u where "verify_token (au_jwt example_auth) (au_settings example_auth) 5 token = Inr td"
    "example_user \<in> set (db_users (w_db (staged_world st)))"
    "parse_text (au_unicode example_auth) (td_user_id td) = Some (usr_id example_user)"
    "user_to_domain (au_email_ok example_auth) example_user = Inr u" "usr_is_active example_user"
proof (rule example_token)
  fix token td
  assume v: "verify_token (au_jwt example_auth) (au_settings example_auth) 5 token = Inr td"
    and p: "parse_text (au_unicode example_auth) (td_user_id td) = Some (usr_id example_user)"
  obtain u where u: "user_to_domain (au_email_ok example_auth) example_user = Inr u"
    by (simp add: user_to_domain_def example_auth_def)
  show ?thesis
    by (rule that [OF v _ p u]) (simp_all add: staged_world_def staged_db_def example_user_def)
qed

lemma example_deletion:
  obtains token w where
    "run (delete_route example_service example_auth 5 (Some token) (uuid_str 2)) [] example_before = (Inr (204, ()), [], w)"
    "w \<noteq> example_before"
proof (rule example_caller)
  fix token td u
  assume c: "verify_token (au_jwt example_auth) (au_settings example_auth) 5 token = Inr td"
    "example_user \<in> set (db_users (w_db example_before))"
    "parse_text (au_unicode example_auth) (td_user_id td) = Some (usr_id example_user)"
    "user_to_domain (au_email_ok example_auth) example_user = Inr u" "usr_is_active example_user"
  have owned: "owned_live 2 1 (example_row DocumentStatus.READY 1)"
    by (simp add: owned_live_def example_row_def is_live_def)
  have writer: "DOCUMENT_WRITE \<in> set (PERMISSIONS (usr_role example_user))" and owner: "usr_id example_user = 1"
    by (simp_all add: example_user_def)
  let ?f = "\<lambda>r. r\<lparr>doc_deleted_at := Some (db_now (w_db example_before)), doc_updated_at := db_now (w_db example_before)\<rparr>"
  let ?rows = "update_where (owned_live 2 1) ?f (db_documents (w_db example_before))"
  have ok: "documents_error (db_users (w_db example_before)) (db_documents (w_db example_before)) = None"
    using example_before_wf by (simp add: wf_db_def)
  have "documents_error (db_users (w_db example_before)) ?rows = None"
    by (rule documents_error_update [OF ok])
      (use ok in \<open>simp add: documents_error_None row_kept_def is_live_def document_fits_def reason_iff_failed_def\<close>)
  then obtain db' where del: "documents_soft_delete_for_user ascii_unicode (uuid_str 2) (uuid_str 1) (w_db example_before) = Inr (True, db')"
    and db': "db' = w_db example_before\<lparr>db_documents := ?rows\<rparr>"
    using owned by (simp add: documents_soft_delete_for_user_def)
  have "db_documents db' \<noteq> db_documents (w_db example_before)"
    using owned by (simp add: db' update_where_def) (simp add: example_row_def)
  then have "example_before\<lparr>w_db := db'\<rparr> \<noteq> example_before" by (metis world.select_convs(1) world.surjective world.update_convs(1))
  moreover have "run (delete_route example_service example_auth 5 (Some token) (uuid_str 2)) [] example_before
      = (Inr (204, ()), [], example_before\<lparr>w_db := db'\<rparr>)"
    using run_guard [OF c(1) example_before_wf c(2-5) writer] owner del
    by (simp add: delete_route_def delete_document_def soft_delete_def run_simps run_db_tx)
  ultimately show ?thesis using that by blast
qed

section \<open>Properties\<close>

lemma writer_passed:
  assumes "run (bindP (require_permission au now DOCUMENT_WRITE credentials) k) cs w = (result, cs', w')"
    and "wf_db (w_db w)" and "w' \<noteq> w"
  shows "\<exists>caller cs1. run (require_permission au now DOCUMENT_WRITE credentials) cs w = (Inr caller, cs1, w)
    \<and> (\<exists>r \<in> set (db_users (w_db w)). usr_is_active r \<and> usr_role r \<noteq> VIEWER \<and> p_user_id caller = uuid_str (usr_id r))"
proof -
  from guarded_route [OF assms(1,2)] assms(3) obtain caller cs1 where
    g: "run (require_permission au now DOCUMENT_WRITE credentials) cs w = (Inr caller, cs1, w)" by blast
  obtain r where "r \<in> set (db_users (w_db w))" "usr_is_active r" "p_user_id caller = uuid_str (usr_id r)"
    "DOCUMENT_WRITE \<in> set (PERMISSIONS (usr_role r))"
    by (rule guard_passed [OF g assms(2)])
  with g show ?thesis by (cases "usr_role r") auto
qed

text \<open>
  Only those who may write, write. If an upload, a deletion or any other guarded route changed
  anything at all, the caller presented a token that verifies, of a user who is active in the database
  at that moment and whose role there is administrator or researcher.
\<close>

theorem only_writers_write:
  assumes "wf_db (w_db w)" and "w' \<noteq> w"
    and "run (upload_route sv ul au now credentials new_id filename stream) cs w = (uploaded, cs', w')
      \<or> run (delete_route sv au now credentials document_id) cs w = (deleted, cs', w')"
  shows "\<exists>caller cs1. run (require_permission au now DOCUMENT_WRITE credentials) cs w = (Inr caller, cs1, w)
    \<and> (\<exists>r \<in> set (db_users (w_db w)). usr_is_active r \<and> usr_role r \<noteq> VIEWER \<and> p_user_id caller = uuid_str (usr_id r))"
  using assms(3) unfolding upload_route_def delete_route_def by (elim disjE) (erule writer_passed [OF _ assms(1,2)])+

theorem only_writers_write_witness:
  "\<exists>token caller cs1. run (require_permission example_auth 5 DOCUMENT_WRITE (Some token)) [] example_before = (Inr caller, cs1, example_before)"
proof (rule example_deletion)
  fix token and w :: "(ustr \<Rightarrow> (vector \<times> mapping) option, IngestionJob list) world"
  assume "run (delete_route example_service example_auth 5 (Some token) (uuid_str 2)) [] example_before = (Inr (204, ()), [], w)"
    and "w \<noteq> example_before"
  with only_writers_write [OF example_before_wf, of w example_service _ example_auth 5 "Some token"] show ?thesis by metis
qed

text \<open>
  C28. A document that is not yours does not exist. For a caller who may read, or write, the answer
  for a document of another user, for a deleted one, for an id nobody has and for text that is no id
  is the same 404, and nothing changes; so the answers cannot be used to find out what exists.
\<close>

theorem foreign_documents_do_not_exist:
  assumes "wf_db (w_db w)" and "verify_token (au_jwt au) (au_settings au) now token = Inr td"
    and "r \<in> set (db_users (w_db w))" and "parse_text (au_unicode au) (td_user_id td) = Some (usr_id r)"
    and "user_to_domain (au_email_ok au) r = Inr u" and "usr_is_active r"
    and "\<forall>x \<in> set (db_documents (w_db w)). parse_text (sv_unicode sv) d = Some (doc_id x) \<longrightarrow>
      doc_user_id x \<noteq> usr_id r \<or> \<not> is_live x"
  shows "run (get_route sv au now (Some token) d) [] w = (Inl (HTTPException 404), [], w)
    \<and> (usr_role r \<noteq> VIEWER \<longrightarrow> run (delete_route sv au now (Some token) d) [] w = (Inl (HTTPException 404), [], w))"
proof
  have reads: "DOCUMENT_READ \<in> set (PERMISSIONS (usr_role r))"
    by (cases "usr_role r") (simp_all add: all_permissions_def)
  have writes: "DOCUMENT_WRITE \<in> set (PERMISSIONS (usr_role r))" if "usr_role r \<noteq> VIEWER"
    using that by (cases "usr_role r") (simp_all add: all_permissions_def)
  have "documents_get_for_user (sv_unicode sv) d (uuid_str (usr_id r)) (w_db w) = Inr None"
    by (rule get_for_user_none [OF assms(1)]) (use assms(7) in auto)
  with run_guard [OF assms(2,1,3-6) reads]
  show "run (get_route sv au now (Some token) d) [] w = (Inl (HTTPException 404), [], w)"
    by (simp add: get_route_def get_document_def run_simps db_read_def)
  have "documents_soft_delete_for_user (sv_unicode sv) d (uuid_str (usr_id r)) (w_db w) = Inr (False, w_db w)"
    by (rule soft_delete_none [OF assms(1)]) (use assms(7) in auto)
  with run_guard [OF assms(2,1,3-6) writes]
  show "usr_role r \<noteq> VIEWER \<longrightarrow> run (delete_route sv au now (Some token) d) [] w = (Inl (HTTPException 404), [], w)"
    by (simp add: delete_route_def delete_document_def soft_delete_def run_simps run_db_tx)
qed

theorem foreign_documents_do_not_exist_witness:
  "\<exists>token. run (get_route example_service example_auth 5 (Some token) (uuid_str 3)) [] example_before = (Inl (HTTPException 404), [], example_before)"
proof (rule example_caller)
  fix token td u
  assume c: "verify_token (au_jwt example_auth) (au_settings example_auth) 5 token = Inr td"
    "example_user \<in> set (db_users (w_db example_before))"
    "parse_text (au_unicode example_auth) (td_user_id td) = Some (usr_id example_user)"
    "user_to_domain (au_email_ok example_auth) example_user = Inr u" "usr_is_active example_user"
  have "\<forall>x \<in> set (db_documents (w_db example_before)). parse_text (sv_unicode example_service) (uuid_str 3) = Some (doc_id x) \<longrightarrow>
      doc_user_id x \<noteq> usr_id example_user \<or> \<not> is_live x"
    by (simp add: example_row_def)
  from foreign_documents_do_not_exist [OF example_before_wf c this] show ?thesis by blast
qed

text \<open>
  C29. Deleted means gone. Once a deletion was answered with 204, nobody reads that document or finds
  it in a list, and no search, whatever the vector store still holds, returns a chunk of it.
\<close>

theorem deleted_means_gone:
  assumes "run (delete_route sv au now credentials d) cs w = (Inr (204, ()), cs', w')" and "wf_db (w_db w)"
  shows "\<exists>t. parse_text (sv_unicode sv) d = Some t
    \<and> (\<forall>d' user. parse_text (sv_unicode sv) d' = Some t \<longrightarrow>
         documents_get_for_user (sv_unicode sv) d' user (w_db w') = Inr None)
    \<and> (\<forall>user. \<forall>x \<in> set (documents_list_for_user (sv_unicode sv) user (w_db w')). d_id x \<noteq> uuid_str t)
    \<and> (\<forall>se q caller cs2 results cs3 w2. run (search se q caller) cs2 w' = (Inr results, cs3, w2) \<longrightarrow>
         (\<forall>hit \<in> set results. rr_document_id hit \<noteq> uuid_str t))"
proof -
  obtain caller cs1 where k: "run (bindP (delete_document sv d caller)
      (\<lambda>deleted. if \<not> deleted then Raise (HTTPException 404) else Return (204 :: int, ()))) cs1 w = (Inr (204, ()), cs', w')"
    by (rule guarded_route [OF assms(1) [unfolded delete_route_def] assms(2)]) auto
  then obtain db' where del: "documents_soft_delete_for_user (sv_unicode sv) d (p_user_id caller) (w_db w) = Inr (True, db')"
    and w': "w_db w' = db'"
    by (auto simp: delete_document_def soft_delete_def db_tx_def run_simps split: sum.splits choice.splits prod.splits if_splits)
  obtain t ow where t: "parse_text (sv_unicode sv) d = Some t"
    and dead: "\<forall>y \<in> set (db_documents db'). doc_id y = t \<longrightarrow> \<not> is_live y" and wf: "wf_db db'"
    by (rule soft_delete_live [OF del assms(2)])
  have "documents_get_for_user (sv_unicode sv) d' user (w_db w') = Inr None"
    if "parse_text (sv_unicode sv) d' = Some t" for d' user
    by (rule get_for_user_none) (use wf dead that w' in auto)
  moreover have "d_id x \<noteq> uuid_str t" if "x \<in> set (documents_list_for_user (sv_unicode sv) user (w_db w'))" for user x
    using that dead w' by (auto simp: documents_list_for_user_def document_to_domain_def split: option.splits)
  moreover have "rr_document_id hit \<noteq> uuid_str t"
    if s: "run (search se q caller) cs2 w' = (Inr results, cs3, w2)" and hit: "hit \<in> set results"
    for se q caller cs2 results cs3 w2 and hit :: RetrievalResult
  proof (rule search_returned [OF s])
    fix ranked_in v ms
    assume "results = search_results (validated_chunks se caller (rank_candidates ms) (w_db w')) (rank_candidates ms)"
    with hit have "hit \<in> set (search_results (validated_chunks se caller (rank_candidates ms) (w_db w')) (rank_candidates ms))"
      by simp
    then show ?thesis
      by (rule search_result_chunk)
        (use dead w' in \<open>auto simp: owned_live_def retrieval_result_of_def validated_chunk_def\<close>,
          metis RetrievalResult.select_convs(2) uuid_str_inject)
  qed
  ultimately show ?thesis using t by blast
qed

theorem deleted_means_gone_witness:
  "\<exists>w. documents_get_for_user ascii_unicode (uuid_str 2) (uuid_str 1) (w_db w) = Inr None \<and> w \<noteq> example_before"
proof (rule example_deletion)
  fix token and w :: "(ustr \<Rightarrow> (vector \<times> mapping) option, IngestionJob list) world"
  assume "run (delete_route example_service example_auth 5 (Some token) (uuid_str 2)) [] example_before = (Inr (204, ()), [], w)"
    and "w \<noteq> example_before"
  with deleted_means_gone [OF _ example_before_wf, of example_service example_auth 5 "Some token" "uuid_str 2" "[]" "[]" w]
  show ?thesis by (intro exI [of _ w]) simp
qed

text \<open>
  A value is removed from a validation error exactly when the name of a field it is about speaks
  of a password, a secret or a token, however it is capitalised; nothing else of the error changes.
  That is not enough to keep a password out of the answer: an error about a missing field reports the
  whole body, and its location names only the field that is missing.
\<close>

theorem redaction_follows_the_location:
  "map (\<lambda>e. (ve_type e, ve_loc e, ve_msg e)) (snd (validation_error_without_secrets U errors))
     = map (\<lambda>e. (ve_type e, ve_loc e, ve_msg e)) errors
   \<and> map ve_input (snd (validation_error_without_secrets U errors))
     = map (\<lambda>e. if \<exists>parts s fragment. ve_loc e = Some parts \<and> LocStr s \<in> set parts \<and> fragment \<in> set SENSITIVE_FIELD_FRAGMENTS
            \<and> contains_str fragment (u_lower U s) then JStr (py_str ''<redacted>'') else ve_input e) errors
   \<and> (let body = JDict [(py_str ''email'', JStr (py_str ''a@b'')), (py_str ''password'', JStr secret)] in
      ve_input (hd (snd (validation_error_without_secrets ascii_unicode
        [\<lparr>ve_type = py_str ''missing'', ve_loc = Some [LocStr (py_str ''body''), LocStr (py_str ''full_name'')],
          ve_msg = py_str ''Field required'', ve_input = body\<rparr>]))) = body)"
proof (intro conjI)
  have sensitive: "is_sensitive U (ve_loc e) \<longleftrightarrow> (\<exists>parts s fragment. ve_loc e = Some parts \<and> LocStr s \<in> set parts
      \<and> fragment \<in> set SENSITIVE_FIELD_FRAGMENTS \<and> contains_str fragment (u_lower U s))" for e
  proof (cases "ve_loc e")
    case (Some parts)
    have "(case part of LocStr s \<Rightarrow> list_ex (\<lambda>fragment. contains_str fragment (u_lower U s)) SENSITIVE_FIELD_FRAGMENTS | LocInt n \<Rightarrow> False)
        \<longleftrightarrow> (\<exists>s fragment. part = LocStr s \<and> fragment \<in> set SENSITIVE_FIELD_FRAGMENTS \<and> contains_str fragment (u_lower U s))" for part
      by (auto simp: list_ex_iff split: loc_part.splits)
    with Some show ?thesis by (simp add: is_sensitive_def list_ex_iff [of _ parts]) blast
  qed (simp add: is_sensitive_def)
  show "map ve_input (snd (validation_error_without_secrets U errors))
     = map (\<lambda>e. if \<exists>parts s fragment. ve_loc e = Some parts \<and> LocStr s \<in> set parts \<and> fragment \<in> set SENSITIVE_FIELD_FRAGMENTS
            \<and> contains_str fragment (u_lower U s) then JStr (py_str ''<redacted>'') else ve_input e) errors"
    by (auto simp: validation_error_without_secrets_def sensitive)
qed (simp_all add: validation_error_without_secrets_def is_sensitive_def SENSITIVE_FIELD_FRAGMENTS_def starts_with_def
    ascii_unicode_def Let_def)

text \<open>
  C30. The API searches what the worker embeds. An API process and a worker that started from the
  same settings embed with the same model at the same width, so that no chunk is refused at retrieval
  for having been embedded by another; every embedded query has the width of the collection, and
  embedding one fails only with the error that search answers with 503.
\<close>

theorem api_searches_what_the_worker_embeds:
  assumes "build_retrieval_resources out s = Inr rv" and "startup out s store = (Inr wk, store')"
  shows "se_model_id (get_search_service U s rv) = pr_model_id (wk_embedder wk)
    \<and> se_dimension (get_search_service U s rv) = pr_dimension (wk_embedder wk)
    \<and> se_qdrant (get_search_service U s rv) = wk_qdrant wk
    \<and> (case se_embed_query (get_search_service U s rv) t of
         Inr v \<Rightarrow> int (length v) = pr_dimension (wk_embedder wk)
       | Inl e \<Rightarrow> e = EmbeddingError)"
proof -
  have "rv_embedder rv = wk_embedder wk" "rv_qdrant rv = wk_qdrant wk"
    using assms by (auto simp: build_retrieval_resources_def startup_def split: sum.splits prod.splits if_splits)
  then show ?thesis
    using fastembed.query_result fastembed.query_error by (auto simp: get_search_service_def split: sum.split)
qed

theorem api_searches_what_the_worker_embeds_witness:
  "\<exists>rv wk. build_retrieval_resources example_outside default_settings = Inr rv
    \<and> se_dimension (get_search_service ascii_unicode default_settings rv) = pr_dimension (wk_embedder (wk :: (ustr \<Rightarrow> (vector \<times> mapping) option) worker))"
proof -
  obtain wk where wk: "startup example_outside default_settings Map.empty = (Inr wk, Map.empty)"
    by (simp add: startup_def example_outside_def default_settings_def mk_extractor_def mk_provider_def run_model_def
        refuse_chunks_the_model_cannot_read_def SPECIAL_TOKENS_PER_SEQUENCE_def mk_chunker_def ensure_collection_def
        example_qdrant_def del: py_str_simps)
  obtain rv where rv: "build_retrieval_resources example_outside default_settings = Inr rv"
    by (simp add: build_retrieval_resources_def example_outside_def default_settings_def mk_provider_def run_model_def
        del: py_str_simps)
  from api_searches_what_the_worker_embeds [OF rv wk] rv show ?thesis by blast
qed

end
