(* ===== verification/TypedRows.thy ===== *)
theory TypedRows
  imports Migrations Api
begin

text \<open>
  The rows of \<open>Database\<close> as the repositories hand them to SQLAlchemy, and table by table: the columns,
  checks, keys and indexes that the ORM models declare accept exactly what the constraints of
  \<open>Database\<close> accept.
\<close>

section \<open>Rows as values\<close>

definition or_null :: "('a \<Rightarrow> sql_value) \<Rightarrow> 'a option \<Rightarrow> sql_value" where
  "or_null f x = (case x of None \<Rightarrow> NullV | Some a \<Rightarrow> f a)"

lemma or_null_simps [simp]: "or_null f None = NullV" "or_null f (Some a) = f a"
  by (simp_all add: or_null_def)

fun row_of :: "(string \<times> sql_value) list \<Rightarrow> row" where
  "row_of [] = (\<lambda>_. NullV)"
| "row_of ((c, v) # vs) = (row_of vs)(c := v)"

definition user_values :: "UserRow \<Rightarrow> row" where
  "user_values r = row_of
     [(''id'', UuidV (usr_id r)), (''email'', StrV (usr_email r)), (''full_name'', StrV (usr_full_name r)),
      (''role'', StrV (py_str (role_value (usr_role r)))), (''is_active'', BoolV (usr_is_active r)),
      (''password_hash'', or_null StrV (usr_password_hash r)),
      (''created_at'', TimeV (usr_created_at r)), (''updated_at'', TimeV (usr_updated_at r))]"

definition document_values :: "DocumentRow \<Rightarrow> row" where
  "document_values r = row_of
     [(''id'', UuidV (doc_id r)), (''user_id'', UuidV (doc_user_id r)), (''filename'', StrV (doc_filename r)),
      (''doc_type'', StrV (py_str (type_value (doc_doc_type r)))), (''status'', StrV (py_str (status_value (doc_status r)))),
      (''metadata'', JsonV (JDict (metadata_dump (doc_metadata r)))), (''chunk_count'', IntV (doc_chunk_count r)),
      (''storage_key'', or_null StrV (doc_storage_key r)), (''content_hash'', or_null StrV (doc_content_hash r)),
      (''size_bytes'', or_null IntV (doc_size_bytes r)), (''mime_type'', or_null StrV (doc_mime_type r)),
      (''page_count'', or_null IntV (doc_page_count r)), (''failure_reason'', or_null StrV (doc_failure_reason r)),
      (''created_at'', TimeV (doc_created_at r)), (''updated_at'', TimeV (doc_updated_at r)),
      (''deleted_at'', or_null TimeV (doc_deleted_at r))]"

text \<open>\<open>TextBlock.model_dump(mode="json")\<close>.\<close>

definition block_dump :: "TextBlock \<Rightarrow> json" where
  "block_dump b = JDict [(py_str ''text'', JStr (tb_text b)), (py_str ''font_size'', JFloat (tb_font_size b))]"

definition page_values :: "PageRow \<Rightarrow> row" where
  "page_values r = row_of
     [(''document_id'', UuidV (pg_document_id r)), (''page_number'', IntV (pg_page_number r)),
      (''blocks'', JsonV (JList (map block_dump (pg_blocks r)))), (''created_at'', TimeV (pg_created_at r))]"

definition chunk_values :: "ChunkRow \<Rightarrow> row" where
  "chunk_values r = row_of
     [(''id'', UuidV (chk_id r)), (''document_id'', UuidV (chk_document_id r)), (''chunk_index'', IntV (chk_chunk_index r)),
      (''content'', StrV (chk_content r)), (''section'', or_null StrV (chk_section r)),
      (''page_start'', IntV (chk_page_start r)), (''page_end'', IntV (chk_page_end r)), (''token_count'', IntV (chk_token_count r)),
      (''strategy_version'', StrV (chk_strategy_version r)), (''tokenizer_id'', StrV (chk_tokenizer_id r)),
      (''metadata'', JsonV (JDict [])), (''embedding_model_id'', or_null StrV (chk_embedding_model_id r)),
      (''dimension'', or_null IntV (chk_dimension r)), (''created_at'', TimeV (chk_created_at r))]"

lemmas values_defs = user_values_def document_values_def page_values_def chunk_values_def

text \<open>A table with these rows in it.\<close>

definition holding :: "string \<times> sql_table \<Rightarrow> row list \<Rightarrow> string \<times> sql_table" where
  "holding t rows = (fst t, (snd t)\<lparr>tb_rows := rows\<rparr>)"

section \<open>Columns\<close>

lemma or_null_NullV [simp]: "(\<And>a. f a \<noteq> NullV) \<Longrightarrow> or_null f x = NullV \<longleftrightarrow> x = None"
  by (cases x) simp_all

lemma fits_or_null [simp]:
  "fits (StringT n) (or_null StrV s) = opt_ok (varchar_fits n) s" "fits TextT (or_null StrV s) = opt_ok text_fits s"
  "fits IntegerT (or_null IntV i) = opt_ok int4_fits i" "fits BigIntegerT (or_null IntV i) = opt_ok int8_fits i"
  "fits DateTimeT (or_null TimeV t) = True"
  by (auto simp: or_null_def opt_ok_def split: option.split)

text \<open>The names that the code writes itself fit wherever they go, and are the allowed ones.\<close>

lemma role_name_fits: "10 \<le> n \<Longrightarrow> varchar_fits n (py_str (role_value x))"
  by (cases x) (simp_all add: varchar_fits_def text_fits_def is_surrogate_def)

lemma type_name_fits: "6 \<le> n \<Longrightarrow> varchar_fits n (py_str (type_value x))"
  by (cases x) (simp_all add: varchar_fits_def text_fits_def is_surrogate_def)

lemma status_name_fits: "10 \<le> n \<Longrightarrow> varchar_fits n (py_str (status_value x))"
  by (cases x) (simp_all add: varchar_fits_def text_fits_def is_surrogate_def)

lemmas names_fit = role_name_fits type_name_fits status_name_fits

lemma role_allowed: "py_str (role_value x) \<in> py_str ` set (map role_value [ADMIN, RESEARCHER, VIEWER])"
  by (cases x) simp_all

lemma type_allowed: "py_str (type_value x) \<in> py_str ` set (map type_value [PDF, TEXT, NOTE, REPORT])"
  by (cases x) simp_all

lemma status_allowed: "py_str (status_value x) \<in> py_str ` set (map status_value
     [DocumentStatus.PENDING, DocumentStatus.PROCESSING, DocumentStatus.PARSED, DocumentStatus.CHUNKED, DocumentStatus.READY,
      DocumentStatus.FAILED])"
  by (cases x) simp_all

text \<open>\<open>failed\<close> is the name of one status.\<close>

lemma failed_name: "py_str (status_value x) = py_str ''failed'' \<longleftrightarrow> x = DocumentStatus.FAILED"
  by (cases x) simp_all

text \<open>A key of columns that are never NULL.\<close>

lemma keys_of_total:
  assumes "\<And>r c. c \<in> set cs \<Longrightarrow> f r c \<noteq> NullV"
  shows "keys_of cs (map f rows) = map (\<lambda>r. map (f r) cs) rows"
proof -
  have "filter (\<lambda>r. list_all (\<lambda>c. r c \<noteq> NullV) cs) (map f rows) = map f rows"
    using assms by (auto simp: filter_id_conv list_all_iff)
  then show ?thesis by (simp add: keys_of_def comp_def)
qed

lemma distinct_map_inj: "inj g \<Longrightarrow> distinct (map (\<lambda>r. g (f r)) rows) = distinct (map f rows)"
  by (induction rows) (auto dest: injD)

lemma distinct_id_keys: "distinct (map (\<lambda>r. [UuidV (f r)]) rows) = distinct (map f rows)"
  by (rule distinct_map_inj [where g = "\<lambda>i. [UuidV i]"]) (simp add: inj_def)

lemma distinct_name_keys: "distinct (map (\<lambda>r. [StrV (f r)]) rows) = distinct (map f rows)"
  by (rule distinct_map_inj [where g = "\<lambda>i. [StrV i]"]) (simp add: inj_def)

lemma distinct_pair_keys: "distinct (map (\<lambda>r. [UuidV (f r), IntV (g r)]) rows) = distinct (map (\<lambda>r. (f r, g r)) rows)"
  using distinct_map_inj [where g = "\<lambda>(i, j). [UuidV i, IntV j]" and f = "\<lambda>r. (f r, g r)" and rows = rows]
  by (simp add: inj_def)

lemmas distinct_keys = distinct_id_keys distinct_name_keys distinct_pair_keys

section \<open>The values of the columns\<close>

lemma user_columns [simp]:
  "user_values r ''id'' = UuidV (usr_id r)" "user_values r ''email'' = StrV (usr_email r)"
  "user_values r ''full_name'' = StrV (usr_full_name r)" "user_values r ''role'' = StrV (py_str (role_value (usr_role r)))"
  "user_values r ''is_active'' = BoolV (usr_is_active r)" "user_values r ''password_hash'' = or_null StrV (usr_password_hash r)"
  "user_values r ''created_at'' = TimeV (usr_created_at r)" "user_values r ''updated_at'' = TimeV (usr_updated_at r)"
  by (simp_all add: user_values_def)

lemma page_columns [simp]:
  "page_values r ''document_id'' = UuidV (pg_document_id r)" "page_values r ''page_number'' = IntV (pg_page_number r)"
  "page_values r ''blocks'' = JsonV (JList (map block_dump (pg_blocks r)))" "page_values r ''created_at'' = TimeV (pg_created_at r)"
  by (simp_all add: page_values_def)

lemma chunk_columns [simp]:
  "chunk_values r ''id'' = UuidV (chk_id r)" "chunk_values r ''document_id'' = UuidV (chk_document_id r)"
  "chunk_values r ''chunk_index'' = IntV (chk_chunk_index r)" "chunk_values r ''content'' = StrV (chk_content r)"
  "chunk_values r ''section'' = or_null StrV (chk_section r)" "chunk_values r ''page_start'' = IntV (chk_page_start r)"
  "chunk_values r ''page_end'' = IntV (chk_page_end r)" "chunk_values r ''token_count'' = IntV (chk_token_count r)"
  "chunk_values r ''strategy_version'' = StrV (chk_strategy_version r)" "chunk_values r ''tokenizer_id'' = StrV (chk_tokenizer_id r)"
  "chunk_values r ''metadata'' = JsonV (JDict [])" "chunk_values r ''embedding_model_id'' = or_null StrV (chk_embedding_model_id r)"
  "chunk_values r ''dimension'' = or_null IntV (chk_dimension r)" "chunk_values r ''created_at'' = TimeV (chk_created_at r)"
  by (simp_all add: chunk_values_def)

lemma document_columns [simp]:
  "document_values r ''id'' = UuidV (doc_id r)" "document_values r ''user_id'' = UuidV (doc_user_id r)"
  "document_values r ''filename'' = StrV (doc_filename r)" "document_values r ''doc_type'' = StrV (py_str (type_value (doc_doc_type r)))"
  "document_values r ''status'' = StrV (py_str (status_value (doc_status r)))"
  "document_values r ''metadata'' = JsonV (JDict (metadata_dump (doc_metadata r)))"
  "document_values r ''chunk_count'' = IntV (doc_chunk_count r)" "document_values r ''storage_key'' = or_null StrV (doc_storage_key r)"
  "document_values r ''content_hash'' = or_null StrV (doc_content_hash r)" "document_values r ''size_bytes'' = or_null IntV (doc_size_bytes r)"
  "document_values r ''mime_type'' = or_null StrV (doc_mime_type r)" "document_values r ''page_count'' = or_null IntV (doc_page_count r)"
  "document_values r ''failure_reason'' = or_null StrV (doc_failure_reason r)" "document_values r ''created_at'' = TimeV (doc_created_at r)"
  "document_values r ''updated_at'' = TimeV (doc_updated_at r)" "document_values r ''deleted_at'' = or_null TimeV (doc_deleted_at r)"
  by (simp_all add: document_values_def)

section \<open>The tables\<close>

lemmas declared_defs = holding_def declared_table_def table_ok_def stored_def column_defs row_fits_def

lemma users_agree:
  "table_ok st (snd (holding UserORM (map user_values rows))) \<longleftrightarrow> users_error rows = None"
proof -
  have keys: "keys_of [''id''] (map user_values rows) = map (\<lambda>r. [UuidV (usr_id r)]) rows"
    "keys_of [''email''] (map user_values rows) = map (\<lambda>r. [StrV (usr_email r)]) rows"
    by (subst keys_of_total; simp)+
  show ?thesis
    using role_allowed
    by (simp add: declared_defs UserORM_def users_error_def list_all_iff keys distinct_keys user_fits_def names_fit ball_conj_distrib
      del: py_str_simps)
qed

lemma pages_agree:
  assumes "map_of st ''documents'' = Some (snd (holding DocumentORM (map document_values docs)))"
  shows "table_ok st (snd (holding DocumentPageORM (map page_values rows))) \<longleftrightarrow> pages_error docs rows = None"
proof -
  have keys: "keys_of [''document_id'', ''page_number''] (map page_values rows) = map (\<lambda>r. [UuidV (pg_document_id r), IntV (pg_page_number r)]) rows"
    "keys_of [''document_id''] (map page_values rows) = map (\<lambda>r. [UuidV (pg_document_id r)]) rows"
    "keys_of [''id''] (map document_values docs) = map (\<lambda>r. [UuidV (doc_id r)]) docs"
    by (subst keys_of_total; force)+
  have blocks: "jsonb_fits (JList (map block_dump bs)) \<longleftrightarrow> list_all (\<lambda>b. text_fits (tb_text b)) bs" for bs
    by (simp add: list_all_iff block_dump_def is_surrogate_def)
  show ?thesis
    using assms
    by (simp add: declared_defs DocumentPageORM_def pages_error_def list_all_iff keys distinct_keys page_fits_def blocks
        image_iff ball_conj_distrib conj_ac del: py_str_simps jsonb_fits.simps)
qed

lemma sql_or_False: "sql_or (Some False) b = b"
  by (cases "(Some False, b)" rule: sql_or.cases) auto

lemma chunks_agree:
  assumes "map_of st ''documents'' = Some (snd (holding DocumentORM (map document_values docs)))"
  shows "table_ok st (snd (holding DocumentChunkORM (map chunk_values rows))) \<longleftrightarrow> chunks_error docs rows = None"
proof -
  have keys: "keys_of [''document_id'', ''chunk_index''] (map chunk_values rows) = map (\<lambda>r. [UuidV (chk_document_id r), IntV (chk_chunk_index r)]) rows"
    "keys_of [''document_id''] (map chunk_values rows) = map (\<lambda>r. [UuidV (chk_document_id r)]) rows"
    "keys_of [''id''] (map chunk_values rows) = map (\<lambda>r. [UuidV (chk_id r)]) rows"
    "keys_of [''id''] (map document_values docs) = map (\<lambda>r. [UuidV (doc_id r)]) docs"
    by (subst keys_of_total; force)+
  have dimension: "truth (EitherOf (IsNull ''dimension'') (Above ''dimension'' 0)) (chunk_values r) \<noteq> Some False \<longleftrightarrow> opt_ok (\<lambda>n. 0 < n) (chk_dimension r)" for r
    by (cases "chk_dimension r") (simp_all add: sql_or_False)
  show ?thesis
    using assms
    by (simp add: declared_defs DocumentChunkORM_def chunks_error_def list_all_iff keys distinct_keys chunk_fits_def dimension
        image_iff ball_conj_distrib conj_ac del: py_str_simps truth.simps(10))
qed

lemma content_keys:
  "keys_of [''user_id'', ''content_hash''] (filter (\<lambda>r. r ''deleted_at'' = NullV) (map document_values rows))
    = map (\<lambda>(u, h). [UuidV u, or_null StrV h]) (content_index rows)"
  by (induction rows) (auto simp: keys_of_def content_index_def is_live_def)

lemma distinct_content:
  "distinct (map (\<lambda>(u, h). [UuidV u, or_null StrV h]) keys) = distinct keys"
proof -
  have "or_null StrV h = or_null StrV h' \<longleftrightarrow> h = h'" for h h' by (cases h; cases h') simp_all
  then show ?thesis
    using distinct_map_inj [where g = "\<lambda>(u, h). [UuidV u, or_null StrV h]" and f = id and rows = keys]
    by (simp add: inj_def)
qed

definition metadata_fits :: "DocumentRow \<Rightarrow> bool" where
  "metadata_fits r \<longleftrightarrow> jsonb_fits (JDict (metadata_dump (doc_metadata r)))"

lemma documents_agree:
  assumes "map_of st ''users'' = Some (snd (holding UserORM (map user_values us)))"
  shows "table_ok st (snd (holding DocumentORM (map document_values rows)))
    \<longleftrightarrow> documents_error us rows = None \<and> list_all metadata_fits rows"
proof -
  have keys: "keys_of [''id''] (map document_values rows) = map (\<lambda>r. [UuidV (doc_id r)]) rows"
    "keys_of [''user_id''] (map document_values rows) = map (\<lambda>r. [UuidV (doc_user_id r)]) rows"
    "keys_of [''id''] (map user_values us) = map (\<lambda>r. [UuidV (usr_id r)]) us"
    by (subst keys_of_total; force)+
  have positive: "sql_int (\<lambda>i. 0 < i) (or_null IntV x) \<noteq> Some False \<longleftrightarrow> opt_ok (\<lambda>n. 0 < n) x" for x
    by (cases x) simp_all
  have reason: "truth (SameTruth (Equals ''status'' ''failed'') (IsNotNull ''failure_reason'')) (document_values r) \<noteq> Some False
      \<longleftrightarrow> reason_iff_failed r" for r
    by (simp add: failed_name reason_iff_failed_def del: py_str_simps)
  show ?thesis
    using assms type_allowed status_allowed
    by (simp add: declared_defs DocumentORM_def documents_error_def list_all_iff keys distinct_keys document_fits_def positive reason
        names_fit metadata_fits_def index_satisfied_def content_keys distinct_content image_iff ball_conj_distrib conj_ac
        del: py_str_simps truth.simps(11) jsonb_fits.simps)
qed

end
