(* ===== verification/SchemaAgreement.thy ===== *)
theory SchemaAgreement
  imports RevisionSteps TypedRows
begin

text \<open>
  The two views of the database: the typed rows of \<open>Database\<close>, with the constraints the services
  rely on (\<open>wf_db\<close>), and the relational store that the migrations build. They accept the same
  databases.
\<close>

section \<open>A schema with rows in it\<close>

definition rows_of :: "database \<Rightarrow> string \<Rightarrow> row list" where
  "rows_of db name =
     (if name = ''users'' then map user_values (db_users db)
      else if name = ''documents'' then map document_values (db_documents db)
      else if name = ''document_pages'' then map page_values (db_pages db)
      else if name = ''document_chunks'' then map chunk_values (db_chunks db)
      else [])"

definition filled :: "store \<Rightarrow> database \<Rightarrow> store" where
  "filled st db = map (\<lambda>t. holding t (rows_of db (fst t))) st"

lemma filled_metadata:
  "filled Base_metadata db =
     [holding UserORM (map user_values (db_users db)), holding DocumentORM (map document_values (db_documents db)),
      holding DocumentPageORM (map page_values (db_pages db)), holding DocumentChunkORM (map chunk_values (db_chunks db))]"
  by (simp add: filled_def Base_metadata_def rows_of_def UserORM_def DocumentORM_def DocumentPageORM_def DocumentChunkORM_def
      declared_table_def)

lemma declared_schema_agrees: "store_ok (filled Base_metadata db) \<longleftrightarrow> wf_db db \<and> list_all metadata_fits (db_documents db)"
proof -
  have tables: "map_of (filled Base_metadata db) ''users'' = Some (snd (holding UserORM (map user_values (db_users db))))"
    "map_of (filled Base_metadata db) ''documents'' = Some (snd (holding DocumentORM (map document_values (db_documents db))))"
    by (simp_all add: filled_metadata holding_def UserORM_def DocumentORM_def declared_table_def)
  show ?thesis
    using users_agree documents_agree [OF tables(1)] pages_agree [OF tables(2)] chunks_agree [OF tables(2)]
    by (simp add: store_ok_def) (auto simp: filled_metadata wf_db_def)
qed

text \<open>What a schema accepts depends on what is declared, not on the order.\<close>

lemma map_of_filled: "map_of (filled st db) n = map_option (\<lambda>t. snd (holding (n, t) (rows_of db n))) (map_of st n)"
  by (induction st) (auto simp: filled_def holding_def)

lemma satisfied_filled:
  assumes "set (map fst st) = set (map fst st')"
  shows "satisfied (filled st db) rows k = satisfied (filled st' db) rows k"
proof -
  have same: "map_of st n = None \<longleftrightarrow> map_of st' n = None" for n
    using assms by (auto simp: map_of_eq_None_iff)
  have "(case map_of (filled st db) n of None \<Rightarrow> [] | Some t \<Rightarrow> keys_of cs (tb_rows t)) =
      (case map_of (filled st' db) n of None \<Rightarrow> [] | Some t \<Rightarrow> keys_of cs (tb_rows t))" for n cs
    by (cases "map_of st n"; cases "map_of st' n") (use same [of n] in \<open>auto simp: map_of_filled holding_def\<close>)
  then show ?thesis by (cases k) simp_all
qed

lemma table_ok_filled:
  assumes "set (map fst st) = set (map fst st')" and "set (tb_columns t) = set (tb_columns t')"
    and "set (tb_constraints t) = set (tb_constraints t')" and "set (tb_indexes t) = set (tb_indexes t')"
  shows "table_ok (filled st db) (t\<lparr>tb_rows := rows\<rparr>) = table_ok (filled st' db) (t'\<lparr>tb_rows := rows\<rparr>)"
  using assms(2-4) satisfied_filled [OF assms(1), of db rows]
  by (simp add: table_ok_def row_fits_def list_all_iff)

lemma store_ok_filled:
  "store_ok (filled st db) \<longleftrightarrow> (\<forall>n t. (n, t) \<in> set st \<longrightarrow> table_ok (filled st db) (t\<lparr>tb_rows := rows_of db n\<rparr>))"
  unfolding store_ok_def list_all_iff by (auto simp: holding_def filled_def [of st db])

lemma same_schema_accepts:
  assumes "same_schema st st'" and "distinct (map fst st)" and "distinct (map fst st')"
  shows "store_ok (filled st db) = store_ok (filled st' db)"
proof -
  have names: "set (map fst st) = set (map fst st')" using assms(1) by (simp add: same_schema_def)
  have "table_ok (filled st db) (t\<lparr>tb_rows := rows\<rparr>) = table_ok (filled st' db) (t'\<lparr>tb_rows := rows\<rparr>)"
    if "(n, t) \<in> set st" "(n, t') \<in> set st'" for n t t' rows
    using assms(1) that map_of_is_SomeI [OF assms(3) that(2)]
    by (intro table_ok_filled [OF names]) (auto simp: same_schema_def list_all_iff split: option.splits)
  moreover have "(\<exists>t. (n, t) \<in> set st) \<longleftrightarrow> (\<exists>t'. (n, t') \<in> set st')" for n
    using names by (metis (no_types, lifting) image_iff list.set_map prod.collapse fst_conv)
  ultimately show ?thesis unfolding store_ok_filled by blast
qed

section \<open>Properties\<close>

text \<open>
  C36. The database that the migrations build enforces the constraints the services rely on, all of
  them and no others. On an empty server the six upgrades leave a schema that, filled with the rows of
  a database as the repositories write them, is satisfied if and only if the rows satisfy \<open>wf_db\<close> (the
  widths of their columns, every CHECK, key and foreign key, and the one live row per owner and
  content) and the metadata of every document is text that JSONB can hold.
\<close>

theorem migrated_schema_enforces_the_constraints:
  "\<exists>st. run_migrations upgrades [] = (Inr (), st)
    \<and> (\<forall>db. store_ok (filled st db) \<longleftrightarrow> wf_db db \<and> list_all metadata_fits (db_documents db))"
proof -
  obtain st where st: "statements upgrades [] = Inr st" "at_revision 6 st"
    using all_upgrades by blast
  have "distinct (map fst st)" using st(2) by (simp add: at_revision_def describes_def sound_def)
  moreover have "distinct (map fst Base_metadata)"
    by (simp add: Base_metadata_def UserORM_def DocumentORM_def DocumentPageORM_def DocumentChunkORM_def declared_table_def)
  ultimately have "store_ok (filled st db) = store_ok (filled Base_metadata db)" for db
    by (rule same_schema_accepts [OF describes_same_schema [OF st(2) [unfolded at_revision_def] schema_6_is_declared]])
  with st(1) declared_schema_agrees show ?thesis by (simp add: run_migrations_def)
qed

end
