(* ===== verification/StoredText.thy ===== *)
theory StoredText
  imports Lifecycle Embedding PdfExtraction Chunker
begin

text \<open>
  What is in the tables is what the models' validators accept. The database knows less than the
  models do: a page of blank blocks or a chunk of white space satisfies every constraint of the
  schema. Rows are read back through the validators, so a row they refuse would stop every later
  step of its document. This theory composes the extractor, the chunker and the pipeline: every
  row any interleaving stores is well typed, so reading never goes wrong.
\<close>

section \<open>Well-typed rows\<close>

definition page_of_row :: "PageRow \<Rightarrow> ExtractedPage" where
  "page_of_row r = \<lparr>ep_page_number = pg_page_number r, ep_blocks = pg_blocks r\<rparr>"

definition chunk_of_row :: "ChunkRow \<Rightarrow> Chunk" where
  "chunk_of_row r = \<lparr>c_chunk_index = chk_chunk_index r, c_content = chk_content r, c_section = chk_section r,
     c_page_start = chk_page_start r, c_page_end = chk_page_end r, c_token_count = chk_token_count r\<rparr>"

definition chunk_typed :: "int \<Rightarrow> Chunk \<Rightarrow> bool" where
  "chunk_typed budget c \<longleftrightarrow> wf_chunk c \<and> c_token_count c \<le> budget"

definition well_typed :: "int \<Rightarrow> database \<Rightarrow> bool" where
  "well_typed budget db \<longleftrightarrow> list_all (\<lambda>r. wf_page (page_of_row r)) (db_pages db)
     \<and> list_all (\<lambda>r. chunk_typed budget (chunk_of_row r)) (db_chunks db)"

definition keeps_types :: "int \<Rightarrow> database \<Rightarrow> database \<Rightarrow> bool" where
  "keeps_types budget db db' \<longleftrightarrow> (well_typed budget db \<longrightarrow> well_typed budget db')"

lemma keeps_types_trans [trans]: "keeps_types n db db1 \<Longrightarrow> keeps_types n db1 db2 \<Longrightarrow> keeps_types n db db2"
  by (simp add: keeps_types_def)

lemma same_children: "db_pages db' = db_pages db \<Longrightarrow> db_chunks db' = db_chunks db \<Longrightarrow> keeps_types n db db'"
  by (simp add: keeps_types_def well_typed_def)

lemma new_rows_typed [simp]:
  "page_of_row (new_page_row d now p) = p" "chunk_of_row (new_chunk_row h d s k now c) = c"
  "chunk_of_row (set_embedded model width r) = chunk_of_row r"
  by (simp_all add: page_of_row_def chunk_of_row_def new_page_row_def new_chunk_row_def set_embedded_def)

section \<open>Every statement keeps the types\<close>

lemma document_statements_typed:
  "documents_transition_status_for_user U d u x y reason cnt db = Inr (b, db') \<Longrightarrow> keeps_types n db db'"
  "documents_create U i owner v db = Inr (document, db') \<Longrightarrow> keeps_types n db db'"
  "documents_soft_delete_for_user U d owner db = Inr (b, db') \<Longrightarrow> keeps_types n db db'"
  "documents_fail_stale_processing seconds why db = Inr (ids, db') \<Longrightarrow> keeps_types n db db'"
  by (auto simp: documents_transition_status_for_user_def documents_create_def documents_soft_delete_for_user_def
      documents_fail_stale_processing_def scoped_def Let_def intro!: same_children split: option.splits)

lemma pages_add_typed:
  assumes "pages_add_for_user U d u pages db = Inr db'" and "list_all wf_page pages"
  shows "keeps_types n db db'"
proof -
  obtain t where "db' = db\<lparr>db_pages := db_pages db @ map (new_page_row t (db_now db)) pages\<rparr>"
    using assms(1) that by (simp only: pages_add_for_user_def bind_result_eq_Inr) (auto split: option.split_asm)
  with assms(2) show ?thesis by (simp add: keeps_types_def well_typed_def list.pred_map comp_def)
qed

lemma chunks_add_typed:
  assumes "chunks_add_many U h d u chunking db = Inr (cs, db')" and "list_all (chunk_typed n) (cr_chunks chunking)"
  shows "keeps_types n db db'"
proof -
  obtain t where "db' = db\<lparr>db_chunks := db_chunks db @ map (new_chunk_row h t (cr_strategy_version chunking)
      (cr_tokenizer_id chunking) (db_now db)) (cr_chunks chunking)\<rparr>"
    using assms(1) that by (simp only: chunks_add_many_def Let_def bind_result_eq_Inr) (auto split: option.split_asm)
  with assms(2) show ?thesis by (simp add: keeps_types_def well_typed_def list.pred_map comp_def)
qed

lemma chunk_statements_typed:
  assumes "chunks_delete_for_document U d u db = Inr (k, db') \<or> chunks_mark_embedded U d u model width db = Inr (k, db')"
  shows "keeps_types n db db'"
proof -
  have "db' = db \<or> (\<exists>p. db' = db\<lparr>db_chunks := delete_where p (db_chunks db)\<rparr>)
      \<or> (\<exists>p. db' = db\<lparr>db_chunks := update_where p (set_embedded model width) (db_chunks db)\<rparr>)"
    using assms by (cases rule: scoped_cases [of U d u])
      (auto simp: chunks_delete_for_document_def chunks_mark_embedded_def scoped_none scoped_eq)
  moreover have "\<exists>r' \<in> set rows. chunk_of_row r = chunk_of_row r'" if "r \<in> set (update_where p (set_embedded model width) rows)" for p r rows
    using that by (auto simp: update_where_def)
  ultimately show ?thesis
    by (auto simp: keeps_types_def well_typed_def delete_where_def list_all_iff) metis
qed

lemmas chunks_delete_typed = chunk_statements_typed [OF disjI1]
lemmas chunks_mark_typed = chunk_statements_typed [OF disjI2]

lemma store_parsed_typed:
  assumes "store_parsed sv job extracted db = Inr (b, db')" and "wf_extracted extracted"
  shows "keeps_types n db db'"
  using assms(1)
proof (cases rule: store_parsed_cases)
  case (2 db1)
  have "keeps_types n db db1" by (rule document_statements_typed(1) [OF 2(2)])
  also have "keeps_types n db1 db'" by (rule pages_add_typed [OF 2(3)]) (use assms(2) in \<open>simp add: wf_extracted_def\<close>)
  finally show ?thesis .
qed (simp add: same_children)

lemma store_chunks_typed:
  assumes "store_chunks sv job chunking db = Inr (b, db')" and "list_all (chunk_typed n) (cr_chunks chunking)"
  shows "keeps_types n db db'"
  using assms(1)
proof (cases rule: store_chunks_cases)
  case (2 db1 cs)
  show ?thesis by (rule keeps_types_trans [OF document_statements_typed(1) [OF 2(2)] chunks_add_typed [OF 2(3) assms(2)]])
qed (simp add: same_children)

lemma replace_chunks_typed:
  assumes "replace_chunks sv job chunking db = Inr (b, db')" and "list_all (chunk_typed n) (cr_chunks chunking)"
  shows "keeps_types n db db'"
  using assms(1)
proof (cases rule: replace_chunks_cases)
  case (2 db1 k db2 cs)
  have "keeps_types n db db1" by (rule document_statements_typed(1) [OF 2(2)])
  also have "keeps_types n db1 db2" by (rule chunks_delete_typed [OF 2(3)])
  also have "keeps_types n db2 db'" by (rule chunks_add_typed [OF 2(4) assms(2)])
  finally show ?thesis .
qed (simp add: same_children)

lemma store_ready_typed:
  assumes "store_ready sv job db = Inr (b, db')"
  shows "keeps_types n db db'"
  using assms
proof (cases rule: store_ready_cases)
  case (2 db1 k)
  show ?thesis by (rule keeps_types_trans [OF document_statements_typed(1) [OF 2(2)] chunks_mark_typed [OF 2(3)]])
qed (simp add: same_children)

section \<open>What the extractor and the chunker return\<close>

lemma extracted_wf: "extract_pdf_text U open_pdf data max_pages = Inr t \<Longrightarrow> wf_extracted t"
  by (auto simp: extract_pdf_text_def mk_extracted_text_def wf_extracted_def dest: extracted_pages
      split: option.splits if_splits sum.splits)

lemma chunks_typed:
  assumes "visible_tokenizer tk" and "mk_chunker tk budget overlap = Inr ck" and "list_all wf_page pages"
    and "chunk U scale ck pages = Inr r"
  shows "list_all (chunk_typed budget) (cr_chunks r)"
proof -
  note ck = mk_chunker_cases [OF assms(2)]
  have "chunk_typed budget c" if "c \<in> set (cr_chunks r)" for c
    by (rule visible_tokenizer.chunk_result [OF assms(1) ck(1,2) assms(3), of U scale])
      (use assms(4) that ck(4) in \<open>force simp: cut_from_def chunk_typed_def\<close>)
  then show ?thesis by (simp add: list_all_iff)
qed

text \<open>A service built of this extractor and this chunker.\<close>

definition parses_and_chunks_with ::
  "('q, 'r) service \<Rightarrow> unicode \<Rightarrow> (bytes \<Rightarrow> pdf_document option) \<Rightarrow> (rat \<Rightarrow> rat) \<Rightarrow> chunker \<Rightarrow> bool" where
  "parses_and_chunks_with sv U open_pdf scale ck \<longleftrightarrow>
     sv_extract sv = extract_pdf_text U open_pdf \<and> sv_chunk sv = chunk U scale ck"

lemma typing_effects:
  assumes "parses_and_chunks_with sv U open_pdf scale ck" and "visible_tokenizer tk" and "mk_chunker tk n overlap = Inr ck"
  shows "maintenance_effects sv (\<lambda>_. True) (keeps_types n) (\<lambda>_. True)"
  using assms(1) unfolding parses_and_chunks_with_def
  by unfold_locales (auto simp: same_children
      intro: document_statements_typed store_ready_typed store_parsed_typed extracted_wf
        store_chunks_typed replace_chunks_typed chunks_typed [OF assms(2,3)])

section \<open>Well-typed rows do not go wrong\<close>

lemma typed_pages_load:
  assumes "list_all (\<lambda>r. wf_page (page_of_row r)) (db_pages db)"
  shows "\<exists>pages. pages_list_for_document U d u db = Inr pages \<and> list_all wf_page pages"
proof (cases rule: scoped_cases [of U d u])
  case (parsed t ow)
  let ?rows = "sort_key pg_page_number (select_where (\<lambda>g. pg_document_id g = t \<and> owned_by (db_documents db) ow (pg_document_id g)) (db_pages db))"
  have "load_page r = Inr (page_of_row r)" if "r \<in> set ?rows" for r
    using that assms by (auto simp: list_all_iff select_where_def page_of_row_def intro!: load_page_typed)
  then have "map_result load_page ?rows = Inr (map page_of_row ?rows)" by (rule map_result_total)
  with parsed have "pages_list_for_document U d u db = Inr (map page_of_row ?rows)"
    by (simp add: pages_list_for_document_def scoped_eq)
  with loaded_pages_wf [OF this] show ?thesis by blast
qed (simp add: pages_list_for_document_def scoped_none)

lemma typed_chunks_have_text:
  assumes "list_all (\<lambda>r. chunk_typed n (chunk_of_row r)) (db_chunks db)"
  shows "refuse_empty (map dc_content (chunks_list_for_document U d u db)) = Inr ()"
proof -
  have "py_strip (dc_content c) \<noteq> []" if "c \<in> set (chunks_list_for_document U d u db)" for c
    using that assms by (cases rule: scoped_cases [of U d u])
      (auto simp: chunks_list_for_document_def scoped_none scoped_eq document_chunk_rows_def select_where_def list_all_iff
        chunk_to_domain_def chunk_of_row_def chunk_typed_def wf_chunk_def)
  then show ?thesis by simp
qed

text \<open>
  C39. Stored rows are well typed. With the extractor and any chunker that could be built, over any
  tokenizer that keeps its contract, every page and chunk in every reachable state, whatever fails,
  is one the models' validators accept, and no chunk exceeds the chunker's budget. So reading the pages
  of a document never raises, and its chunks are never refused by the embedding provider as empty.
\<close>

theorem stored_rows_are_well_typed:
  assumes "reachable (\<lambda>_. True) (system_process sv ul) w0 (w, ps)" and "well_typed n (w_db w0)"
    and "parses_and_chunks_with sv U open_pdf scale ck" and "visible_tokenizer tk" and "mk_chunker tk n overlap = Inr ck"
  shows "well_typed n (w_db w)
    \<and> (\<exists>pages. pages_list_for_document (sv_unicode sv) d u (w_db w) = Inr pages \<and> list_all wf_page pages)
    \<and> refuse_empty (map dc_content (chunks_list_for_document (sv_unicode sv) d u (w_db w))) = Inr ()"
proof -
  have "raising (\<lambda>_. True) = (\<lambda>_. True)" by (auto simp: raising_def fun_eq_iff split: choice.split)
  with assms(1) have "(keeps_types n)\<^sup>*\<^sup>* (w_db w0) (w_db w)"
    by (intro maintenance_effects.system_moves [OF typing_effects [OF assms(3-5)]]) simp
  then have "well_typed n (w_db w)"
    by (induction rule: rtranclp_induct) (use assms(2) in \<open>auto simp: keeps_types_def\<close>)
  then show ?thesis
    using typed_pages_load [of "w_db w"] typed_chunks_have_text [of n "w_db w"] unfolding well_typed_def by blast
qed

text \<open>The regular-expression tokenizer, windows of 200 tokens, and a service that parses one page.\<close>

definition small_service :: "(ustr \<Rightarrow> (vector \<times> mapping) option, IngestionJob list) service" where
  "small_service = example_service
     \<lparr>sv_extract := extract_pdf_text example_unicode (\<lambda>_. Some example_pdf),
      sv_chunk := chunk example_unicode (\<lambda>x. x) \<lparr>ck_tokenizer = regex_tokenizer ascii_unicode, ck_size = 200, ck_overlap = 50\<rparr>\<rparr>"

theorem stored_rows_are_well_typed_witness:
  "\<exists>w ps pages. reachable (\<lambda>_. True) (system_process small_service example_uploads) (staged_world DocumentStatus.CHUNKED) (w, ps)
    \<and> ps \<noteq> [] \<and> well_typed 200 (w_db w) \<and> db_chunks (w_db w) \<noteq> []
    \<and> pages_list_for_document ascii_unicode (uuid_str 2) (uuid_str 1) (w_db w) = Inr pages \<and> list_all wf_page pages"
proof -
  have "reachable (\<lambda>_. True) (system_process small_service example_uploads) (staged_world DocumentStatus.CHUNKED)
      (staged_world DocumentStatus.CHUNKED, [] @ clock 6 # [])"
    using reachable.further [OF reachable.initial pool_step.start, of "system_process small_service example_uploads" "clock 6"]
    by (simp add: system_process.ticking)
  from run_reachable [OF this] obtain w ps where w: "reachable (\<lambda>_. True) (system_process small_service example_uploads)
      (staged_world DocumentStatus.CHUNKED) (w, ps)" "ps \<noteq> []" "db_chunks (w_db w) \<noteq> []"
    by (fastforce simp: clock_def run_call staged_world_def staged_db_def)
  have typed: "well_typed 200 (w_db (staged_world DocumentStatus.CHUNKED))"
    by (simp add: well_typed_def staged_world_def staged_db_def page_of_row_def chunk_of_row_def wf_page_def example_page_def
        wf_text_block_def chunk_typed_def wf_chunk_def example_chunk_row_def py_strip_Nil_iff py_str_def py_isspace_def)
  have built: "parses_and_chunks_with small_service example_unicode (\<lambda>_. Some example_pdf) (\<lambda>x. x)
      \<lparr>ck_tokenizer = regex_tokenizer ascii_unicode, ck_size = 200, ck_overlap = 50\<rparr>"
    "mk_chunker (regex_tokenizer ascii_unicode) 200 50
      = Inr \<lparr>ck_tokenizer = regex_tokenizer ascii_unicode, ck_size = 200, ck_overlap = 50\<rparr>"
    "sv_unicode small_service = ascii_unicode"
    by (simp_all add: parses_and_chunks_with_def small_service_def mk_chunker_def example_service_def)
  from stored_rows_are_well_typed [OF w(1) typed built(1) regex_visible.visible_tokenizer_axioms built(2), of "uuid_str 2" "uuid_str 1"]
    w built(3)
  show ?thesis by auto
qed

end
