(* ===== verification/Windows.thy ===== *)
theory Windows
  imports Chunker "HOL-Library.While_Combinator"
begin

text \<open>
  The \<open>while\<close> loop of \<open>_window_ranges\<close> statement by statement, over the integers the constructor was
  given. \<open>Chunker\<close> has the loop as a recursion that steps by a successor, which presupposes what the
  constructor checks; here nothing is presupposed, and the loop returns because of those checks.
\<close>

record window_state =
  ws_start :: int
  ws_ranges :: "trange list"
  ws_broken :: bool

definition window_guard :: "span list \<Rightarrow> window_state \<Rightarrow> bool" where
  "window_guard tokens s \<longleftrightarrow> \<not> ws_broken s \<and> ws_start s < int (length tokens)"

definition window_body :: "span list \<Rightarrow> int \<Rightarrow> int \<Rightarrow> window_state \<Rightarrow> window_state" where
  "window_body tokens chunk_size step s =
     (let stop = min (ws_start s + chunk_size) (int (length tokens));
          s' = s\<lparr>ws_ranges := ws_ranges s @
            [(fst (tokens ! nat (ws_start s)), snd (tokens ! nat (stop - 1)), nat (stop - ws_start s))]\<rparr> in
      if stop = int (length tokens) then s'\<lparr>ws_broken := True\<rparr>
      else s'\<lparr>ws_start := ws_start s + step\<rparr>)"

text \<open>\<open>None\<close> is a loop that never ends.\<close>

definition windows_while :: "tokenizer_ops \<Rightarrow> int \<Rightarrow> int \<Rightarrow> ustr \<Rightarrow> trange list option" where
  "windows_while tk chunk_size chunk_overlap text =
     (let tokens = tk_tokenize tk text in
      if tokens = [] then Some []
      else map_option ws_ranges
        (while_option (window_guard tokens) (window_body tokens chunk_size (chunk_size - chunk_overlap))
           \<lparr>ws_start = 0, ws_ranges = [], ws_broken = False\<rparr>))"

text \<open>From any position on, the loop appends what the recursion returns.\<close>

lemma while_window_loop:
  "0 < n \<Longrightarrow> map_option ws_ranges
     (while_option (window_guard tokens) (window_body tokens (int n) (int (Suc k)))
        \<lparr>ws_start = int start, ws_ranges = acc, ws_broken = False\<rparr>)
   = Some (acc @ window_loop tokens n k start)"
proof (induction tokens n k start arbitrary: acc rule: window_loop.induct)
  case (1 tokens n k start)
  let ?s = "\<lparr>ws_start = int start, ws_ranges = acc, ws_broken = False\<rparr>"
  let ?stop = "min (start + n) (length tokens)"
  let ?window = "(fst (tokens ! start), snd (tokens ! (?stop - 1)), ?stop - start)"
  show ?case
  proof (cases "length tokens \<le> start")
    case True
    then show ?thesis by (simp add: while_option_unfold window_guard_def window_loop.simps [of tokens])
  next
    case False
    then have guard: "window_guard tokens ?s" by (simp add: window_guard_def)
    then have once: "while_option (window_guard tokens) (window_body tokens (int n) (int (Suc k))) ?s
        = while_option (window_guard tokens) (window_body tokens (int n) (int (Suc k))) (window_body tokens (int n) (int (Suc k)) ?s)"
      by (subst while_option_unfold) (simp only: if_True)
    have "min (int start + int n) (int (length tokens)) = int ?stop" by simp
    moreover have "nat (int ?stop - 1) = ?stop - 1" "nat (int ?stop - int start) = ?stop - start" by simp_all
    ultimately have body: "window_body tokens (int n) (int (Suc k)) ?s =
        (if ?stop = length tokens then \<lparr>ws_start = int start, ws_ranges = acc @ [?window], ws_broken = True\<rparr>
         else \<lparr>ws_start = int (start + Suc k), ws_ranges = acc @ [?window], ws_broken = False\<rparr>)"
      by (simp only: window_body_def Let_def window_state.simps nat_int of_nat_eq_iff of_nat_add)
    show ?thesis
    proof (cases "?stop = length tokens")
      case True
      with body have "window_body tokens (int n) (int (Suc k)) ?s = ?s\<lparr>ws_ranges := acc @ [?window], ws_broken := True\<rparr>"
        by simp
      with once have "while_option (window_guard tokens) (window_body tokens (int n) (int (Suc k))) ?s
          = Some (?s\<lparr>ws_ranges := acc @ [?window], ws_broken := True\<rparr>)"
        by (simp only:) (simp add: while_option_unfold window_guard_def)
      with True False show ?thesis by (simp add: window_loop.simps [of tokens] Let_def)
    next
      case more: False
      then have short: "start + n < length tokens" by linarith
      with body have "window_body tokens (int n) (int (Suc k)) ?s
          = \<lparr>ws_start = int (start + Suc k), ws_ranges = acc @ [?window], ws_broken = False\<rparr>" by simp
      with once "1.IH" [OF False refl more "1.prems", of "acc @ [?window]"]
      have "map_option ws_ranges (while_option (window_guard tokens) (window_body tokens (int n) (int (Suc k))) ?s)
          = Some ((acc @ [?window]) @ window_loop tokens n k (start + Suc k))" by (simp only:)
      with False short show ?thesis by (simp add: window_loop.simps [of tokens n k start] Let_def)
    qed
  qed
qed

lemma window_loop_length: "length (window_loop tokens n k start) \<le> length tokens - start"
proof (induction tokens n k start rule: window_loop.induct)
  case (1 tokens n k start)
  then show ?case
    by (cases "length tokens \<le> start"; cases "start + n < length tokens")
      (auto simp: window_loop.simps [of tokens n k start] Let_def min_def)
qed

lemma window_ranges_length: "length (window_ranges ck text) \<le> length (tk_tokenize (ck_tokenizer ck) text)"
  using window_loop_length [of "tk_tokenize (ck_tokenizer ck) text" "ck_size ck" "ck_size ck - ck_overlap ck - 1" 0]
  by (simp add: window_ranges_def Let_def)

text \<open>With an overlap as large as the window, the second round is the first one again.\<close>

lemma stuck_window:
  assumes "0 < n" and "n < int (length tokens)"
  shows "while_option (window_guard tokens) (window_body tokens n 0) \<lparr>ws_start = 0, ws_ranges = [], ws_broken = False\<rparr> = None"
proof (rule ccontr)
  let ?stuck = "\<lambda>s. ws_start s = 0 \<and> \<not> ws_broken s"
  assume "\<not> ?thesis"
  then obtain s where s: "while_option (window_guard tokens) (window_body tokens n 0)
      \<lparr>ws_start = 0, ws_ranges = [], ws_broken = False\<rparr> = Some s"
    by blast
  from assms have "?stuck (window_body tokens n 0 s)" if "?stuck s" for s
    using that by (simp add: window_body_def Let_def)
  with s have "?stuck s" by (intro while_option_rule [of ?stuck, OF _ s]) auto
  moreover from assms have "0 < length tokens" by linarith
  ultimately show False using while_option_stop [OF s] by (simp add: window_guard_def)
qed

text \<open>
  C40. The window loop returns, and the checks of the constructor are why. For every chunker that can
  be constructed the \<open>while\<close> loop ends on every text, after at most one round per token, with the
  windows of the recursion; with an overlap equal to the size, which the constructor refuses, it would
  never end on a text longer than one window.
\<close>

theorem windows_terminate:
  "(\<forall>ck. mk_chunker tk chunk_size chunk_overlap = Inr ck \<longrightarrow>
      windows_while tk chunk_size chunk_overlap text = Some (window_ranges ck text)
      \<and> length (window_ranges ck text) \<le> length (tk_tokenize tk text))
    \<and> (0 < chunk_size \<and> chunk_size < int (length (tk_tokenize tk text)) \<longrightarrow>
        mk_chunker tk chunk_size chunk_size = Inl ValueError \<and> windows_while tk chunk_size chunk_size text = None)"
proof (intro conjI allI impI)
  fix ck
  assume "mk_chunker tk chunk_size chunk_overlap = Inr ck"
  then have ck: "0 < chunk_size" "0 \<le> chunk_overlap" "chunk_overlap < chunk_size"
    "ck = \<lparr>ck_tokenizer = tk, ck_size = nat chunk_size, ck_overlap = nat chunk_overlap\<rparr>"
    by (auto simp: mk_chunker_def split: if_splits)
  then have step: "int (nat chunk_size) = chunk_size"
    "int (Suc (nat chunk_size - nat chunk_overlap - 1)) = chunk_size - chunk_overlap" by linarith+
  from while_window_loop [of "nat chunk_size" "tk_tokenize tk text" "nat chunk_size - nat chunk_overlap - 1" 0 "[]"] ck(1)
  show "windows_while tk chunk_size chunk_overlap text = Some (window_ranges ck text)"
    unfolding step by (simp add: windows_while_def window_ranges_def ck(4) Let_def)
  show "length (window_ranges ck text) \<le> length (tk_tokenize tk text)"
    using window_ranges_length [of ck "text"] by (simp add: ck(4))
next
  assume "0 < chunk_size \<and> chunk_size < int (length (tk_tokenize tk text))"
  then show "mk_chunker tk chunk_size chunk_size = Inl ValueError" and "windows_while tk chunk_size chunk_size text = None"
    by (auto simp: mk_chunker_def windows_while_def stuck_window Let_def)
qed

definition letter_tokenizer :: tokenizer_ops where
  "letter_tokenizer = \<lparr>tk_id = [], tk_tokenize = \<lambda>s. map (\<lambda>i. (i, Suc i)) [0..<length s], tk_count = length\<rparr>"

theorem windows_terminate_witness:
  "windows_while letter_tokenizer 3 1 (py_str ''abcdefg'') = Some [(0, 3, 3), (2, 5, 3), (4, 7, 3)]
    \<and> windows_while letter_tokenizer 3 3 (py_str ''abcdefg'') = None"
proof -
  let ?t = "py_str ''abcdefg''"
  have ck: "mk_chunker letter_tokenizer 3 1 = Inr \<lparr>ck_tokenizer = letter_tokenizer, ck_size = 3, ck_overlap = 1\<rparr>"
    by (simp add: mk_chunker_def)
  have "window_ranges \<lparr>ck_tokenizer = letter_tokenizer, ck_size = 3, ck_overlap = 1\<rparr> ?t = [(0, 3, 3), (2, 5, 3), (4, 7, 3)]"
    by (simp add: window_ranges_def letter_tokenizer_def window_loop.simps py_str_def upt_rec Let_def)
  then show ?thesis
    using windows_terminate [of letter_tokenizer 3 1 ?t] windows_terminate [of letter_tokenizer 3 3 ?t] ck
    by (simp add: letter_tokenizer_def py_str_def)
qed

end
