(* ===== verification/Application.thy ===== *)
theory Application
  imports Api
begin

text \<open>
  \<open>backend/api/app.py\<close> and the health router: the application as a whole. \<open>create_app\<close> mounts six
  routers under their prefixes; \<open>route_of\<close> says which route a request is for and \<open>serve\<close> runs it.
  Matching a path against the templates is FastAPI's work: a request is the endpoint it was matched
  with and the arguments it was parsed into.
\<close>

section \<open>Routes\<close>

record route =
  rt_method :: string
  rt_path :: string
  rt_permission :: "Permission option"

abbreviation open_to_all :: "string \<Rightarrow> string \<Rightarrow> route" where
  "open_to_all verb path \<equiv> \<lparr>rt_method = verb, rt_path = path, rt_permission = None\<rparr>"

abbreviation guarded :: "string \<Rightarrow> string \<Rightarrow> Permission \<Rightarrow> route" where
  "guarded verb path p \<equiv> \<lparr>rt_method = verb, rt_path = path, rt_permission = Some p\<rparr>"

definition health_router :: "route list" where
  "health_router = [open_to_all ''GET'' ''/health'', open_to_all ''GET'' ''/health/ready'', open_to_all ''GET'' ''/metrics'']"

definition auth_router :: "route list" where
  "auth_router = [open_to_all ''POST'' ''/register'', open_to_all ''POST'' ''/login'']"

definition documents_router :: "route list" where
  "documents_router =
     [guarded ''POST'' ''/upload'' DOCUMENT_WRITE, guarded ''GET'' ''/'' DOCUMENT_READ,
      guarded ''GET'' ''/{document_id}'' DOCUMENT_READ, guarded ''DELETE'' ''/{document_id}'' DOCUMENT_WRITE]"

definition agents_router :: "route list" where
  "agents_router = [guarded ''POST'' ''/run'' AGENT_RUN, guarded ''GET'' ''/status/{session_id}'' AGENT_RUN]"

definition search_router :: "route list" where
  "search_router = [guarded ''POST'' ''/'' SEARCH_QUERY]"

definition workspace_router :: "route list" where
  "workspace_router = [guarded ''GET'' ''/sessions'' WORKSPACE_READ, guarded ''POST'' ''/sessions'' WORKSPACE_WRITE]"

definition include_router :: "string \<Rightarrow> route list \<Rightarrow> route list" where
  "include_router prefix = map (\<lambda>r. r\<lparr>rt_path := prefix @ rt_path r\<rparr>)"

definition create_app :: "route list" where
  "create_app = concat
     [include_router [] health_router,
      include_router ''/api/v1/auth'' auth_router,
      include_router ''/api/v1/documents'' documents_router,
      include_router ''/api/v1/agents'' agents_router,
      include_router ''/api/v1/search'' search_router,
      include_router ''/api/v1/workspace'' workspace_router]"

definition CORS_allow_methods :: "string list" where
  "CORS_allow_methods = [''GET'', ''POST'', ''DELETE'', ''OPTIONS'']"

section \<open>Requests\<close>

datatype request =
    Health | Readiness | Metrics
  | Register RegisterRequest | Login LoginRequest
  | UploadDocument "ustr option" bytes | ListDocuments | GetDocument ustr | DeleteDocument ustr
  | RunAgent | GetAgentStatus ustr
  | SemanticSearch SearchRequest
  | ListSessions | CreateSession

fun route_of :: "request \<Rightarrow> route" where
  "route_of Health = open_to_all ''GET'' ''/health''"
| "route_of Readiness = open_to_all ''GET'' ''/health/ready''"
| "route_of Metrics = open_to_all ''GET'' ''/metrics''"
| "route_of (Register body) = open_to_all ''POST'' ''/api/v1/auth/register''"
| "route_of (Login body) = open_to_all ''POST'' ''/api/v1/auth/login''"
| "route_of (UploadDocument filename stream) = guarded ''POST'' ''/api/v1/documents/upload'' DOCUMENT_WRITE"
| "route_of ListDocuments = guarded ''GET'' ''/api/v1/documents/'' DOCUMENT_READ"
| "route_of (GetDocument d) = guarded ''GET'' ''/api/v1/documents/{document_id}'' DOCUMENT_READ"
| "route_of (DeleteDocument d) = guarded ''DELETE'' ''/api/v1/documents/{document_id}'' DOCUMENT_WRITE"
| "route_of RunAgent = guarded ''POST'' ''/api/v1/agents/run'' AGENT_RUN"
| "route_of (GetAgentStatus s) = guarded ''GET'' ''/api/v1/agents/status/{session_id}'' AGENT_RUN"
| "route_of (SemanticSearch body) = guarded ''POST'' ''/api/v1/search/'' SEARCH_QUERY"
| "route_of ListSessions = guarded ''GET'' ''/api/v1/workspace/sessions'' WORKSPACE_READ"
| "route_of CreateSession = guarded ''POST'' ''/api/v1/workspace/sessions'' WORKSPACE_WRITE"

datatype response =
    Plain "(ustr \<times> json) list" | Registered RegisterResponse | LoggedIn LoginResponse
  | OneDocument DocumentResponse | Documents DocumentListResponse | Found SearchResponse | NoContent

definition health :: "int \<times> response" where
  "health = (200, Plain [(py_str ''status'', JStr (py_str ''ok''))])"

text \<open>The readiness probe checks nothing yet: it is a constant.\<close>

definition readiness :: "int \<times> response" where
  "readiness = (200, Plain [(py_str ''status'', JStr (py_str ''ready'')), (py_str ''dependencies'', JDict [])])"

definition metrics :: "int \<times> response" where
  "metrics = (200, Plain [])"

text \<open>What one process serves with: \<open>app.state.retrieval\<close> is set while its lifespan runs.\<close>

record ('q, 'r) application =
  app_service :: "('q, 'r) service"
  app_uploads :: uploads
  app_auth :: auth
  app_retrieval :: "'q retrieval_resources option"

definition get_retrieval_resources :: "('q, 'r) application \<Rightarrow> (exn, 'q retrieval_resources) result" where
  "get_retrieval_resources app = (case app_retrieval app of None \<Rightarrow> Inl RuntimeError | Some rv \<Rightarrow> Inr rv)"

definition answer :: "('a \<Rightarrow> response) \<Rightarrow> ('w, int \<times> 'a) prog \<Rightarrow> ('w, int \<times> response) prog" where
  "answer f p = bindP p (\<lambda>(code, body). Return (code, f body))"

text \<open>
  The dependencies of a route are resolved in the order of its parameters: the caller first, then
  what the service is built of.
\<close>

definition serve ::
  "('q, 'r) application \<Rightarrow> timestamp \<Rightarrow> ustr option \<Rightarrow> nat \<Rightarrow> uuid \<Rightarrow> request
   \<Rightarrow> (('q, 'r) world, int \<times> response) prog" where
  "serve app now credentials rnd new_id request =
     (let sv = app_service app; au = app_auth app in
      case request of
        Health \<Rightarrow> Return health
      | Readiness \<Rightarrow> Return readiness
      | Metrics \<Rightarrow> Return metrics
      | Register body \<Rightarrow> answer Registered (register_route au rnd new_id body)
      | Login body \<Rightarrow> answer LoggedIn (login_route au now body)
      | UploadDocument filename stream \<Rightarrow>
          answer OneDocument (upload_route sv (app_uploads app) au now credentials new_id filename stream)
      | ListDocuments \<Rightarrow> answer Documents (list_route sv au now credentials)
      | GetDocument d \<Rightarrow> answer OneDocument (get_route sv au now credentials d)
      | DeleteDocument d \<Rightarrow> answer (\<lambda>_. NoContent) (delete_route sv au now credentials d)
      | RunAgent \<Rightarrow> answer (\<lambda>_. NoContent) (run_agent au now credentials)
      | GetAgentStatus s \<Rightarrow> answer (\<lambda>_. NoContent) (get_agent_status au now credentials)
      | SemanticSearch body \<Rightarrow>
          (case get_retrieval_resources app of
             Inl e \<Rightarrow> bindP (require_permission au now SEARCH_QUERY credentials) (\<lambda>_. Raise e)
           | Inr rv \<Rightarrow> answer Found (search_route (get_search_service (au_unicode au) (au_settings au) rv) au now credentials body))
      | ListSessions \<Rightarrow> answer (\<lambda>_. NoContent) (list_sessions au now credentials)
      | CreateSession \<Rightarrow> answer (\<lambda>_. NoContent) (create_session au now credentials))"

section \<open>Coroutines that only read\<close>

abbreviation reads :: "('w, 'a) prog \<Rightarrow> bool" where
  "reads p \<equiv> does (\<lambda>_. True) (=) (\<lambda>_. True) p"

lemma reads_run: "reads p \<Longrightarrow> run p cs w = (r, cs', w') \<Longrightarrow> w' = w"
proof -
  have "(=)\<^sup>*\<^sup>* w w' \<Longrightarrow> w' = w" by (induction rule: rtranclp_induct) auto
  moreover assume "reads p" "run p cs w = (r, cs', w')"
  with does_run [of "\<lambda>_. True" "(=)" "\<lambda>_. True" p cs w] have "(=)\<^sup>*\<^sup>* w w'" by (simp add: list_all_iff)
  ultimately show ?thesis .
qed

lemma reads_query: "reads (query f)"
  by (simp add: query_def call_def does_Await split: choice.split)

lemma reads_bind: "reads p \<Longrightarrow> (\<And>a. reads (k a)) \<Longrightarrow> reads (bindP p k)"
  by (rule does_bindP [where P = "\<lambda>_. True"]) auto

lemma reads_try: "reads p \<Longrightarrow> (\<And>a. reads (k a)) \<Longrightarrow> (\<And>e. reads (h e)) \<Longrightarrow> reads (tryP p h k)"
  by (rule does_tryP [where P = "\<lambda>_. True"]) auto

lemmas reads_intros = reads_bind reads_try reads_query

lemma reads_simps [simp]: "reads (db_read f)" "reads (in_thread r)"
  by (simp_all add: db_read_def in_thread_def reads_query)

lemma reads_guard: "reads (require_permission au now permission credentials)"
  unfolding require_permission_def get_current_user_def resolve_principal_def catchP_def
  by (auto intro!: reads_intros simp: forbidden_def unauthenticated_def split: option.split)

lemma reads_login: "reads (login au now email password)"
  unfolding login_def Let_def by (auto intro!: reads_intros split: option.split)

lemma reads_search: "reads (search se q caller)"
  unfolding search_def Let_def by (auto intro!: reads_intros)

lemmas read_routes = list_route_def get_route_def login_route_def search_route_def run_agent_def get_agent_status_def
  list_sessions_def create_session_def unbuilt_route_def list_user_documents_def get_document_def

fun writes :: "request \<Rightarrow> bool" where
  "writes (Register body) = True"
| "writes (UploadDocument filename stream) = True"
| "writes (DeleteDocument d) = True"
| "writes request = False"

lemma reads_serve: "\<not> writes request \<Longrightarrow> reads (serve app now credentials rnd new_id request)"
  by (cases request) (auto intro!: reads_intros reads_guard reads_login reads_search
    simp: serve_def answer_def read_routes Let_def split: option.split sum.split)

section \<open>The guard comes first\<close>

lemmas guarded_routes = upload_route_def delete_route_def read_routes

lemma refused_by_the_guard:
  assumes "rt_permission (route_of request) = Some permission"
    and "run (require_permission (app_auth app) now permission credentials) cs w = (Inl refusal, cs', w')"
  shows "run (serve app now credentials rnd new_id request) cs w = (Inl refusal, cs', w')"
  using assms by (cases request) (auto simp: serve_def answer_def guarded_routes run_bindP Let_def split: sum.split)

lemma run_answer: "run (answer f p) cs w = (result, cs', w') \<Longrightarrow> \<exists>r. run p cs w = (r, cs', w')"
  by (auto simp: answer_def run_bindP split: sum.splits prod.splits)

section \<open>Properties\<close>


text \<open>
  C27. What a request can change. Whatever is sent and whatever fails, if serving a request changed
  anything, then it was a registration, or an upload or a deletion by a caller who is an active
  administrator or researcher in the database at that moment. Every other request only reads.
\<close>

theorem requests_change_what_they_may:
  assumes "wf_db (w_db w)" and "run (serve app now credentials rnd new_id request) cs w = (result, cs', w')" and "w' \<noteq> w"
  shows "(\<exists>body. request = Register body)
    \<or> ((\<exists>filename stream. request = UploadDocument filename stream) \<or> (\<exists>d. request = DeleteDocument d))
      \<and> (\<exists>caller cs1. run (require_permission (app_auth app) now DOCUMENT_WRITE credentials) cs w = (Inr caller, cs1, w)
          \<and> (\<exists>r \<in> set (db_users (w_db w)). usr_is_active r \<and> usr_role r \<noteq> VIEWER \<and> p_user_id caller = uuid_str (usr_id r)))"
proof -
  from assms(2,3) reads_run [OF reads_serve] have "writes request" by blast
  then consider body where "request = Register body" | filename stream where "request = UploadDocument filename stream"
    | d where "request = DeleteDocument d" by (cases request) auto
  then show ?thesis
  proof cases
    case 2
    with assms(2) run_answer obtain r where "run (upload_route (app_service app) (app_uploads app) (app_auth app) now credentials
        new_id filename stream) cs w = (r, cs', w')" by (fastforce simp: serve_def)
    from writer_passed [OF this [unfolded upload_route_def] assms(1,3)] 2 show ?thesis by blast
  next
    case 3
    with assms(2) run_answer obtain r where "run (delete_route (app_service app) (app_auth app) now credentials d) cs w = (r, cs', w')"
      by (fastforce simp: serve_def)
    from writer_passed [OF this [unfolded delete_route_def] assms(1,3)] 3 show ?thesis by blast
  qed blast
qed

section \<open>Examples\<close>

definition example_application :: "((ustr \<Rightarrow> (vector \<times> mapping) option), IngestionJob list) application" where
  "example_application = \<lparr>app_service = example_service, app_uploads = example_uploads, app_auth = example_auth,
     app_retrieval = None\<rparr>"


theorem requests_change_what_they_may_witness:
  "\<exists>token caller cs1. run (require_permission example_auth 5 DOCUMENT_WRITE (Some token)) [] example_before = (Inr caller, cs1, example_before)
    \<and> fst (run (serve example_application 5 (Some token) 0 7 (DeleteDocument (uuid_str 2))) [] example_before) = Inr (204, NoContent)"
proof (rule example_deletion)
  fix token and w :: "(ustr \<Rightarrow> (vector \<times> mapping) option, IngestionJob list) world"
  assume d: "run (delete_route example_service example_auth 5 (Some token) (uuid_str 2)) [] example_before = (Inr (204, ()), [], w)"
    and changed: "w \<noteq> example_before"
  then have served: "run (serve example_application 5 (Some token) 0 7 (DeleteDocument (uuid_str 2))) [] example_before
      = (Inr (204, NoContent), [], w)"
    by (simp add: serve_def answer_def example_application_def run_bindP)
  from requests_change_what_they_may [OF example_before_wf served changed] served
  show ?thesis by (intro exI [of _ token]) (auto simp: example_application_def)
qed

end
