(* ===== verification/Processes.thy ===== *)
theory Processes
  imports Application
begin

text \<open>
  The resources a process owns: the Qdrant client its composition root builds and the database
  engine that \<open>get_engine\<close> caches on first use. \<open>backend/api/app.py\<close> (the lifespan),
  \<open>backend/db/engine.py\<close>, and \<open>shutdown\<close> of \<open>backend/ingestion/worker.py\<close>. Clients are numbered in
  the order they are built.
\<close>

section \<open>State\<close>

record 'q process =
  ps_retrieval :: "('q retrieval_resources \<times> nat) option"
  ps_open :: "nat list"
  ps_built :: nat
  ps_engine :: bool

definition no_resources :: "'q process" where
  "no_resources = \<lparr>ps_retrieval = None, ps_open = [], ps_built = 0, ps_engine = False\<rparr>"

definition get_engine :: "'q process \<Rightarrow> 'q process" where
  "get_engine p = p\<lparr>ps_engine := True\<rparr>"

definition dispose_engine :: "('q process, unit) prog" where
  "dispose_engine = call (\<lambda>p. if ps_engine p then (Inr (), p\<lparr>ps_engine := False\<rparr>) else (Inr (), p))"

definition aclose :: "nat \<Rightarrow> ('q process, unit) prog" where
  "aclose client = call (\<lambda>p. (Inr (), p\<lparr>ps_open := filter (\<lambda>c. c \<noteq> client) (ps_open p)\<rparr>))"

definition lifespan_startup :: "'q outside \<Rightarrow> Settings \<Rightarrow> 'q process \<Rightarrow> (exn, nat) result \<times> 'q process" where
  "lifespan_startup out s p =
     (case build_retrieval_resources out s of
        Inl e \<Rightarrow> (Inl e, p)
      | Inr rv \<Rightarrow>
          (Inr (ps_built p),
           p\<lparr>ps_retrieval := Some (rv, ps_built p), ps_open := ps_built p # ps_open p, ps_built := Suc (ps_built p)\<rparr>))"

text \<open>\<open>del app.state.retrieval\<close> runs before the first \<open>await\<close>.\<close>

definition forget_retrieval :: "'q process \<Rightarrow> 'q process" where
  "forget_retrieval p = p\<lparr>ps_retrieval := None\<rparr>"

definition lifespan_shutdown :: "nat \<Rightarrow> ('q process, unit) prog" where
  "lifespan_shutdown client = bindP (aclose client) (\<lambda>_. dispose_engine)"

text \<open>The worker: \<open>ctx["qdrant_client"]\<close> is there only if startup came that far.\<close>

definition shutdown :: "nat option \<Rightarrow> ('q process, unit) prog" where
  "shutdown client = (case client of None \<Rightarrow> dispose_engine | Some c \<Rightarrow> bindP (aclose c) (\<lambda>_. dispose_engine))"

section \<open>The life of an API process\<close>

datatype 'q phase = Booting | Serving nat | Stopping "('q process, unit) prog" | Stopped "(exn, unit) result"

inductive process_step ::
  "'q outside \<Rightarrow> Settings \<Rightarrow> 'q phase \<times> 'q process \<Rightarrow> 'q phase \<times> 'q process \<Rightarrow> bool" for out s where
  boot: "lifespan_startup out s p = (Inr client, p') \<Longrightarrow> process_step out s (Booting, p) (Serving client, p')"
| refuse: "lifespan_startup out s p = (Inl e, p') \<Longrightarrow> process_step out s (Booting, p) (Stopped (Inl e), p')"
| query_database: "process_step out s (Serving client, p) (Serving client, get_engine p)"
| stop: "process_step out s (Serving client, p) (Stopping (lifespan_shutdown client), forget_retrieval p)"
| await: "f c p = (p', q) \<Longrightarrow> process_step out s (Stopping (Await f), p) (Stopping q, p')"
| stopped: "process_step out s (Stopping (Return ()), p) (Stopped (Inr ()), p)"
| failed: "process_step out s (Stopping (Raise e), p) (Stopped (Inl e), p)"

inductive_cases process_stepE: "process_step out s (phase, p) (phase', p')"

text \<open>What a shutdown that is under way still has to release.\<close>

definition will_release :: "nat list \<Rightarrow> ('q process, unit) prog \<Rightarrow> 'q process \<Rightarrow> bool" where
  "will_release left q p \<longleftrightarrow>
     (left = [] \<and> q = Return () \<and> ps_open p = [] \<and> \<not> ps_engine p)
     \<or> ((\<exists>e. q = Raise e) \<and> length (ps_open p) \<le> 1)
     \<or> (q = dispose_engine \<and> ps_open p = [])
     \<or> (\<exists>c. q = lifespan_shutdown c \<and> ps_open p = [c])"

fun owns :: "'q phase \<Rightarrow> 'q process \<Rightarrow> bool" where
  "owns Booting p = (p = no_resources)"
| "owns (Serving c) p = (\<exists>rv. ps_retrieval p = Some (rv, c) \<and> ps_open p = [c])"
| "owns (Stopping q) p = (ps_retrieval p = None \<and> will_release [] q p)"
| "owns (Stopped r) p = (ps_retrieval p = None \<and> length (ps_open p) \<le> 1 \<and> (r = Inr () \<longrightarrow> ps_open p = [] \<and> \<not> ps_engine p))"

lemma shutdown_steps:
  assumes "will_release [] (Await f) p" and "f c p = (p', q)"
  shows "will_release [] q p' \<and> ps_retrieval p' = ps_retrieval p"
proof -
  from assms(1) consider "Await f = dispose_engine" "ps_open p = []"
    | k where "Await f = lifespan_shutdown k" "ps_open p = [k]"
    by (auto simp: will_release_def)
  then show ?thesis
    using assms(2) by cases (cases c; force simp: will_release_def dispose_engine_def lifespan_shutdown_def aclose_def call_def bindP_def
      split: if_splits)+
qed

lemma owns_step:
  assumes "process_step out s x x'" and "owns (fst x) (snd x)"
  shows "owns (fst x') (snd x')"
  using assms
  by (induction rule: process_step.induct)
    (auto simp: lifespan_startup_def no_resources_def get_engine_def forget_retrieval_def split: sum.splits dest: shutdown_steps,
     auto simp: will_release_def dispose_engine_def call_def lifespan_shutdown_def aclose_def bindP_def)

theorem requests_never_see_a_closed_client:
  assumes "(process_step out s)\<^sup>*\<^sup>* (Booting, no_resources) (phase, p)"
  shows "(\<forall>rv c. ps_retrieval p = Some (rv, c) \<longrightarrow> c \<in> set (ps_open p)) \<and> length (ps_open p) \<le> 1
    \<and> (phase = Stopped (Inr ()) \<longrightarrow> ps_open p = [] \<and> \<not> ps_engine p)"
proof -
  have "owns phase p" using assms
    by (induction "(phase, p)" arbitrary: phase p rule: rtranclp_induct) (auto dest!: owns_step)
  then show ?thesis
    by (cases phase) (auto simp: no_resources_def will_release_def)
qed

text \<open>
  The lifespan says that a restarting container leaves no sockets open. If closing the Qdrant client
  raises, \<open>dispose_engine\<close> is never awaited and the database pool stays; the worker does the same.
\<close>

lemma failed_close_keeps_the_pool:
  "run (lifespan_shutdown c) [FailBefore e] p = (Inl e, [], p)"
  "run (shutdown (Some c)) [FailBefore e] p = (Inl e, [], p)"
  by (simp_all add: lifespan_shutdown_def shutdown_def aclose_def run_simps)

lemma undisturbed_shutdown:
  "run (shutdown client) [] p = (Inr (), [], p\<lparr>ps_open := (case client of None \<Rightarrow> ps_open p | Some c \<Rightarrow> filter (\<lambda>x. x \<noteq> c) (ps_open p)),
     ps_engine := False\<rparr>)"
  by (cases client) (simp_all add: shutdown_def aclose_def dispose_engine_def run_simps)

end
