(* ===== verification/Agents.thy ===== *)
theory Agents
  imports Domain Uuid
begin

text \<open>
  The agent scaffold: \<open>agents/*/\<close>, \<open>backend/services/agent_service.py\<close>, and what of the MCP adapter is
  written, \<open>mcp_server/\<close>. The nine agents are copies of one class that differ in their names; none
  calls a model yet, and the API answers 501 before it reaches them. The lemmas say what they do now.
\<close>

section \<open>The agents\<close>

datatype agent =
  OrchestratorAgent | RouterAgent | SummarizerAgent | CitationAgent | PaperComparisonAgent | SemanticSearchAgent | KnowledgeGraphAgent | ResearchGapAgent | MemoryAgent

fun agent_name :: "agent \<Rightarrow> ustr" where
  "agent_name OrchestratorAgent = py_str ''orchestrator''"
| "agent_name RouterAgent = py_str ''router''"
| "agent_name SummarizerAgent = py_str ''summarizer''"
| "agent_name CitationAgent = py_str ''citation''"
| "agent_name PaperComparisonAgent = py_str ''paper_comparison''"
| "agent_name SemanticSearchAgent = py_str ''semantic_search''"
| "agent_name KnowledgeGraphAgent = py_str ''knowledge_graph''"
| "agent_name ResearchGapAgent = py_str ''research_gap''"
| "agent_name MemoryAgent = py_str ''memory''"

text \<open>The name of the class, which is how the prompt calls the agent.\<close>

fun agent_title :: "agent \<Rightarrow> ustr" where
  "agent_title OrchestratorAgent = py_str ''Orchestrator''"
| "agent_title RouterAgent = py_str ''Router''"
| "agent_title SummarizerAgent = py_str ''Summarizer''"
| "agent_title CitationAgent = py_str ''Citation''"
| "agent_title PaperComparisonAgent = py_str ''PaperComparison''"
| "agent_title SemanticSearchAgent = py_str ''SemanticSearch''"
| "agent_title KnowledgeGraphAgent = py_str ''KnowledgeGraph''"
| "agent_title ResearchGapAgent = py_str ''ResearchGap''"
| "agent_title MemoryAgent = py_str ''Memory''"

fun agent_description :: "agent \<Rightarrow> ustr" where
  "agent_description OrchestratorAgent = py_str ''orchestrate multi-agent research workflows''"
| "agent_description RouterAgent = py_str ''route user requests to the correct specialized agent''"
| "agent_description SummarizerAgent = py_str ''summarize research papers and documents''"
| "agent_description CitationAgent = py_str ''extract and format citations from documents''"
| "agent_description PaperComparisonAgent = py_str ''compare multiple research papers''"
| "agent_description SemanticSearchAgent = py_str ''perform semantic similarity search across papers''"
| "agent_description KnowledgeGraphAgent = py_str ''build and query knowledge graphs from papers''"
| "agent_description ResearchGapAgent = py_str ''detect research gaps across document corpora''"
| "agent_description MemoryAgent = py_str ''manage session memory and long-term context''"

definition newline :: ustr where "newline = [10]"

definition SYSTEM_PROMPT :: "agent \<Rightarrow> ustr" where
  "SYSTEM_PROMPT a =
     py_str ''You are the '' @ agent_title a @ py_str '' agent in ResearchMind MCP.'' @ newline
     @ py_str ''Your role: '' @ agent_description a @ py_str ''.'' @ newline
     @ py_str ''Always respond in structured format unless instructed otherwise.'' @ newline"

definition build_prompt :: "agent \<Rightarrow> ustr \<Rightarrow> ustr \<Rightarrow> ustr" where
  "build_prompt a task context_text =
     SYSTEM_PROMPT a @ newline @ newline @ py_str ''Task: '' @ task @ newline @ newline
     @ py_str ''Context:'' @ newline @ context_text"

record AgentInput =
  ai_session_id :: ustr
  ai_user_id :: ustr
  ai_task :: ustr
  ai_payload :: "(ustr \<times> json) list"
  ai_context :: "(ustr \<times> json) list list"
  ai_metadata :: "(ustr \<times> json) list"

record AgentOutput =
  ao_agent_name :: ustr
  ao_session_id :: ustr
  ao_success :: bool
  ao_result :: json
  ao_error :: "ustr option"
  ao_tokens_used :: int
  ao_latency_ms :: rat
  ao_created_at :: int

text \<open>
  \<open>try\<close> binds \<open>result = None\<close> and builds the output; \<open>started\<close> and \<open>finished\<close> are the two readings of
  the monotonic clock, in seconds.
\<close>

definition attempt :: "AgentInput \<Rightarrow> (ustr, json) result" where
  "attempt input = Inr JNull"

definition agent_run :: "agent \<Rightarrow> AgentInput \<Rightarrow> rat \<Rightarrow> rat \<Rightarrow> int \<Rightarrow> AgentOutput" where
  "agent_run a input started finished now =
     (case attempt input of
        Inr answer \<Rightarrow>
          \<lparr>ao_agent_name = agent_name a, ao_session_id = ai_session_id input, ao_success = True, ao_result = answer,
           ao_error = None, ao_tokens_used = 0, ao_latency_ms = (finished - started) * 1000, ao_created_at = now\<rparr>
      | Inl message \<Rightarrow>
          \<lparr>ao_agent_name = agent_name a, ao_session_id = ai_session_id input, ao_success = False, ao_result = JNull,
           ao_error = Some message, ao_tokens_used = 0, ao_latency_ms = (finished - started) * 1000, ao_created_at = now\<rparr>)"

definition orchestrator_run where "orchestrator_run = agent_run OrchestratorAgent"
definition router_run where "router_run = agent_run RouterAgent"
definition summarizer_run where "summarizer_run = agent_run SummarizerAgent"
definition citation_run where "citation_run = agent_run CitationAgent"
definition paper_comparison_run where "paper_comparison_run = agent_run PaperComparisonAgent"
definition semantic_search_run where "semantic_search_run = agent_run SemanticSearchAgent"
definition knowledge_graph_run where "knowledge_graph_run = agent_run KnowledgeGraphAgent"
definition research_gap_run where "research_gap_run = agent_run ResearchGapAgent"
definition memory_run where "memory_run = agent_run MemoryAgent"

lemmas agent_runs = orchestrator_run_def router_run_def summarizer_run_def citation_run_def paper_comparison_run_def
  semantic_search_run_def knowledge_graph_run_def research_gap_run_def memory_run_def

text \<open>\<open>session_id or generate_id()\<close>: an empty id is replaced as well as a missing one.\<close>

definition AgentService_run ::
  "ustr \<Rightarrow> ustr list \<Rightarrow> ustr \<Rightarrow> ustr option \<Rightarrow> uuid \<Rightarrow> rat \<Rightarrow> rat \<Rightarrow> int \<Rightarrow> AgentOutput" where
  "AgentService_run task document_ids user_id session_id generated started finished now =
     (let session = (case session_id of None \<Rightarrow> uuid_str generated | Some s \<Rightarrow> if s = [] then uuid_str generated else s) in
      orchestrator_run \<lparr>ai_session_id = session, ai_user_id = user_id, ai_task = task,
        ai_payload = [(py_str ''document_ids'', JList (map JStr document_ids))], ai_context = [], ai_metadata = []\<rparr>
        started finished now)"

lemma agents_have_different_names: "agent_name a = agent_name b \<longleftrightarrow> a = b"
  by (cases a; cases b) (simp_all add: py_str_def)

text \<open>
  An agent reports success without having done anything: whatever the task, the output says that it
  succeeded, and there is no result in it.
\<close>

lemma agents_report_success:
  "ao_success (agent_run a input started finished now)"
  "ao_result (agent_run a input started finished now) = JNull"
  "ao_error (agent_run a input started finished now) = None"
  "ao_session_id (agent_run a input started finished now) = ai_session_id input"
  by (simp_all add: agent_run_def attempt_def)

lemma service_runs_the_orchestrator:
  "ao_agent_name (AgentService_run task ids user session generated t0 t1 now) = py_str ''orchestrator''"
  "ao_session_id (AgentService_run task ids user session generated t0 t1 now) \<noteq> []"
  by (auto simp: AgentService_run_def agent_runs agent_run_def attempt_def Let_def split: option.split)
    (metis length_uuid_str list.size(3) zero_neq_numeral)+

section \<open>The MCP adapter\<close>

definition list_tools :: "ustr list" where
  "list_tools = map py_str [''summarize_paper'', ''extract_citations'', ''compare_papers'', ''semantic_search'',
     ''build_knowledge_graph'', ''detect_research_gaps'', ''generate_research_questions'']"

text \<open>Each tool module has a handler; the server's dispatcher does not call it and returns \<open>None\<close>.\<close>

definition tool_handler :: "(ustr \<times> json) list \<Rightarrow> ustr list" where
  "tool_handler arguments = [py_str ''Not yet implemented'']"

definition call_tool :: "ustr \<Rightarrow> (ustr \<times> json) list \<Rightarrow> ustr list option" where
  "call_tool name arguments = None"

definition argument_or :: "(ustr \<times> ustr) list \<Rightarrow> string \<Rightarrow> ustr \<Rightarrow> ustr" where
  "argument_or arguments name otherwise = (case map_of arguments (py_str name) of None \<Rightarrow> otherwise | Some v \<Rightarrow> v)"

definition render_summarization :: "(ustr \<times> ustr) list \<Rightarrow> ustr list" where
  "render_summarization arguments =
     [py_str ''Summarize document '' @ argument_or arguments ''document_id'' [] @ py_str '' with ''
      @ argument_or arguments ''depth'' (py_str ''detailed'')
      @ py_str '' depth. Include: objective, methodology, findings, limitations.'']"

lemma tools_are_advertised_once: "distinct list_tools"
  by (simp add: list_tools_def py_str_def)

lemma no_tool_answers: "name \<in> set list_tools \<Longrightarrow> call_tool name arguments = None"
  by (simp add: call_tool_def)

lemma summarization_is_detailed_by_default:
  "map_of arguments (py_str ''depth'') = None \<Longrightarrow>
     render_summarization arguments = render_summarization ((py_str ''depth'', py_str ''detailed'') # arguments)"
  by (simp add: render_summarization_def argument_or_def py_str_def)

end
