(* ===== verification/Catalogue.thy ===== *)
theory Catalogue
  imports Agents Settings
begin

text \<open>
  What the program declares for clients that do not call it yet: the configuration, the prompt and the
  interface of each agent (\<open>agents/*/\<close>), the tools, prompts and resources of the MCP adapter
  (\<open>mcp_server/\<close>), and the session memory (\<open>memory_system/redis/\<close>), of which the keys are written and the
  operations are stubs. A stub's body is an ellipsis, so that it returns \<open>None\<close>.
\<close>

section \<open>Agents\<close>

record AgentConfig =
  ac_name :: ustr
  ac_model :: ustr
  ac_max_tokens :: int
  ac_temperature :: rat
  ac_timeout_seconds :: int
  ac_retry_attempts :: int
  ac_enabled :: bool

text \<open>The fields that no agent sets have the class's defaults.\<close>

definition mk_agent_config :: "string \<Rightarrow> string \<Rightarrow> int \<Rightarrow> rat \<Rightarrow> int \<Rightarrow> AgentConfig" where
  "mk_agent_config name model max_tokens temperature timeout_seconds =
     \<lparr>ac_name = py_str name, ac_model = py_str model, ac_max_tokens = max_tokens, ac_temperature = temperature,
      ac_timeout_seconds = timeout_seconds, ac_retry_attempts = 3, ac_enabled = True\<rparr>"

definition orchestrator_config where "orchestrator_config = mk_agent_config ''orchestrator'' ''claude-sonnet-4-20250514'' 4096 (3 / 10) 120"
definition router_config where "router_config = mk_agent_config ''router'' ''claude-sonnet-4-20250514'' 4096 (3 / 10) 120"
definition summarizer_config where "summarizer_config = mk_agent_config ''summarizer'' ''claude-sonnet-4-20250514'' 4096 (3 / 10) 120"
definition citation_config where "citation_config = mk_agent_config ''citation'' ''claude-sonnet-4-20250514'' 4096 (3 / 10) 120"
definition paper_comparison_config where "paper_comparison_config = mk_agent_config ''paper_comparison'' ''claude-sonnet-4-20250514'' 4096 (3 / 10) 120"
definition semantic_search_config where "semantic_search_config = mk_agent_config ''semantic_search'' ''claude-sonnet-4-20250514'' 4096 (3 / 10) 120"
definition knowledge_graph_config where "knowledge_graph_config = mk_agent_config ''knowledge_graph'' ''claude-sonnet-4-20250514'' 4096 (3 / 10) 120"
definition research_gap_config where "research_gap_config = mk_agent_config ''research_gap'' ''claude-sonnet-4-20250514'' 4096 (3 / 10) 120"
definition memory_config where "memory_config = mk_agent_config ''memory'' ''claude-sonnet-4-20250514'' 4096 (3 / 10) 120"

definition agent_configs :: "AgentConfig list" where
  "agent_configs = [orchestrator_config, router_config, summarizer_config, citation_config, paper_comparison_config, semantic_search_config, knowledge_graph_config, research_gap_config, memory_config]"

text \<open>Each agent has its own prompt module and its own interface; they differ in the names.\<close>

definition router_prompt where "router_prompt = build_prompt RouterAgent"
definition summarizer_prompt where "summarizer_prompt = build_prompt SummarizerAgent"
definition citation_prompt where "citation_prompt = build_prompt CitationAgent"
definition paper_comparison_prompt where "paper_comparison_prompt = build_prompt PaperComparisonAgent"
definition semantic_search_prompt where "semantic_search_prompt = build_prompt SemanticSearchAgent"
definition knowledge_graph_prompt where "knowledge_graph_prompt = build_prompt KnowledgeGraphAgent"
definition research_gap_prompt where "research_gap_prompt = build_prompt ResearchGapAgent"
definition memory_prompt where "memory_prompt = build_prompt MemoryAgent"

definition router_interface where "router_interface = (agent_name RouterAgent, agent_description RouterAgent)"
definition summarizer_interface where "summarizer_interface = (agent_name SummarizerAgent, agent_description SummarizerAgent)"
definition citation_interface where "citation_interface = (agent_name CitationAgent, agent_description CitationAgent)"
definition paper_comparison_interface where "paper_comparison_interface = (agent_name PaperComparisonAgent, agent_description PaperComparisonAgent)"
definition semantic_search_interface where "semantic_search_interface = (agent_name SemanticSearchAgent, agent_description SemanticSearchAgent)"
definition knowledge_graph_interface where "knowledge_graph_interface = (agent_name KnowledgeGraphAgent, agent_description KnowledgeGraphAgent)"
definition research_gap_interface where "research_gap_interface = (agent_name ResearchGapAgent, agent_description ResearchGapAgent)"
definition memory_interface where "memory_interface = (agent_name MemoryAgent, agent_description MemoryAgent)"

text \<open>No agent runs under the configuration of another.\<close>

lemma configs_name_their_agents: "map ac_name agent_configs = map agent_name
  [OrchestratorAgent, RouterAgent, SummarizerAgent, CitationAgent, PaperComparisonAgent, SemanticSearchAgent,
   KnowledgeGraphAgent, ResearchGapAgent, MemoryAgent]"
  by (simp add: agent_configs_def mk_agent_config_def orchestrator_config_def router_config_def summarizer_config_def citation_config_def paper_comparison_config_def semantic_search_config_def knowledge_graph_config_def research_gap_config_def memory_config_def del: py_str_simps)

section \<open>The tools of the MCP adapter\<close>

text \<open>A field of an input model: its name and whether it is required.\<close>

record tool_schema =
  tool_name :: ustr
  tool_description :: ustr
  tool_input :: "(ustr \<times> bool) list"

definition mk_tool :: "string \<Rightarrow> tool_schema" where
  "mk_tool name =
     \<lparr>tool_name = py_str name,
      tool_description = py_str ''MCP tool for '' @ py_str name @ py_str '' '' @ [8212] @ py_str '' connects to the agent layer'',
      tool_input = [(py_str ''document_ids'', True), (py_str ''options'', False)]\<rparr>"

definition summarize_paper_schema where "summarize_paper_schema = mk_tool ''summarize_paper''"
definition summarize_paper_handler where "summarize_paper_handler = tool_handler"
definition extract_citations_schema where "extract_citations_schema = mk_tool ''extract_citations''"
definition extract_citations_handler where "extract_citations_handler = tool_handler"
definition compare_papers_schema where "compare_papers_schema = mk_tool ''compare_papers''"
definition compare_papers_handler where "compare_papers_handler = tool_handler"
definition semantic_search_schema where "semantic_search_schema = mk_tool ''semantic_search''"
definition semantic_search_handler where "semantic_search_handler = tool_handler"
definition build_knowledge_graph_schema where "build_knowledge_graph_schema = mk_tool ''build_knowledge_graph''"
definition build_knowledge_graph_handler where "build_knowledge_graph_handler = tool_handler"
definition detect_research_gaps_schema where "detect_research_gaps_schema = mk_tool ''detect_research_gaps''"
definition detect_research_gaps_handler where "detect_research_gaps_handler = tool_handler"
definition generate_research_questions_schema where "generate_research_questions_schema = mk_tool ''generate_research_questions''"
definition generate_research_questions_handler where "generate_research_questions_handler = tool_handler"

definition tool_schemas :: "tool_schema list" where
  "tool_schemas = [summarize_paper_schema, extract_citations_schema, compare_papers_schema, semantic_search_schema, build_knowledge_graph_schema, detect_research_gaps_schema, generate_research_questions_schema]"

lemma schemas_of_the_tools: "map tool_name tool_schemas = list_tools"
  by (simp add: tool_schemas_def list_tools_def mk_tool_def summarize_paper_schema_def extract_citations_schema_def compare_papers_schema_def semantic_search_schema_def build_knowledge_graph_schema_def detect_research_gaps_schema_def generate_research_questions_schema_def del: py_str_simps)

section \<open>The prompts of the MCP adapter\<close>

record prompt_argument =
  pa_name :: ustr
  pa_required :: bool
  pa_description :: ustr

record prompt_schema =
  ps_name :: ustr
  ps_description :: ustr
  ps_arguments :: "prompt_argument list"

definition mk_prompt :: "string \<Rightarrow> string \<Rightarrow> (string \<times> bool \<times> string) list \<Rightarrow> prompt_schema" where
  "mk_prompt name description arguments =
     \<lparr>ps_name = py_str name, ps_description = py_str description,
      ps_arguments = map (\<lambda>(n, r, d). \<lparr>pa_name = py_str n, pa_required = r, pa_description = py_str d\<rparr>) arguments\<rparr>"

definition summarization_prompt_schema :: prompt_schema where
  "summarization_prompt_schema = mk_prompt ''summarization_prompt'' ''Generate a structured research paper summary''
     [(''document_id'', True, ''Target document ID''),
      (''depth'', False, ''Summary depth: brief|detailed'')]"

definition scientific_reviewer_prompt_schema :: prompt_schema where
  "scientific_reviewer_prompt_schema = mk_prompt ''scientific_reviewer_prompt'' ''Act as a scientific peer reviewer''
     [(''document_id'', True, ''Paper to review'')]"

definition render_scientific_reviewer_prompt :: "(ustr \<times> ustr) list \<Rightarrow> ustr list" where
  "render_scientific_reviewer_prompt arguments = []"

definition citation_extraction_prompt_schema :: prompt_schema where
  "citation_extraction_prompt_schema = mk_prompt ''citation_extraction_prompt'' ''Extract and format all citations from a document''
     [(''document_id'', True, ''Document to extract from''),
      (''format'', False, ''Output format: APA|MLA|Chicago'')]"

definition render_citation_extraction_prompt :: "(ustr \<times> ustr) list \<Rightarrow> ustr list" where
  "render_citation_extraction_prompt arguments = []"

definition research_gap_prompt_schema :: prompt_schema where
  "research_gap_prompt_schema = mk_prompt ''research_gap_prompt'' ''Identify research gaps across a set of papers''
     [(''document_ids'', True, ''Comma-separated document IDs'')]"

definition render_research_gap_prompt :: "(ustr \<times> ustr) list \<Rightarrow> ustr list" where
  "render_research_gap_prompt arguments = []"

definition paper_comparison_prompt_schema :: prompt_schema where
  "paper_comparison_prompt_schema = mk_prompt ''paper_comparison_prompt'' ''Compare two or more research papers side by side''
     [(''document_ids'', True, ''Papers to compare''),
      (''criteria'', False, ''Comparison dimensions'')]"

definition render_paper_comparison_prompt :: "(ustr \<times> ustr) list \<Rightarrow> ustr list" where
  "render_paper_comparison_prompt arguments = []"

definition question_generation_prompt_schema :: prompt_schema where
  "question_generation_prompt_schema = mk_prompt ''question_generation_prompt'' ''Generate insightful research questions from papers''
     [(''document_id'', True, ''Source document''),
      (''count'', False, ''Number of questions to generate'')]"

definition render_question_generation_prompt :: "(ustr \<times> ustr) list \<Rightarrow> ustr list" where
  "render_question_generation_prompt arguments = []"

definition prompt_schemas :: "prompt_schema list" where
  "prompt_schemas = [summarization_prompt_schema, scientific_reviewer_prompt_schema, citation_extraction_prompt_schema, research_gap_prompt_schema, paper_comparison_prompt_schema, question_generation_prompt_schema]"

section \<open>The resources of the MCP adapter\<close>

record resource_schema =
  rc_uri :: ustr
  rc_name :: ustr
  rc_description :: ustr
  rc_mime_type :: ustr

definition mk_resource :: "string \<Rightarrow> resource_schema" where
  "mk_resource name =
     \<lparr>rc_uri = py_str ''research://'' @ py_str name, rc_name = py_str name,
      rc_description = py_str ''MCP resource for '' @ py_str name, rc_mime_type = py_str ''application/json''\<rparr>"

text \<open>Reading a resource answers an empty JSON object, whatever the URI.\<close>

definition read_resource_stub :: "ustr \<Rightarrow> ustr" where
  "read_resource_stub uri = py_str ''{}''"

definition pdf_resource_schema where "pdf_resource_schema = mk_resource ''pdf_resource''"
definition read_pdf_resource where "read_pdf_resource = read_resource_stub"
definition paper_resource_schema where "paper_resource_schema = mk_resource ''paper_resource''"
definition read_paper_resource where "read_paper_resource = read_resource_stub"
definition notes_resource_schema where "notes_resource_schema = mk_resource ''notes_resource''"
definition read_notes_resource where "read_notes_resource = read_resource_stub"
definition metadata_resource_schema where "metadata_resource_schema = mk_resource ''metadata_resource''"
definition read_metadata_resource where "read_metadata_resource = read_resource_stub"
definition knowledge_graph_resource_schema where "knowledge_graph_resource_schema = mk_resource ''knowledge_graph_resource''"
definition read_knowledge_graph_resource where "read_knowledge_graph_resource = read_resource_stub"

definition resource_schemas :: "resource_schema list" where
  "resource_schemas = [pdf_resource_schema, paper_resource_schema, notes_resource_schema, metadata_resource_schema, knowledge_graph_resource_schema]"

text \<open>What a client looks up by name or URI is there once.\<close>

lemma catalogue_is_unambiguous:
  "distinct (map tool_name tool_schemas)" "distinct (map ps_name prompt_schemas)" "distinct (map rc_uri resource_schemas)"
  by code_simp+

text \<open>Every prompt says what has to be given: its first argument is required, and no other one is.\<close>

lemma prompts_require_their_document:
  "list_all (\<lambda>p. \<exists>a as. ps_arguments p = a # as \<and> pa_required a \<and> list_all (\<lambda>x. \<not> pa_required x) as) prompt_schemas"
  by (simp add: prompt_schemas_def mk_prompt_def summarization_prompt_schema_def scientific_reviewer_prompt_schema_def citation_extraction_prompt_schema_def research_gap_prompt_schema_def paper_comparison_prompt_schema_def question_generation_prompt_schema_def del: py_str_simps)

section \<open>The other entry points of the server\<close>

definition list_resources :: "resource_schema list option" where "list_resources = None"
definition read_resource :: "ustr \<Rightarrow> ustr option" where "read_resource uri = None"
definition list_prompts :: "prompt_schema list option" where "list_prompts = None"
definition get_prompt :: "ustr \<Rightarrow> (ustr \<times> ustr) list \<Rightarrow> ustr option" where "get_prompt name arguments = None"

section \<open>Session memory\<close>

record RedisConfig =
  rd_host :: ustr
  rd_port :: int
  rd_db :: int
  rd_default_ttl :: int
  rd_key_prefix :: ustr

definition mk_redis_config :: "Settings \<Rightarrow> RedisConfig" where
  "mk_redis_config s = \<lparr>rd_host = REDIS_HOST s, rd_port = REDIS_PORT s, rd_db = REDIS_DB s, rd_default_ttl = REDIS_TTL s,
     rd_key_prefix = py_str ''researchmind''\<rparr>"

definition memory_key :: "RedisConfig \<Rightarrow> ustr \<Rightarrow> ustr" where
  "memory_key c k = rd_key_prefix c @ py_str '':'' @ k"

definition memory_set :: "ustr \<Rightarrow> json \<Rightarrow> int option \<Rightarrow> bool option" where "memory_set k v ttl = None"
definition memory_get :: "ustr \<Rightarrow> json option" where "memory_get k = None"
definition memory_delete :: "ustr \<Rightarrow> bool option" where "memory_delete k = None"
definition memory_exists :: "ustr \<Rightarrow> bool option" where "memory_exists k = None"
definition memory_clear_session :: "ustr \<Rightarrow> bool option" where "memory_clear_session session = None"

text \<open>Different keys are stored under different names, all of them under the prefix.\<close>

lemma memory_keys_do_not_collide: "memory_key c k = memory_key c k' \<longleftrightarrow> k = k'"
  by (simp add: memory_key_def)

section \<open>Identifiers\<close>

text \<open>\<open>random\<close> is what \<open>uuid4\<close> draws.\<close>

definition generate_id :: "uuid \<Rightarrow> ustr" where
  "generate_id random = uuid_str random"

definition generate_short_id :: "uuid \<Rightarrow> ustr" where
  "generate_short_id random = take 8 (uuid_str random)"

lemma short_ids_are_short: "length (generate_short_id u) = 8"
  by (simp add: generate_short_id_def length_uuid_str)

end
