(* ===== verification/Spec2Isabelle.thy ===== *)
theory Spec2Isabelle
  imports Lifecycle Tenancy Recovery UploadToReady Schedule SchemaAgreement StoredText Windows Processes Catalogue
begin

text \<open>
  A verification library for the ResearchMind backend: a service that takes PDF uploads from
  authenticated users, turns them into chunks with vectors in a background pipeline, and answers
  semantic searches over the caller's own documents.

  The program's parts. An API process (\<open>backend/api/\<close>) guards its routes by permission and calls the
  services of \<open>backend/services/\<close>. An upload is validated, its bytes go into object storage under a
  key derived from owner and SHA-256, its row goes into PostgreSQL, and a job goes into an ARQ queue. A worker process
  (\<open>backend/ingestion/\<close>) takes the job through three stages, each its own claim (a compare-and-set on
  the status), work and commit: extract the text, chunk it, embed the chunks and write the vectors to
  Qdrant. A reaper fails abandoned claims and a sweep queues documents that wait without a job.
  Processes share nothing but the database, the object directory, the vector store and the queue.

  How it is modelled. A result that may fail is a sum, \<open>(exn, 'a) result\<close>. Asynchronous code is a
  coroutine (\<open>Coroutine\<close>): a tree that suspends at each \<open>await\<close>, where one operation acts on a shared
  record \<open>world\<close> of database, objects, points and queue. At each await a choice says whether it is
  carried out, fails, or takes effect while its caller sees an exception; a transaction is one await,
  because nothing of it is visible before its commit. \<open>pool_step\<close> interleaves any number of coroutines
  that may be started, may die and may be resumed in any order, and \<open>reachable\<close> is its closure.
  A table is a list of rows; a statement that breaks a constraint of the schema raises that error. A
  \<open>str\<close> is a list of code points, an integer of Python an \<open>int\<close>, a UUID a 128-bit word, a byte an 8-bit word.

  Theories, in the order of their imports, and what they model of \<open>src/\<close>:

  \<^item> \<open>Prelude\<close>, \<open>PyText\<close>, \<open>Uuid\<close>: results, table operations, the string methods and \<open>uuid.UUID\<close>.
  \<^item> \<open>Domain\<close>, \<open>TextModels\<close>: \<open>shared/models/\<close>; a validator is a constructor that may refuse.
  \<^item> \<open>Database\<close>, \<open>DocumentRepository\<close>, \<open>ChunkRepository\<close>, \<open>Users\<close>: \<open>backend/db/models/\<close> and
    \<open>backend/db/repositories/\<close>, one definition per statement.
  \<^item> \<open>VectorStore\<close>: \<open>shared/interfaces/vector_store.py\<close>, \<open>vector_db/qdrant/repository.py\<close>.
  \<^item> \<open>ObjectStorage\<close>: \<open>shared/interfaces/storage.py\<close> and \<open>backend/storage/local.py\<close>, system call by system call.
  \<^item> \<open>IngestionService\<close>, \<open>UploadValidation\<close>, \<open>DocumentService\<close>, \<open>SearchService\<close>, \<open>AuthService\<close>: the services
    of the same names and \<open>document_processing/validation.py\<close>.
  \<^item> \<open>PdfExtraction\<close>, \<open>Sections\<close>, \<open>Tokenization\<close>, \<open>Chunker\<close>, \<open>Windows\<close>, \<open>Embedding\<close>: \<open>document_processing/\<close>.
  \<^item> \<open>Settings\<close>, \<open>Queue\<close>, \<open>Worker\<close>, \<open>Schedule\<close>: \<open>backend/config/settings.py\<close>, \<open>backend/ingestion/\<close>.
  \<^item> \<open>Passwords\<close>, \<open>Security\<close>: \<open>backend/security/\<close>.
  \<^item> \<open>Api\<close>, \<open>Application\<close>, \<open>Processes\<close>: \<open>backend/api/\<close>, and what a process owns (\<open>backend/db/engine.py\<close>).
  \<^item> \<open>Migrations\<close>, \<open>MigrationSafety\<close>, \<open>Revisions\<close>, \<open>RevisionSteps\<close>: \<open>alembic/\<close>, over tables with rows in them,
    and the schema the ORM models declare with the naming convention of \<open>backend/db/base.py\<close>.
    \<open>TypedRows\<close>, \<open>SchemaAgreement\<close>: that schema against the constraints of \<open>Database\<close>.
  \<^item> \<open>Agents\<close>, \<open>Catalogue\<close>: \<open>agents/\<close>, \<open>backend/services/agent_service.py\<close>, \<open>mcp_server/\<close> and
    \<open>memory_system/redis/\<close>.
  \<^item> \<open>Effects\<close>, \<open>PipelineSafety\<close>, \<open>ReadyDocuments\<close>, \<open>Lifecycle\<close>, \<open>Tenancy\<close>, \<open>StoredText\<close>, \<open>Delivery\<close>, \<open>UploadToReady\<close>,
    \<open>Recovery\<close>: no code of their own; what the processes above do together.
\<close>

text \<open>
  What the lemmas show.

  \<^item> The pipeline. \<open>PipelineSafety\<close> interprets the locale \<open>protocol\<close> of \<open>Coroutine\<close>: each process holds at most
    one document, what it holds nobody else moves, and \<open>documents_honest\<close> is kept. \<open>ReadyDocuments\<close>
    reads off what each status promises. This needs that a failure arrives before the operation took
    effect; with lost acknowledgements too, \<open>Lifecycle\<close>, \<open>Tenancy\<close> and \<open>StoredText\<close> show what only
    depends on which transactions exist: they interpret \<open>system_effects\<close> of \<open>Effects\<close>, the list of all
    transactions of the system, with a relation on databases (documents move along the state machine;
    other tenants' rows stay; rows stay well typed). \<open>Delivery\<close>, \<open>UploadToReady\<close>,
    \<open>Recovery\<close>, \<open>Worker\<close> and \<open>Schedule\<close> show progress: an undisturbed upload ends ready and searchable, a
    sweep leaves nothing without a job, a delivery ends in a result, a cancellation or a bounded
    retry, and a claim without a worker is ended within a minute of its threshold.
  \<^item> Text. Extraction ends in a named failure or a storable text, pages are read column by column, chunks
    are verbatim slices within the budget that lose no visible text (the locales \<open>tokenizer\<close>,
    \<open>visible_tokenizer\<close>, \<open>covering_tokenizer\<close> are the tokenizer's contract), and the window loop ends.
  \<^item> Retrieval. Results are the caller's own, from the database, ranked, and never empty for an outage.
  \<^item> Identity. Passwords and tokens round trip, refusals do not leak, guards trust the row and not the
    token, every mounted route is guarded, and a request changes only what its caller may change.
  \<^item> Storage. The local backend refines a map from keys to contents (locale \<open>object_store\<close>), and under any
    interleaving of writers and deleters an object is complete or absent.
  \<^item> Schema. The migrations build the schema of the models, lose no row upwards and can be undone; and
    that schema accepts exactly the databases that \<open>wf_db\<close>, the invariant of the services, accepts.

  Recursion and bounds. No definition uses fuel. Loops over lists are structural recursion; the window
  loop is a recursion with a measure and, in \<open>Windows\<close>, \<open>while_option\<close> as the source has it. Numbers keep their
  bounds where the code or a column gives them: \<open>varchar\<close> widths, 32- and 64-bit columns, 72 bytes of
  bcrypt, the years 1 to 9999, 63 characters of a PostgreSQL name.

  Parameters. What is not under \<open>src/\<close> is an argument, and what the code relies on is a named predicate
  that some instance satisfies: bcrypt (\<open>bcrypt_laws\<close>), PyJWT (\<open>jwt_laws\<close>), ARQ (\<open>arq_laws\<close>), Qdrant
  (\<open>qdrant_writes\<close>, \<open>qdrant_reads\<close>), the embedding model (\<open>one_vector_each\<close>), the Unicode database
  (\<open>unicode_sane\<close>); PyMuPDF, SHA-256, \<open>uuid5\<close> and the e-mail validator are functions with no law assumed
  unless a property names one. Of PostgreSQL the model takes that a transaction is atomic and a
  conditional UPDATE re-reads the row it waits for.

  Not modelled: log lines and detail texts of responses; FastAPI's matching of paths, parsing of bodies and
  CORS headers (a request is the endpoint and the parsed arguments); the construction of sessions,
  pools and clients beyond who owns them; alembic's offline mode; the configuration of logging; the
  stdio transport of the MCP server; \<open>document_processing/pipeline.py\<close> and
  \<open>metadata_extractor.py\<close>, stubs that nothing calls; when ARQ fires a cron job, which is ARQ; scripts,
  tests, frontend. What remains unmapped of the files named here is imports, docstrings and log calls.
\<close>

end
